(* ===== verification/Prelude.thy ===== *)
theory Prelude
  imports Main "HOL-Library.Word"
begin

text \<open>
  What every component of the model shares: the machine integers and byte strings of the
  Go code, its signed \<open>int\<close> arithmetic, the outcome of an operation that can return,
  fail or panic, the string functions of the \<open>strings\<close> package that the code calls, the
  clock, and the generic lemmas and theorem collections of the component theories.
\<close>

unbundle bit_operations_syntax

named_theorems go_defs \<open>small definitions that component proofs unfold\<close>
named_theorems frame_simps \<open>what an operation leaves unchanged\<close>

section \<open>Machine integers and bytes\<close>

type_synonym u8 = "8 word"
type_synonym u16 = "16 word"
type_synonym u32 = "32 word"
type_synonym u64 = "64 word"
type_synonym byte = u8
type_synonym bytes = "u8 list"

text \<open>
  Go's \<open>int\<close> has 64 bits on the platforms the server is built for. A value of it is a HOL
  integer; \<open>wrap_int\<close> is the reduction that every addition on it performs, and
  \<open>int_of_u64\<close> the conversion \<open>int(x)\<close> of an unsigned value.
\<close>

definition wrap_int :: "int \<Rightarrow> int" where
  "wrap_int i = (i + 2 ^ 63) mod 2 ^ 64 - 2 ^ 63"

definition int_of_u64 :: "u64 \<Rightarrow> int" where
  "int_of_u64 w = wrap_int (uint w)"

definition u64_len :: "'a list \<Rightarrow> u64" where
  "u64_len xs = word_of_nat (length xs)"

lemma wrap_int_id: "- (2 ^ 63) \<le> i \<Longrightarrow> i < 2 ^ 63 \<Longrightarrow> wrap_int i = i"
  by (simp add: wrap_int_def)

lemma wrap_int_bounds: "- (2 ^ 63) \<le> wrap_int i" "wrap_int i < 2 ^ 63"
  by (simp_all add: wrap_int_def)

lemma uint_u64_bounds: "0 \<le> uint (w :: u64)" "uint (w :: u64) < 2 ^ 64"
  using unsigned_less [of w, where ?'a = int] by simp_all

lemma int_of_u64_small:
  assumes "uint w < 2 ^ 63"
  shows "int_of_u64 w = uint w"
proof -
  have "- (2 ^ 63) \<le> uint w"
    using uint_u64_bounds(1) [of w] by (rule order_trans [rotated]) simp
  then show ?thesis
    unfolding int_of_u64_def using assms by (rule wrap_int_id)
qed

lemma int_of_u64_large:
  assumes "2 ^ 63 \<le> uint w"
  shows "int_of_u64 w = uint w - 2 ^ 64"
proof -
  have "uint w + 2 ^ 63 = uint w - 2 ^ 63 + 2 ^ 64"
    by simp
  then have "(uint w + 2 ^ 63) mod 2 ^ 64 = (uint w - 2 ^ 63 + 2 ^ 64) mod 2 ^ 64"
    by (rule arg_cong)
  also have "\<dots> = (uint w - 2 ^ 63) mod 2 ^ 64"
    by (rule mod_add_self2)
  also have "\<dots> = uint w - 2 ^ 63"
    using assms uint_u64_bounds(2) [of w] by (intro mod_pos_pos_trivial) simp_all
  finally show ?thesis
    by (simp add: int_of_u64_def wrap_int_def)
qed

lemma int_of_u64_nonneg: "0 \<le> int_of_u64 w \<longleftrightarrow> uint w < 2 ^ 63"
  using uint_u64_bounds [of w] int_of_u64_small [of w] int_of_u64_large [of w]
  by linarith

lemma unat_u64_len: "length xs < 2 ^ 64 \<Longrightarrow> unat (u64_len xs) = length xs"
  by (simp add: u64_len_def unsigned_of_nat take_bit_nat_eq_self)

lemma u64_len_inj:
  assumes "length xs < 2 ^ 64" and "length ys < 2 ^ 64"
  shows "u64_len xs = u64_len ys \<longleftrightarrow> length xs = length ys"
  using unat_u64_len [OF assms(1)] unat_u64_len [OF assms(2)]
  by (metis u64_len_def)

lemma u64_len_append: "u64_len (xs @ ys) = u64_len xs + u64_len ys"
  by (simp add: u64_len_def)

lemma u64_len_Nil [simp]: "u64_len [] = 0"
  by (simp add: u64_len_def)

lemma unat_ucast_u64 [simp]:
  "unat (ucast (x :: u8) :: u64) = unat x"
  "unat (ucast (y :: u16) :: u64) = unat y"
  "unat (ucast (z :: u32) :: u64) = unat z"
  using unsigned_less [of x, where ?'a = nat] unsigned_less [of y, where ?'a = nat]
    unsigned_less [of z, where ?'a = nat]
  by (simp_all add: unsigned_ucast_eq take_bit_nat_eq_self)

section \<open>Strings\<close>

text \<open>
  A Go string is a sequence of bytes; it is a \<open>string\<close> here, whose characters are the
  bytes 0 to 255.
\<close>

definition byte_of_char :: "char \<Rightarrow> byte" where
  "byte_of_char c = word_of_nat (of_char c)"

definition char_of_byte :: "byte \<Rightarrow> char" where
  "char_of_byte b = char_of (unat b)"

definition str_bytes :: "string \<Rightarrow> bytes" where
  "str_bytes s = map byte_of_char s"

definition bytes_str :: "bytes \<Rightarrow> string" where
  "bytes_str bs = map char_of_byte bs"

lemma char_of_byte_of_char [simp]: "char_of_byte (byte_of_char c) = c"
proof -
  have "(of_char c :: nat) < 256"
    by (rule nat_of_char_less_256)
  then show ?thesis
    by (simp add: char_of_byte_def byte_of_char_def unsigned_of_nat take_bit_nat_eq_self)
qed

lemma byte_of_char_of_byte [simp]: "byte_of_char (char_of_byte b) = b"
proof -
  have "unat b < 256"
    using unsigned_less [of b, where ?'a = nat] by simp
  then show ?thesis
    by (simp add: char_of_byte_def byte_of_char_def of_char_of)
qed

lemma bytes_str_str_bytes [simp]: "bytes_str (str_bytes s) = s"
  by (simp add: bytes_str_def str_bytes_def comp_def)

lemma str_bytes_bytes_str [simp]: "str_bytes (bytes_str b) = b"
  by (simp add: bytes_str_def str_bytes_def comp_def)

lemma length_str_bytes [simp]: "length (str_bytes s) = length s"
  by (simp add: str_bytes_def)

lemma length_bytes_str [simp]: "length (bytes_str s) = length s"
  by (simp add: bytes_str_def)

text \<open>\<open>strings.HasPrefix\<close> and \<open>strings.Contains\<close>.\<close>

definition has_prefix :: "'a list \<Rightarrow> 'a list \<Rightarrow> bool" where
  "has_prefix s p \<longleftrightarrow> take (length p) s = p"

fun str_contains :: "'a list \<Rightarrow> 'a list \<Rightarrow> bool" where
  "str_contains [] sub \<longleftrightarrow> sub = []"
| "str_contains (c # cs) sub \<longleftrightarrow> has_prefix (c # cs) sub \<or> str_contains cs sub"

lemma has_prefix_iff: "has_prefix s p \<longleftrightarrow> (\<exists>t. s = p @ t)"
  by (metis append_eq_conv_conj has_prefix_def append_take_drop_id)

lemma str_contains_single [simp]: "str_contains s [c] \<longleftrightarrow> c \<in> set s"
  by (induction s) (auto simp: has_prefix_def)

section \<open>Outcomes\<close>

text \<open>
  The errors the code compares by identity (\<open>socket.go\<close>, \<open>client.go\<close>), and any other
  error, which the code only prints. \<open>Panicked\<close> is no error of the code: an operation of a
  database that panics with a text \<open>returns\<close> it, and the caller goes on panicking with the text.
\<close>

datatype goerror = ErrConflict | ErrMissing | ErrExists | errTokenExpired
  | errSignatureInvalid | OtherError string | Panicked string

text \<open>\<open>err.Error()\<close>\<close>

fun error_text :: "goerror \<Rightarrow> string" where
  "error_text ErrConflict = ''Conflict''"
| "error_text ErrMissing = ''Missing''"
| "error_text ErrExists = ''Already exists''"
| "error_text errTokenExpired = ''token expired''"
| "error_text errSignatureInvalid = ''signature invalid''"
| "error_text (OtherError s) = s"
| "error_text (Panicked s) = s"

text \<open>
  What running a piece of Go code can end in: a value, an error, a run-time panic, or not
  at all.
\<close>

datatype 'a outcome = Ok 'a | Err goerror | Panic | Diverge

fun is_ok :: "'a outcome \<Rightarrow> bool" where
  "is_ok (Ok _) = True"
| "is_ok _ = False"

fun safe :: "'a outcome \<Rightarrow> bool" where
  "safe Panic = False"
| "safe Diverge = False"
| "safe _ = True"

text \<open>
  \<open>bindo x f\<close> runs \<open>f\<close> on the value of \<open>x\<close>, and stops at anything else.
\<close>

fun bindo :: "'a outcome \<Rightarrow> ('a \<Rightarrow> 'b outcome) \<Rightarrow> 'b outcome" where
  "bindo (Ok x) f = f x"
| "bindo (Err e) f = Err e"
| "bindo Panic f = Panic"
| "bindo Diverge f = Diverge"

lemma bindo_cong [fundef_cong]:
  "x = y \<Longrightarrow> (\<And>a. y = Ok a \<Longrightarrow> f a = g a) \<Longrightarrow> bindo x f = bindo y g"
  by (cases x) auto

lemma bindo_eq_Ok: "bindo x f = Ok z \<longleftrightarrow> (\<exists>y. x = Ok y \<and> f y = Ok z)"
  by (cases x) auto

lemma safe_bindo: "safe x \<Longrightarrow> (\<And>y. x = Ok y \<Longrightarrow> safe (f y)) \<Longrightarrow> safe (bindo x f)"
  by (cases x) auto

text \<open>The result of a call that returns, fails or panics, with the text of the panic.\<close>

fun sum_of :: "string \<Rightarrow> 'a outcome \<Rightarrow> goerror + 'a" where
  "sum_of panic_text (Ok x) = Inr x"
| "sum_of panic_text (Err e) = Inl e"
| "sum_of panic_text _ = Inl (Panicked panic_text)"

section \<open>The clock\<close>

text \<open>
  A \<open>time.Time\<close> is its distance from the Unix epoch in nanoseconds. The zero value of the
  Go type is 1 January of year 1. The order on instants is that of \<open>Before\<close>.
\<close>

datatype gotime = Time (unix_nano: int)

instantiation gotime :: linorder
begin

definition less_eq_gotime :: "gotime \<Rightarrow> gotime \<Rightarrow> bool" where
  "less_eq_gotime a b \<longleftrightarrow> unix_nano a \<le> unix_nano b"

definition less_gotime :: "gotime \<Rightarrow> gotime \<Rightarrow> bool" where
  "less_gotime a b \<longleftrightarrow> unix_nano a < unix_nano b"

instance
  by standard (auto simp: less_eq_gotime_def less_gotime_def gotime.expand)

end

definition zero_time :: gotime where
  "zero_time = Time (- 62135596800000000000)"

definition max_duration :: int where
  "max_duration = 2 ^ 63 - 1"

text \<open>\<open>t.Sub(u)\<close> saturates at the ends of the \<open>Duration\<close> type.\<close>

definition time_sub :: "gotime \<Rightarrow> gotime \<Rightarrow> int" where
  "time_sub t u =
     max (- max_duration - 1) (min max_duration (unix_nano t - unix_nano u))"

definition time_add :: "gotime \<Rightarrow> int \<Rightarrow> gotime" where
  "time_add t d = Time (unix_nano t + d)"

text \<open>\<open>t.Unix()\<close> rounds down to the second.\<close>

definition unix_sec :: "gotime \<Rightarrow> int" where
  "unix_sec t = unix_nano t div 1000000000"

definition second :: int where "second = 1000000000"

text \<open>\<open>int64(d.Seconds())\<close> rounds towards zero.\<close>

definition duration_seconds :: "int \<Rightarrow> int" where
  "duration_seconds d = sgn d * (\<bar>d\<bar> div second)"

section \<open>Generic lemmas\<close>

lemma map_upd_dom_cases: "(m(k \<mapsto> v)) j = Some x \<Longrightarrow> (j = k \<and> x = v) \<or> (j \<noteq> k \<and> m j = Some x)"
  by (auto split: if_splits)

text \<open>The first position of an element.\<close>

fun index_of :: "'a \<Rightarrow> 'a list \<Rightarrow> nat option" where
  "index_of x [] = None"
| "index_of x (y # ys) = (if x = y then Some 0 else map_option Suc (index_of x ys))"

lemma index_of_nth: "index_of x xs = Some i \<Longrightarrow> i < length xs \<and> xs ! i = x"
  by (induction xs arbitrary: i) (auto split: if_splits)

lemma index_of_distinct: "distinct xs \<Longrightarrow> i < length xs \<Longrightarrow> index_of (xs ! i) xs = Some i"
proof (induction xs arbitrary: i)
  case (Cons x xs)
  then show ?case by (cases i) auto
qed simp

lemma index_of_None: "index_of x xs = None \<longleftrightarrow> x \<notin> set xs"
  by (induction xs) auto

text \<open>Rows of a table looked up by a column: after an update, a deletion and an insertion.\<close>

lemma find_append: "find P (xs @ ys) = (case find P xs of None \<Rightarrow> find P ys | Some x \<Rightarrow> Some x)"
  by (induction xs) auto

lemma find_map_key:
  assumes "\<And>x. col (f x) = col x"
  shows "find (\<lambda>x. col x = k) (map (\<lambda>x. if col x = k' then f x else x) xs)
    = (if k = k' then map_option f (find (\<lambda>x. col x = k) xs) else find (\<lambda>x. col x = k) xs)"
  using assms by (induction xs) auto

lemma find_filter_key:
  assumes "distinct (map col xs)"
  shows "find (\<lambda>x. col x = k) (filter P xs)
    = (case find (\<lambda>x. col x = k) xs of None \<Rightarrow> None | Some x \<Rightarrow> if P x then Some x else None)"
  using assms
proof (induction xs)
  case (Cons x xs)
  have "find (\<lambda>x. col x = k) xs = None" if "col x = k"
    using that Cons.prems by (simp add: find_None_iff) (metis image_eqI)
  with Cons show ?case by auto
qed simp

lemma find_conj: "find (\<lambda>x. Q x \<and> P x) xs = find Q (filter P xs)"
  by (induction xs) auto

lemma find_key_in: "find (\<lambda>x. col x = k) xs = None \<longleftrightarrow> k \<notin> col ` set xs"
  by (auto simp: find_None_iff)

lemma find_key_Some: "find (\<lambda>x. col x = k) xs = Some x \<Longrightarrow> x \<in> set xs \<and> col x = k"
  by (auto simp: find_Some_iff)

lemma map_if_same_key [simp]:
  assumes "\<And>x. col (f x) = col x"
  shows "map (col \<circ> (\<lambda>x. if P x then f x else x)) xs = map col xs"
  using assms by simp

end
