(* ===== verification/Encoder.thy ===== *)
theory Encoder
  imports Prelude
begin

text \<open>
  The wire encoder of \<open>encoder.go\<close>. The Go code walks a struct by reflection: a struct
  type is the list of its fields' names and kinds (\<open>gofield\<close>), a struct value the list
  of its fields' values (\<open>refl\<close>). \<open>encode\<close> and \<open>decode_fields\<close> are \<open>encode\<close> and
  \<open>_decode\<close>; the lemmas show that decoding inverts encoding on every well-formed message,
  and that decoding bytes of a peer neither panics nor runs forever.
\<close>

section \<open>Message types\<close>

definition initMessageType :: u8 where [go_defs]: "initMessageType = 0x01"
definition appendV2MessageType :: u8 where [go_defs]: "appendV2MessageType = 0x02"
definition setKeyMessageType :: u8 where [go_defs]: "setKeyMessageType = 0x03"
definition broadcastMessageType :: u8 where [go_defs]: "broadcastMessageType = 0x04"
definition appendMessageType :: u8 where [go_defs]: "appendMessageType = 0x05"
definition errorMessageType :: u8 where [go_defs]: "errorMessageType = 0x80"
definition ackNackMessageType :: u8 where [go_defs]: "ackNackMessageType = 0x81"
definition keyInformationMessageType :: u8 where [go_defs]: "keyInformationMessageType = 0x82"
definition serverIdentificationMessageType :: u8 where
  [go_defs]: "serverIdentificationMessageType = 0x84"
definition continuationMessageType :: u8 where [go_defs]: "continuationMessageType = 0xff"

section \<open>Reflection\<close>

text \<open>
  The kinds of struct field that occur, with the element type and the \<open>repeat\<close> tag of a
  slice of structs. A field type pairs the field's name with its kind.
\<close>

datatype gokind = Uint8 | Uint16 | Uint32 | Uint64 | GoString | ByteSlice
  | StructSlice bool "(string \<times> gokind) list"

type_synonym gofield = "string \<times> gokind"

datatype refl = VU8 u8 | VU16 u16 | VU32 u32 | VU64 u64 | VStr string | VBytes bytes
  | VStructs "refl list list"

fun sizeof :: "gokind \<Rightarrow> nat" where
  "sizeof Uint8 = 1"
| "sizeof Uint16 = 2"
| "sizeof Uint32 = 4"
| "sizeof Uint64 = 8"
| "sizeof _ = 0"

section \<open>Integers on the wire\<close>

text \<open>
  \<open>readUint\<close> indexes the message at \<open>at\<close>, \<open>at + 1\<close>, \dots; \<open>None\<close> is the run-time
  panic of an index out of range.
\<close>

fun readUint_loop :: "u64 \<Rightarrow> bytes \<Rightarrow> nat \<Rightarrow> nat \<Rightarrow> u64 option" where
  "readUint_loop ret m at 0 = Some ret"
| "readUint_loop ret m at (Suc sz) =
     (if at < length m then readUint_loop (ret * 256 + ucast (m ! at)) m (Suc at) sz
      else None)"

definition readUint :: "bytes \<Rightarrow> nat \<Rightarrow> nat \<Rightarrow> u64 option" where
  "readUint m at sz = readUint_loop 0 m at sz"

fun writeUint :: "bytes \<Rightarrow> u64 \<Rightarrow> nat \<Rightarrow> bytes" where
  "writeUint m v 0 = m"
| "writeUint m v (Suc sz) = writeUint (m @ [ucast (drop_bit (sz * 8) v)]) v sz"

section \<open>Encoding\<close>

fun encode :: "bytes \<Rightarrow> refl list \<Rightarrow> bytes"
  and encode_elems :: "bytes \<Rightarrow> refl list list \<Rightarrow> bytes" where
  "encode m [] = m"
| "encode m (VU8 x # vs) = encode (writeUint m (ucast x) (sizeof Uint8)) vs"
| "encode m (VU16 x # vs) = encode (writeUint m (ucast x) (sizeof Uint16)) vs"
| "encode m (VU32 x # vs) = encode (writeUint m (ucast x) (sizeof Uint32)) vs"
| "encode m (VU64 x # vs) = encode (writeUint m x (sizeof Uint64)) vs"
| "encode m (VStr s # vs) = encode (m @ str_bytes s) vs"
| "encode m (VBytes b # vs) = encode (m @ b) vs"
| "encode m (VStructs xss # vs) = encode (encode_elems m xss) vs"
| "encode_elems m [] = m"
| "encode_elems m (xs # xss) = encode_elems (encode m xs) xss"

section \<open>Decoding\<close>

definition too_short :: goerror where
  "too_short = OtherError ''message too short''"

text \<open>
  The number of bytes a field takes before it is looked at: a string, and a byte slice not
  called \<open>Data\<close>, has the length that the last integer field gave.
\<close>

definition field_size :: "string \<Rightarrow> gokind \<Rightarrow> u64 \<Rightarrow> int" where
  "field_size name k val =
     (if k = GoString \<or> k = ByteSlice \<and> name \<noteq> ''Data'' then int_of_u64 val
      else int (sizeof k))"

text \<open>
  \<open>m[pos : pos+size]\<close> with the addition of Go's \<open>int\<close>. The code checks the upper end
  before; a lower upper end is a panic.
\<close>

definition go_slice :: "bytes \<Rightarrow> nat \<Rightarrow> int \<Rightarrow> bytes option" where
  "go_slice m pos sz =
     (let hi = wrap_int (int pos + sz)
      in if int pos \<le> hi then Some (take (nat hi - pos) (drop pos m)) else None)"

definition mk_uint :: "gokind \<Rightarrow> u64 \<Rightarrow> refl" where
  "mk_uint k val =
     (case k of Uint8 \<Rightarrow> VU8 (ucast val) | Uint16 \<Rightarrow> VU16 (ucast val)
      | Uint32 \<Rightarrow> VU32 (ucast val) | _ \<Rightarrow> VU64 val)"

text \<open>
  \<open>decode_fields\<close> is \<open>_decode\<close> from its loop over the fields on: the position in the
  message and the value of the last integer field are its state; it returns the position
  after the struct and the fields it set. \<open>decode_elems\<close> is the inner loop over the
  elements of a slice. Its first argument bounds the number of times the loop condition is
  evaluated. The bound given is one more than the number of elements there can be: the
  count, or one element per byte of the message. A loop that exceeds it has made an
  iteration that moved the position by nothing and so never ends.
\<close>

function (sequential) decode_fields ::
    "gofield list \<Rightarrow> bytes \<Rightarrow> nat \<Rightarrow> u64 \<Rightarrow> (nat \<times> refl list) outcome"
  and decode_elems ::
    "nat \<Rightarrow> bool \<Rightarrow> gofield list \<Rightarrow> bytes \<Rightarrow> nat \<Rightarrow> nat \<Rightarrow> u64 \<Rightarrow> (nat \<times> refl list list) outcome"
where
  "decode_fields [] m pos val = Ok (pos, [])"
| "decode_fields ((name, k) # fs) m pos val =
     (let sz = field_size name k val in
      if wrap_int (int pos + sz) > int (length m) then Err too_short
      else if k = GoString then
        (case go_slice m pos sz of
           None \<Rightarrow> Panic
         | Some b \<Rightarrow>
             bindo (decode_fields fs m (nat (wrap_int (int pos + sz))) val)
               (\<lambda>(p, vs). Ok (p, VStr (bytes_str b) # vs)))
      else if name = ''Data'' then
        (if k \<noteq> ByteSlice then Panic
         else bindo (decode_fields fs m (length m) val)
                (\<lambda>(p, vs). Ok (p, VBytes (drop pos m) # vs)))
      else
        (case k of
           ByteSlice \<Rightarrow>
             (case go_slice m pos sz of
                None \<Rightarrow> Panic
              | Some b \<Rightarrow>
                  bindo (decode_fields fs m (nat (wrap_int (int pos + sz))) val)
                    (\<lambda>(p, vs). Ok (p, VBytes b # vs)))
         | StructSlice repeat es \<Rightarrow>
             bindo (decode_elems (if repeat then Suc (length m) else Suc (unat val))
                      repeat es m pos 0 val)
               (\<lambda>(p, xss). bindo (decode_fields fs m p val)
                 (\<lambda>(p', vs). Ok (p', VStructs xss # vs)))
         | _ \<Rightarrow>
             (case readUint m pos (nat sz) of
                None \<Rightarrow> Panic
              | Some v \<Rightarrow>
                  bindo (decode_fields fs m (pos + nat sz) v)
                    (\<lambda>(p, vs). Ok (p, mk_uint k v # vs)))))"
| "decode_elems 0 repeat es m pos j val = Diverge"
| "decode_elems (Suc n) repeat es m pos j val =
     (if repeat \<and> pos < length m \<or> \<not> repeat \<and> j < unat val then
        bindo (decode_fields es m pos 0)
          (\<lambda>(p, xs). bindo (decode_elems n repeat es m p (Suc j) val)
            (\<lambda>(p', xss). Ok (p', xs # xss)))
      else Ok (pos, []))"
  by pat_completeness auto
termination
  by (relation "measures
        [\<lambda>x. case x of Inl (fs, _) \<Rightarrow> 2 * size_list (size_prod (\<lambda>_. 0) size) fs
                     | Inr (_, _, es, _) \<Rightarrow> Suc (2 * size_list (size_prod (\<lambda>_. 0) size) es),
         \<lambda>x. case x of Inl _ \<Rightarrow> 0 | Inr (n, _) \<Rightarrow> n]") auto

definition decode :: "gofield list \<Rightarrow> bytes \<Rightarrow> refl list outcome" where
  "decode s m = bindo (decode_fields s m 0 0) (\<lambda>(p, vs). Ok vs)"

section \<open>Integers round-trip\<close>

text \<open>The bytes \<open>writeUint\<close> appends, most significant first.\<close>

fun be_bytes :: "nat \<Rightarrow> u64 \<Rightarrow> bytes" where
  "be_bytes 0 v = []"
| "be_bytes (Suc n) v = ucast (drop_bit (n * 8) v) # be_bytes n v"

lemma length_be_bytes [simp]: "length (be_bytes n v) = n"
  by (induction n) auto

lemma writeUint_be_bytes: "writeUint m v n = m @ be_bytes n v"
  by (induction n arbitrary: m) auto

lemma take_bit_split: "take_bit (n + k) (v :: u64) = push_bit n (take_bit k (drop_bit n v)) + take_bit n v"
proof -
  have "push_bit n (drop_bit n (take_bit (n + k) v)) + take_bit n (take_bit (n + k) v)
      = take_bit (n + k) v"
    by (rule bits_ident)
  then show ?thesis
    by (simp add: drop_bit_take_bit)
qed

lemma ucast_byte_u64: "(ucast (ucast v :: byte) :: u64) = take_bit 8 v"
  by (simp add: unsigned_ucast_eq)

lemma readUint_loop_be_bytes:
  "readUint_loop ret (pre @ be_bytes n v @ post) (length pre) n
     = Some (push_bit (n * 8) ret + take_bit (n * 8) v)"
proof (induction n arbitrary: ret pre)
  case 0
  then show ?case by simp
next
  case (Suc n)
  let ?b = "ucast (drop_bit (n * 8) v) :: byte"
  have IH: "readUint_loop (ret * 256 + ucast ?b) ((pre @ [?b]) @ be_bytes n v @ post)
              (length (pre @ [?b])) n
      = Some (push_bit (n * 8) (ret * 256 + ucast ?b) + take_bit (n * 8) v)"
    by (rule Suc.IH)
  have "push_bit (n * 8) (ret * 256 + ucast ?b) + take_bit (n * 8) v
      = push_bit (Suc n * 8) ret + take_bit (Suc n * 8) v"
    using take_bit_split [of "n * 8" 8 v]
    by (simp add: ucast_byte_u64 push_bit_eq_mult power_add algebra_simps)
  with IH show ?case
    by (simp add: nth_append)
qed

lemma readUint_be_bytes:
  "readUint (pre @ be_bytes n v @ post) (length pre) n = Some (take_bit (n * 8) v)"
  by (simp add: readUint_def readUint_loop_be_bytes)

lemma readUint_in_range: "at + n \<le> length m \<Longrightarrow> \<exists>v. readUint m at n = Some v"
proof -
  have "at + n \<le> length m \<Longrightarrow> \<exists>v. readUint_loop ret m at n = Some v" for ret
    by (induction n arbitrary: ret at) auto
  then show "at + n \<le> length m \<Longrightarrow> ?thesis"
    by (simp add: readUint_def)
qed

section \<open>Structs round-trip\<close>

text \<open>
  \<open>wf_flat fs v vs\<close>: the values \<open>vs\<close> fit the flat field types \<open>fs\<close> and every string and
  byte slice has the length that the integer before it says, \<open>v\<close> being the integer
  before the first field. \<open>last_uint\<close> is the last integer of the struct.
\<close>

definition fits :: "string \<Rightarrow> gokind \<Rightarrow> u64 \<Rightarrow> refl \<Rightarrow> bool" where
  "fits n k v r =
     (case r of
        VU8 _ \<Rightarrow> k = Uint8 \<and> n \<noteq> ''Data''
      | VU16 _ \<Rightarrow> k = Uint16 \<and> n \<noteq> ''Data''
      | VU32 _ \<Rightarrow> k = Uint32 \<and> n \<noteq> ''Data''
      | VU64 _ \<Rightarrow> k = Uint64 \<and> n \<noteq> ''Data''
      | VStr s \<Rightarrow> k = GoString \<and> unat v = length s
      | VBytes b \<Rightarrow> k = ByteSlice \<and> n \<noteq> ''Data'' \<and> unat v = length b
      | VStructs _ \<Rightarrow> False)"

fun next_uint :: "u64 \<Rightarrow> refl \<Rightarrow> u64" where
  "next_uint v (VU8 x) = ucast x"
| "next_uint v (VU16 x) = ucast x"
| "next_uint v (VU32 x) = ucast x"
| "next_uint v (VU64 x) = x"
| "next_uint v _ = v"

fun wf_flat :: "gofield list \<Rightarrow> u64 \<Rightarrow> refl list \<Rightarrow> bool" where
  "wf_flat [] v rs = (rs = [])"
| "wf_flat ((n, k) # fs) v rs =
     (case rs of [] \<Rightarrow> False | r # rs' \<Rightarrow> fits n k v r \<and> wf_flat fs (next_uint v r) rs')"

definition last_uint :: "u64 \<Rightarrow> refl list \<Rightarrow> u64" where
  "last_uint v rs = foldl next_uint v rs"

text \<open>
  The bytes of one field and of a struct, without the accumulator that the code threads.
\<close>

fun enc_val :: "refl \<Rightarrow> bytes" where
  "enc_val (VU8 x) = be_bytes 1 (ucast x)"
| "enc_val (VU16 x) = be_bytes 2 (ucast x)"
| "enc_val (VU32 x) = be_bytes 4 (ucast x)"
| "enc_val (VU64 x) = be_bytes 8 x"
| "enc_val (VStr s) = str_bytes s"
| "enc_val (VBytes b) = b"
| "enc_val (VStructs xss) = concat (map (\<lambda>xs. concat (map enc_val xs)) xss)"

definition enc :: "refl list \<Rightarrow> bytes" where
  "enc vs = concat (map enc_val vs)"

lemma enc_simps [simp]: "enc [] = []" "enc (v # vs) = enc_val v @ enc vs"
    "enc (us @ vs) = enc us @ enc vs"
  by (simp_all add: enc_def)

lemma enc_val_VStructs [simp]: "enc_val (VStructs xss) = concat (map enc xss)"
  by (simp add: enc_def [abs_def])

declare enc_val.simps(7) [simp del]

lemma encode_enc: "encode m vs = m @ enc vs"
  and encode_elems_enc: "encode_elems m xss = m @ concat (map enc xss)"
  by (induction m vs and m xss rule: encode_encode_elems.induct)
    (simp_all add: writeUint_be_bytes del: be_bytes.simps)

lemma enc_val_pos: "(case v of VU8 _ \<Rightarrow> True | VU16 _ \<Rightarrow> True | VU32 _ \<Rightarrow> True | VU64 _ \<Rightarrow> True
    | _ \<Rightarrow> False) \<Longrightarrow> 0 < length (enc_val v)"
  by (cases v) auto

lemma take_bit_ucast_u64:
  "take_bit 8 (ucast (x :: u8) :: u64) = ucast x"
  "take_bit 16 (ucast (y :: u16) :: u64) = ucast y"
  "take_bit 32 (ucast (z :: u32) :: u64) = ucast z"
  "take_bit 64 (w :: u64) = w"
  by (simp_all add: take_bit_word_eq_self unsigned_take_bit_eq flip: unsigned_take_bit_eq)

lemma ucast_back:
  "(ucast (ucast (x :: u8) :: u64) :: u8) = x"
  "(ucast (ucast (y :: u16) :: u64) :: u16) = y"
  "(ucast (ucast (z :: u32) :: u64) :: u32) = z"
  by (simp_all add: unsigned_ucast_eq take_bit_word_eq_self)

text \<open>One field: the value is read back and the position moves past it.\<close>

lemma go_slice_mid:
  assumes "length (pre @ b @ post) < 2 ^ 63"
  shows "go_slice (pre @ b @ post) (length pre) (int (length b)) = Some b"
    and "wrap_int (int (length pre) + int (length b)) = int (length pre + length b)"
proof -
  show *: "wrap_int (int (length pre) + int (length b)) = int (length pre + length b)"
    using assms by (subst wrap_int_id) auto
  show "go_slice (pre @ b @ post) (length pre) (int (length b)) = Some b"
    by (simp add: go_slice_def Let_def *)
qed

lemma int_of_u64_length:
  assumes "unat v = n" and "n < 2 ^ 63"
  shows "int_of_u64 v = int n"
proof -
  have "uint v = int n"
    using assms(1) by (metis uint_nat)
  with assms(2) show ?thesis
    by (simp add: int_of_u64_small)
qed

lemma decode_uint_field:
  assumes "k \<in> {Uint8, Uint16, Uint32, Uint64}" and "n \<noteq> ''Data''"
    and "length (pre @ be_bytes (sizeof k) x @ post) < 2 ^ 63"
  shows "decode_fields ((n, k) # fs) (pre @ be_bytes (sizeof k) x @ post) (length pre) v
     = bindo (decode_fields fs (pre @ be_bytes (sizeof k) x @ post) (length pre + sizeof k)
         (take_bit (sizeof k * 8) x))
         (\<lambda>(p, vs). Ok (p, mk_uint k (take_bit (sizeof k * 8) x) # vs))"
proof -
  have "wrap_int (int (length pre) + int (sizeof k)) = int (length pre + sizeof k)"
    using assms(3) by (subst wrap_int_id) auto
  with assms show ?thesis
    by (auto simp: field_size_def readUint_be_bytes simp del: sizeof.simps be_bytes.simps)
qed

lemma decode_fits:
  assumes "fits n k v r" and "length (pre @ enc_val r @ post) < 2 ^ 63"
  shows "decode_fields ((n, k) # fs) (pre @ enc_val r @ post) (length pre) v
     = bindo (decode_fields fs (pre @ enc_val r @ post) (length (pre @ enc_val r)) (next_uint v r))
         (\<lambda>(p, vs). Ok (p, r # vs))"
proof (cases r)
  case (VU8 x)
  with assms decode_uint_field [of Uint8 n pre "ucast x" post fs v] show ?thesis
    by (simp add: fits_def take_bit_ucast_u64 ucast_back mk_uint_def del: decode_fields.simps be_bytes.simps)
next
  case (VU16 x)
  with assms decode_uint_field [of Uint16 n pre "ucast x" post fs v] show ?thesis
    by (simp add: fits_def take_bit_ucast_u64 ucast_back mk_uint_def del: decode_fields.simps be_bytes.simps)
next
  case (VU32 x)
  with assms decode_uint_field [of Uint32 n pre "ucast x" post fs v] show ?thesis
    by (simp add: fits_def take_bit_ucast_u64 ucast_back mk_uint_def del: decode_fields.simps be_bytes.simps)
next
  case (VU64 x)
  with assms decode_uint_field [of Uint64 n pre x post fs v] show ?thesis
    by (simp add: fits_def take_bit_ucast_u64 ucast_back mk_uint_def del: decode_fields.simps be_bytes.simps)
next
  case (VStr s)
  with assms int_of_u64_length [of v "length s"] go_slice_mid [of pre "str_bytes s" post]
  show ?thesis
    by (simp add: fits_def field_size_def nat_int_add)
next
  case (VBytes b)
  with assms int_of_u64_length [of v "length b"] go_slice_mid [of pre b post]
  show ?thesis
    by (simp add: fits_def field_size_def nat_int_add)
next
  case (VStructs xss)
  with assms show ?thesis by (simp add: fits_def)
qed

text \<open>
  A flat prefix of a struct: decoding it continues after its bytes, with the last integer
  of the prefix.
\<close>

lemma decode_flat_prefix:
  "wf_flat gs v us \<Longrightarrow> length (pre @ enc us @ post) < 2 ^ 63 \<Longrightarrow>
   decode_fields (gs @ fs) (pre @ enc us @ post) (length pre) v
     = bindo (decode_fields fs (pre @ enc us @ post) (length (pre @ enc us)) (last_uint v us))
         (\<lambda>(p, vs). Ok (p, us @ vs))"
proof (induction gs v us arbitrary: pre rule: wf_flat.induct)
  case (1 v rs)
  then show ?case
    by (cases "decode_fields fs (pre @ post) (length pre) v") (auto simp: last_uint_def)
next
  case (2 n k gs v rs)
  then obtain r rs' where rs: "rs = r # rs'" and f: "fits n k v r"
    and w: "wf_flat gs (next_uint v r) rs'"
    by (auto split: list.splits)
  have "decode_fields (((n, k) # gs) @ fs) (pre @ enc_val r @ (enc rs' @ post)) (length pre) v
     = bindo (decode_fields (gs @ fs) (pre @ enc_val r @ (enc rs' @ post))
         (length (pre @ enc_val r)) (next_uint v r)) (\<lambda>(p, vs). Ok (p, r # vs))"
    using 2(3) f rs unfolding append_Cons by (intro decode_fits) simp_all
  moreover have "decode_fields (gs @ fs) ((pre @ enc_val r) @ enc rs' @ post)
         (length (pre @ enc_val r)) (next_uint v r)
     = bindo (decode_fields fs ((pre @ enc_val r) @ enc rs' @ post)
         (length ((pre @ enc_val r) @ enc rs')) (last_uint (next_uint v r) rs'))
         (\<lambda>(p, vs). Ok (p, rs' @ vs))"
    using 2(3) rs f w by (intro 2(1)) simp_all
  ultimately show ?case
    by (cases "decode_fields fs (pre @ enc rs @ post) (length (pre @ enc rs)) (last_uint v rs)")
      (simp_all add: rs last_uint_def split: prod.splits)
qed

lemma decode_flat:
  assumes "wf_flat fs 0 vs" and "length (enc vs) < 2 ^ 63"
  shows "decode fs (encode [] vs) = Ok vs"
  using decode_flat_prefix [of fs 0 vs "[]" "[]" "[]"] assms
  by (simp add: decode_def encode_enc)

text \<open>A struct that ends in \<open>Data\<close>: the rest of the message.\<close>

lemma decode_Data:
  assumes "wf_flat fs 0 us" and "length (enc us @ b) < 2 ^ 63"
  shows "decode (fs @ [(''Data'', ByteSlice)]) (encode [] (us @ [VBytes b])) = Ok (us @ [VBytes b])"
proof -
  have "wrap_int (int (length (enc us))) = int (length (enc us))"
    using assms(2) by (subst wrap_int_id) auto
  then have "decode_fields [(''Data'', ByteSlice)] (enc us @ b) (length (enc us)) v
      = Ok (length (enc us @ b), [VBytes b])" for v
    by (simp add: field_size_def)
  with decode_flat_prefix [of fs 0 us "[]" b "[(''Data'', ByteSlice)]"] assms show ?thesis
    by (simp add: decode_def encode_enc del: decode_fields.simps(2))
qed

text \<open>A struct that ends in a slice repeated to the end of the message.\<close>

lemma decode_elems_repeat:
  assumes "\<And>xs. xs \<in> set xss \<Longrightarrow> wf_flat es 0 xs \<and> enc xs \<noteq> []"
    and "length (pre @ concat (map enc xss)) < 2 ^ 63"
    and "length (concat (map enc xss)) < n"
  shows "decode_elems n True es (pre @ concat (map enc xss)) (length pre) j v
     = Ok (length (pre @ concat (map enc xss)), xss)"
  using assms
proof (induction xss arbitrary: pre n j)
  case Nil
  then obtain k where "n = Suc k" by (cases n) auto
  then show ?case by simp
next
  case (Cons xs xss)
  then obtain k where n: "n = Suc k" by (cases n) auto
  from Cons.prems(1) [of xs] have wf: "wf_flat es 0 xs" and ne: "enc xs \<noteq> []" by auto
  have hd: "decode_fields es (pre @ enc xs @ concat (map enc xss)) (length pre) 0
      = Ok (length (pre @ enc xs), xs)"
    using decode_flat_prefix [OF wf, of pre "concat (map enc xss)" "[]"] Cons.prems(2) by simp
  have "decode_elems k True es ((pre @ enc xs) @ concat (map enc xss)) (length (pre @ enc xs)) (Suc j) v
      = Ok (length ((pre @ enc xs) @ concat (map enc xss)), xss)"
  proof (rule Cons.IH)
    have "0 < length (enc xs)" using ne by simp
    with Cons.prems(3) n show "length (concat (map enc xss)) < k"
      by (simp del: length_greater_0_conv)
  qed (use Cons.prems in auto)
  with hd ne show ?case by (simp add: n)
qed

lemma decode_repeat:
  assumes "wf_flat fs 0 us" and "length (enc us @ concat (map enc xss)) < 2 ^ 63"
    and "\<And>xs. xs \<in> set xss \<Longrightarrow> wf_flat es 0 xs \<and> enc xs \<noteq> []" and "n \<noteq> ''Data''"
  shows "decode (fs @ [(n, StructSlice True es)]) (encode [] (us @ [VStructs xss]))
     = Ok (us @ [VStructs xss])"
proof -
  let ?m = "enc us @ concat (map enc xss)"
  have "wrap_int (int (length (enc us))) = int (length (enc us))"
    using assms(2) by (subst wrap_int_id) auto
  moreover have "decode_elems (Suc (length ?m)) True es ?m (length (enc us)) 0 v
      = Ok (length ?m, xss)" for v
    using assms by (intro decode_elems_repeat) auto
  ultimately have "decode_fields [(n, StructSlice True es)] ?m (length (enc us)) v
      = Ok (length ?m, [VStructs xss])" for v
    using assms(4) by (simp add: field_size_def)
  with decode_flat_prefix [of fs 0 us "[]" "concat (map enc xss)" "[(n, StructSlice True es)]"]
    assms show ?thesis
    by (simp add: decode_def encode_enc del: decode_fields.simps(2))
qed

section \<open>Decoding is safe\<close>

text \<open>
  The struct types for which decoding arbitrary bytes can neither panic nor run on: every
  string has an integer of at most 32 bits before it, and an element of a slice takes at
  least one byte. \<open>small\<close> says that the last integer is at most 32 bits wide.
\<close>

fun safe_desc :: "gofield list \<Rightarrow> bool \<Rightarrow> bool" where
  "safe_desc [] small = True"
| "safe_desc ((n, Uint8) # fs) small = (n \<noteq> ''Data'' \<and> safe_desc fs True)"
| "safe_desc ((n, Uint16) # fs) small = (n \<noteq> ''Data'' \<and> safe_desc fs True)"
| "safe_desc ((n, Uint32) # fs) small = (n \<noteq> ''Data'' \<and> safe_desc fs True)"
| "safe_desc ((n, Uint64) # fs) small = (n \<noteq> ''Data'' \<and> safe_desc fs False)"
| "safe_desc ((n, GoString) # fs) small = (small \<and> safe_desc fs small)"
| "safe_desc ((n, ByteSlice) # fs) small = ((n = ''Data'' \<or> small) \<and> safe_desc fs small)"
| "safe_desc ((n, StructSlice r es) # fs) small =
     (n \<noteq> ''Data'' \<and> safe_desc es True \<and> 0 < sum_list (map (sizeof \<circ> snd) es) \<and> safe_desc fs small)"

text \<open>The least number of bytes a struct takes: what its integers take.\<close>

definition min_size :: "gofield list \<Rightarrow> nat" where
  "min_size fs = sum_list (map (sizeof \<circ> snd) fs)"

lemma min_size_simps [simp]: "min_size [] = 0" "min_size ((n, k) # fs) = sizeof k + min_size fs"
  by (simp_all add: min_size_def)

text \<open>What a decoder may end in, from position \<open>pos\<close> with at least \<open>k\<close> more bytes to read.\<close>

fun decoded :: "bytes \<Rightarrow> nat \<Rightarrow> nat \<Rightarrow> (nat \<times> 'a) outcome \<Rightarrow> bool" where
  "decoded m pos k (Ok (p, _)) = (pos + k \<le> p \<and> p \<le> length m)"
| "decoded m pos k (Err e) = (e = too_short)"
| "decoded m pos k _ = False"

lemma decoded_bindo:
  assumes "decoded m pos k x"
    and "\<And>p y. x = Ok (p, y) \<Longrightarrow> pos + k \<le> p \<Longrightarrow> p \<le> length m \<Longrightarrow> decoded m p k' (f (p, y))"
  shows "decoded m pos (k + k') (bindo x f)"
proof (cases x)
  case (Ok z)
  then obtain p y where z: "z = (p, y)" by (cases z)
  with Ok assms(1) have "pos + k \<le> p" "p \<le> length m" by auto
  with assms(2) [of p y] Ok z show ?thesis
    by (cases "f (p, y)") auto
qed (use assms in auto)

lemma decoded_weaken: "decoded m pos k x \<Longrightarrow> pos' + k' \<le> pos + k \<Longrightarrow> decoded m pos' k' x"
  by (cases "(m, pos, k, x)" rule: decoded.cases) auto

lemma unat_step_bound:
  assumes "unat (ret :: u64) < 256 ^ k"
  shows "unat (ret * 256 + ucast (b :: byte)) < 256 ^ Suc k"
proof -
  have b: "unat (ucast b :: u64) < 256"
    using unsigned_less [of b, where ?'a = nat] by (simp add: unsigned_ucast_eq take_bit_nat_eq_self)
  have "unat (ret * 256 + ucast b) \<le> unat (ret * 256) + unat (ucast b :: u64)"
    by (simp only: unat_word_ariths mod_less_eq_dividend)
  also have "unat (ret * 256) \<le> unat ret * 256"
    by (simp add: unat_word_ariths)
  finally have "unat (ret * 256 + ucast b) \<le> unat ret * 256 + unat (ucast b :: u64)"
    by simp
  also have "\<dots> < (unat ret + 1) * 256" using b by simp
  also have "\<dots> \<le> 256 ^ k * 256" using assms by (intro mult_le_mono1) simp
  finally show ?thesis by simp
qed

lemma readUint_loop_bound:
  "readUint_loop ret m at n = Some v \<Longrightarrow> unat ret < 256 ^ k \<Longrightarrow> unat v < 256 ^ (k + n)"
proof (induction n arbitrary: ret at k)
  case 0
  then show ?case by simp
next
  case (Suc n)
  from Suc.prems(1) have "readUint_loop (ret * 256 + ucast (m ! at)) m (Suc at) n = Some v"
    by (simp split: if_splits)
  from Suc.IH [OF this unat_step_bound [OF Suc.prems(2)]] show ?case by simp
qed

lemma readUint_bound: "readUint m at n = Some v \<Longrightarrow> unat v < 256 ^ n"
  using readUint_loop_bound [of 0 m at n v 0] by (simp add: readUint_def)

lemma decode_uint_safe:
  assumes "k \<in> {Uint8, Uint16, Uint32, Uint64}" and "n \<noteq> ''Data''"
    and "pos \<le> length m" and "length m < 2 ^ 62"
    and IH: "\<And>v. pos + sizeof k \<le> length m \<Longrightarrow> unat v < 256 ^ sizeof k \<Longrightarrow>
      decoded m (pos + sizeof k) (min_size fs) (decode_fields fs m (pos + sizeof k) v)"
  shows "decoded m pos (sizeof k + min_size fs) (decode_fields ((n, k) # fs) m pos val)"
proof -
  have sz: "field_size n k val = int (sizeof k)" and k8: "sizeof k \<le> 8"
    using assms(1) by (auto simp: field_size_def)
  have w: "wrap_int (int pos + int (sizeof k)) = int (pos + sizeof k)"
    using assms(3,4) k8 by (subst wrap_int_id) auto
  show ?thesis
  proof (cases "pos + sizeof k \<le> length m")
    case True
    then obtain v where v: "readUint m pos (sizeof k) = Some v"
      using readUint_in_range by blast
    from IH [OF True readUint_bound [OF v]]
    have "decoded m pos (sizeof k + min_size fs)
        (bindo (decode_fields fs m (pos + sizeof k) v) (\<lambda>(p, vs). Ok (p, mk_uint k v # vs)))"
      by (cases "decode_fields fs m (pos + sizeof k) v") auto
    with True v w sz assms(1,2) show ?thesis by (auto simp: Let_def)
  next
    case False
    with w sz assms(1,2) show ?thesis by (auto simp: Let_def)
  qed
qed

lemma decode_chunk_safe:
  assumes "k = GoString \<or> k = ByteSlice \<and> n \<noteq> ''Data''" and "unat val < 2 ^ 32"
    and "pos \<le> length m" and "length m < 2 ^ 62"
    and IH: "\<And>p. p \<le> length m \<Longrightarrow> decoded m p (min_size fs) (decode_fields fs m p val)"
  shows "decoded m pos (min_size fs) (decode_fields ((n, k) # fs) m pos val)"
proof -
  define N where "N = unat val"
  have N: "N < 2 ^ 32" using assms(2) by (simp add: N_def)
  have iv: "int_of_u64 val = int N"
    using N by (intro int_of_u64_length) (simp_all add: N_def)
  have w: "wrap_int (int pos + int N) = int (pos + N)"
    using N assms(3,4) by (subst wrap_int_id) auto
  show ?thesis
  proof (cases "pos + N \<le> length m")
    case True
    have sl: "go_slice m pos (int N) = Some (take N (drop pos m))"
      unfolding go_slice_def Let_def w by (simp only: nat_int) simp
    have nt: "nat (wrap_int (int pos + int N)) = pos + N"
      unfolding w by simp
    have ok: "decoded m pos (min_size fs)
        (bindo (decode_fields fs m (pos + N) val) (\<lambda>(p, vs). Ok (p, f vs)))" for f
      using IH [OF True] by (cases "decode_fields fs m (pos + N) val") auto
    from True sl w nt ok assms(1) show ?thesis
      by (auto simp add: Let_def field_size_def iv)
  next
    case False
    with w assms(1) show ?thesis
      by (auto simp: Let_def field_size_def iv)
  qed
qed

lemma safe_desc_mono: "safe_desc fs False \<Longrightarrow> safe_desc fs b"
  by (cases b) (induction fs "False" rule: safe_desc.induct; simp)+

declare decode_fields.simps(2) [simp del]

lemma decode_elems_decoded:
  assumes "\<And>pos. pos \<le> length m \<Longrightarrow> decoded m pos (min_size es) (decode_fields es m pos 0)"
    and "0 < min_size es" and "pos \<le> length m"
    and "(if rep then length m - pos else unat val - j) < n"
  shows "decoded m pos 0 (decode_elems n rep es m pos j val)"
  using assms(3,4)
proof (induction n arbitrary: pos j)
  case 0
  then show ?case by simp
next
  case (Suc n)
  show ?case
  proof (cases "rep \<and> pos < length m \<or> \<not> rep \<and> j < unat val")
    case True
    have "decoded m pos (min_size es + 0) (bindo (decode_fields es m pos 0)
        (\<lambda>(p, xs). bindo (decode_elems n rep es m p (Suc j) val) (\<lambda>(p', xss). Ok (p', xs # xss))))"
    proof (rule decoded_bindo [OF assms(1) [OF Suc.prems(1)]])
      fix p xs
      assume "pos + min_size es \<le> p" and p: "p \<le> length m"
      with True Suc.prems(2) assms(2)
      have "(if rep then length m - p else unat val - Suc j) < n" by auto
      from Suc.IH [OF p this]
      show "decoded m p 0 (case (p, xs) of (p, xs) \<Rightarrow>
          bindo (decode_elems n rep es m p (Suc j) val) (\<lambda>(p', xss). Ok (p', xs # xss)))"
        by (cases "decode_elems n rep es m p (Suc j) val") auto
    qed
    with True show ?thesis by (auto elim: decoded_weaken)
  next
    case False
    with Suc.prems show ?thesis by auto
  qed
qed

lemma decode_fields_decoded:
  "safe_desc fs (unat val < 2 ^ 32) \<Longrightarrow> pos \<le> length m \<Longrightarrow> length m < 2 ^ 62
     \<Longrightarrow> decoded m pos (min_size fs) (decode_fields fs m pos val)"
proof (induction fs arbitrary: pos val rule: measure_induct_rule [of "size_list (size_prod (\<lambda>_. 0) size)"])
  case (less fs)
  show ?case
  proof (cases fs)
    case Nil
    with less.prems show ?thesis by simp
  next
    case (Cons f gs)
    obtain n k where f: "f = (n, k)" by (cases f)
    have IH: "safe_desc gs (unat v < 2 ^ 32) \<Longrightarrow> p \<le> length m \<Longrightarrow>
        decoded m p (min_size gs) (decode_fields gs m p v)" for p v
      using less.IH [of gs] less.prems(3) by (simp add: Cons)
    consider (uint) "k \<in> {Uint8, Uint16, Uint32, Uint64}"
      | (chunk) "k = GoString \<or> k = ByteSlice \<and> n \<noteq> ''Data''"
      | (rest) "k = ByteSlice" "n = ''Data''"
      | (structs) r es where "k = StructSlice r es"
      by (cases k) auto
    then show ?thesis
    proof cases
      case uint
      show ?thesis
        unfolding Cons f min_size_simps
      proof (rule decode_uint_safe [OF uint _ less.prems(2,3)])
        fix v :: u64
        assume v: "pos + sizeof k \<le> length m" "unat v < 256 ^ sizeof k"
        have "safe_desc gs (unat v < 2 ^ 32)"
          using less.prems(1) uint v(2) safe_desc_mono by (auto simp: Cons f)
        from this v(1)
        show "decoded m (pos + sizeof k) (min_size gs) (decode_fields gs m (pos + sizeof k) v)"
          by (rule IH)
      qed (use less.prems(1) uint in \<open>auto simp: Cons f\<close>)
    next
      case chunk
      then have "unat val < 2 ^ 32" and "safe_desc gs (unat val < 2 ^ 32)"
        using less.prems(1) by (auto simp: Cons f)
      with chunk less.prems(2,3) IH decode_chunk_safe [OF chunk, of val pos m gs] show ?thesis
        by (auto simp: Cons f)
    next
      case rest
      have w: "wrap_int (int pos) = int pos"
        using less.prems(2,3) by (subst wrap_int_id) auto
      have "safe_desc gs (unat val < 2 ^ 32)"
        using less.prems(1) rest by (simp add: Cons f)
      from IH [OF this, of "length m"]
      have "decoded m pos (min_size gs) (bindo (decode_fields gs m (length m) val)
          (\<lambda>(p, vs). Ok (p, VBytes (drop pos m) # vs)))"
        using less.prems(2) by (cases "decode_fields gs m (length m) val") auto
      with rest w less.prems(2) show ?thesis
        by (simp add: Cons f decode_fields.simps(2) field_size_def Let_def)
    next
      case structs
      have w: "wrap_int (int pos) = int pos"
        using less.prems(2,3) by (subst wrap_int_id) auto
      from less.prems(1) structs have es: "safe_desc es True" "0 < min_size es"
        and gs: "safe_desc gs (unat val < 2 ^ 32)" and n: "n \<noteq> ''Data''"
        by (auto simp: Cons f min_size_def)
      have es_ok: "decoded m p (min_size es) (decode_fields es m p 0)" if "p \<le> length m" for p
        using less.IH [of es 0 p] es that less.prems(3) structs by (simp add: Cons f)
      have "decoded m pos 0 (decode_elems (if r then Suc (length m) else Suc (unat val))
          r es m pos 0 val)"
        by (rule decode_elems_decoded [OF es_ok es(2) less.prems(2)]) auto
      then have "decoded m pos (0 + min_size gs) (bindo
          (decode_elems (if r then Suc (length m) else Suc (unat val)) r es m pos 0 val)
          (\<lambda>(p, xss). bindo (decode_fields gs m p val) (\<lambda>(p', vs). Ok (p', VStructs xss # vs))))"
      proof (rule decoded_bindo)
        fix p xss
        assume "p \<le> length m"
        from IH [OF gs this] show "decoded m p (min_size gs) (case (p, xss) of (p, xss) \<Rightarrow>
            bindo (decode_fields gs m p val) (\<lambda>(p', vs). Ok (p', VStructs xss # vs)))"
          by (cases "decode_fields gs m p val") auto
      qed
      with structs w n less.prems(2) show ?thesis
        by (simp add: Cons f decode_fields.simps(2) field_size_def Let_def)
    qed
  qed
qed

text \<open>
  Any bytes a peer sends decode to a value or to the error ``message too short''; and a
  message too short for the integers of its struct is never accepted.
\<close>

lemma decode_total:
  assumes "safe_desc fs True" and "length m < 2 ^ 62"
  shows "(\<exists>vs. decode fs m = Ok vs \<and> min_size fs \<le> length m) \<or> decode fs m = Err too_short"
  using decode_fields_decoded [of fs 0 0 m] assms
  by (cases "decode_fields fs m 0 0") (auto simp: decode_def)

lemma decode_short:
  assumes "safe_desc fs True" and "length m < 2 ^ 62" and "length m < min_size fs"
  shows "decode fs m = Err too_short"
  using decode_total [OF assms(1,2)] assms(3) by auto

section \<open>Decoding sets fields to values of their types\<close>

function has_type :: "gofield list \<Rightarrow> refl list \<Rightarrow> bool" where
  "has_type [] vs = (vs = [])"
| "has_type ((n, k) # fs) vs =
     (case vs of
        [] \<Rightarrow> False
      | v # vs' \<Rightarrow>
          (case v of
             VU8 _ \<Rightarrow> k = Uint8 | VU16 _ \<Rightarrow> k = Uint16 | VU32 _ \<Rightarrow> k = Uint32 | VU64 _ \<Rightarrow> k = Uint64
           | VStr _ \<Rightarrow> k = GoString | VBytes _ \<Rightarrow> k = ByteSlice
           | VStructs xss \<Rightarrow>
               (case k of StructSlice r es \<Rightarrow> (\<forall>xs\<in>set xss. has_type es xs) | _ \<Rightarrow> False))
          \<and> has_type fs vs')"
  by pat_completeness auto
termination
  by (relation "measure (\<lambda>(fs, _). size_list (size_prod (\<lambda>_. 0) size) fs)") auto

lemma decode_elems_typed:
  assumes "\<And>pos p xs. decode_fields es m pos 0 = Ok (p, xs) \<Longrightarrow> has_type es xs"
  shows "decode_elems n rep es m pos j val = Ok (p, xss) \<Longrightarrow> \<forall>xs\<in>set xss. has_type es xs"
  by (induction n arbitrary: pos j p xss)
    (auto simp: bindo_eq_Ok split: if_splits dest: assms)

lemma decode_fields_typed: "decode_fields fs m pos val = Ok (p, vs) \<Longrightarrow> has_type fs vs"
proof (induction fs arbitrary: pos val p vs rule: measure_induct_rule [of "size_list (size_prod (\<lambda>_. 0) size)"])
  case (less fs)
  show ?case
  proof (cases fs)
    case Nil
    with less.prems show ?thesis by simp
  next
    case (Cons f gs)
    obtain n k where f: "f = (n, k)" by (cases f)
    have IH: "decode_fields gs m q v = Ok (p', us) \<Longrightarrow> has_type gs us" for q v p' us
      using less.IH [of gs] by (simp add: Cons)
    show ?thesis
    proof (cases k)
      case (StructSlice r es)
      have "decode_fields es m q 0 = Ok (p', us) \<Longrightarrow> has_type es us" for q p' us
        using less.IH [of es] by (simp add: Cons f StructSlice)
      note es = decode_elems_typed [OF this]
      from less.prems obtain N q xss us where
        "decode_elems N r es m pos 0 val = Ok (q, xss)"
        "decode_fields gs m q val = Ok (p, us)" "vs = VStructs xss # us"
        by (auto simp: Cons f StructSlice decode_fields.simps(2) Let_def bindo_eq_Ok
            simp del: decode_elems.simps split: if_splits)
      with es IH show ?thesis
        by (simp add: Cons f StructSlice del: decode_elems.simps)
    qed (use less.prems in \<open>auto simp: Cons f decode_fields.simps(2) Let_def bindo_eq_Ok mk_uint_def
        split: if_splits option.splits dest: IH\<close>)
  qed
qed

lemma decode_has_type: "decode fs m = Ok vs \<Longrightarrow> has_type fs vs"
  by (auto simp: decode_def bindo_eq_Ok dest: decode_fields_typed)

end
