(* ===== verification/Messages.thy ===== *)
theory Messages
  imports Encoder
begin

text \<open>
  The messages of the protocol: each message struct of \<open>encoder.go\<close> as a record, its field
  types \<open>T_type\<close> as reflection sees them, and the two directions \<open>T_refl\<close> and \<open>T_of\<close>
  between the record and its field values. The lemmas are the round trips of each message
  and the safety of decoding it. \<open>decodeInitMessage\<close> and \<open>decodeAppendMessage\<close> of
  \<open>client.go\<close>, which accept both protocol versions, are here too.
\<close>

named_theorems msg_types \<open>field types and conversions of the messages\<close>

section \<open>Reading field values\<close>

text \<open>
  \<open>decode\<close> sets each field to a value of its own type (\<open>decode_has_type\<close> below), so that
  the last equations are never reached.
\<close>

fun get_u8 :: "refl \<Rightarrow> u8" where
  "get_u8 (VU8 x) = x"
| "get_u8 _ = 0"

fun get_u16 :: "refl \<Rightarrow> u16" where
  "get_u16 (VU16 x) = x"
| "get_u16 _ = 0"

fun get_u32 :: "refl \<Rightarrow> u32" where
  "get_u32 (VU32 x) = x"
| "get_u32 _ = 0"

fun get_u64 :: "refl \<Rightarrow> u64" where
  "get_u64 (VU64 x) = x"
| "get_u64 _ = 0"

fun get_str :: "refl \<Rightarrow> string" where
  "get_str (VStr s) = s"
| "get_str _ = []"

fun get_bytes :: "refl \<Rightarrow> bytes" where
  "get_bytes (VBytes b) = b"
| "get_bytes _ = []"

fun get_structs :: "refl \<Rightarrow> refl list list" where
  "get_structs (VStructs xss) = xss"
| "get_structs _ = []"

section \<open>The message structs\<close>

record initMessageV2 =
  im2_MessageType :: u8
  im2_More :: u8
  im2_ProtocolVersion :: u16
  im2_MaxMessageSize :: u32
  im2_CreationMode :: u8
  im2_Offset :: u64
  im2_DocIDLength :: u8
  im2_DocID :: string
  im2_Data :: bytes

definition initMessageV2_type :: "gofield list" where
  [msg_types]: "initMessageV2_type =
    [(''MessageType'', Uint8), (''More'', Uint8), (''ProtocolVersion'', Uint16),
     (''MaxMessageSize'', Uint32), (''CreationMode'', Uint8), (''Offset'', Uint64),
     (''DocIDLength'', Uint8), (''DocID'', GoString), (''Data'', ByteSlice)]"

definition initMessageV2_refl :: "initMessageV2 \<Rightarrow> refl list" where
  [msg_types]: "initMessageV2_refl m =
    [VU8 (im2_MessageType m), VU8 (im2_More m), VU16 (im2_ProtocolVersion m),
     VU32 (im2_MaxMessageSize m), VU8 (im2_CreationMode m), VU64 (im2_Offset m),
     VU8 (im2_DocIDLength m), VStr (im2_DocID m), VBytes (im2_Data m)]"

definition initMessageV2_of :: "refl list \<Rightarrow> initMessageV2" where
  [msg_types]: "initMessageV2_of vs =
    \<lparr>im2_MessageType = get_u8 (vs ! 0), im2_More = get_u8 (vs ! 1),
     im2_ProtocolVersion = get_u16 (vs ! 2), im2_MaxMessageSize = get_u32 (vs ! 3),
     im2_CreationMode = get_u8 (vs ! 4), im2_Offset = get_u64 (vs ! 5),
     im2_DocIDLength = get_u8 (vs ! 6), im2_DocID = get_str (vs ! 7),
     im2_Data = get_bytes (vs ! 8)\<rparr>"

record initMessage =
  im_MessageType :: u8
  im_More :: u8
  im_ProtocolVersion :: u16
  im_MaxMessageSize :: u32
  im_CreationMode :: u8
  im_Generation :: u32
  im_Offset :: u64
  im_DocIDLength :: u32
  im_DocID :: string
  im_Data :: bytes

definition initMessage_type :: "gofield list" where
  [msg_types]: "initMessage_type =
    [(''MessageType'', Uint8), (''More'', Uint8), (''ProtocolVersion'', Uint16),
     (''MaxMessageSize'', Uint32), (''CreationMode'', Uint8), (''Generation'', Uint32),
     (''Offset'', Uint64), (''DocIDLength'', Uint32), (''DocID'', GoString),
     (''Data'', ByteSlice)]"

definition initMessage_refl :: "initMessage \<Rightarrow> refl list" where
  [msg_types]: "initMessage_refl m =
    [VU8 (im_MessageType m), VU8 (im_More m), VU16 (im_ProtocolVersion m),
     VU32 (im_MaxMessageSize m), VU8 (im_CreationMode m), VU32 (im_Generation m),
     VU64 (im_Offset m), VU32 (im_DocIDLength m), VStr (im_DocID m), VBytes (im_Data m)]"

definition initMessage_of :: "refl list \<Rightarrow> initMessage" where
  [msg_types]: "initMessage_of vs =
    \<lparr>im_MessageType = get_u8 (vs ! 0), im_More = get_u8 (vs ! 1),
     im_ProtocolVersion = get_u16 (vs ! 2), im_MaxMessageSize = get_u32 (vs ! 3),
     im_CreationMode = get_u8 (vs ! 4), im_Generation = get_u32 (vs ! 5),
     im_Offset = get_u64 (vs ! 6), im_DocIDLength = get_u32 (vs ! 7),
     im_DocID = get_str (vs ! 8), im_Data = get_bytes (vs ! 9)\<rparr>"

record appendMessageV2 =
  ap2_MessageType :: u8
  ap2_More :: u8
  ap2_Offset :: u64
  ap2_Data :: bytes

definition appendMessageV2_type :: "gofield list" where
  [msg_types]: "appendMessageV2_type =
    [(''MessageType'', Uint8), (''More'', Uint8), (''Offset'', Uint64), (''Data'', ByteSlice)]"

definition appendMessageV2_refl :: "appendMessageV2 \<Rightarrow> refl list" where
  [msg_types]: "appendMessageV2_refl m =
    [VU8 (ap2_MessageType m), VU8 (ap2_More m), VU64 (ap2_Offset m), VBytes (ap2_Data m)]"

definition appendMessageV2_of :: "refl list \<Rightarrow> appendMessageV2" where
  [msg_types]: "appendMessageV2_of vs =
    \<lparr>ap2_MessageType = get_u8 (vs ! 0), ap2_More = get_u8 (vs ! 1),
     ap2_Offset = get_u64 (vs ! 2), ap2_Data = get_bytes (vs ! 3)\<rparr>"

record appendMessage =
  ap_MessageType :: u8
  ap_More :: u8
  ap_Generation :: u32
  ap_Offset :: u64
  ap_Data :: bytes

definition appendMessage_type :: "gofield list" where
  [msg_types]: "appendMessage_type =
    [(''MessageType'', Uint8), (''More'', Uint8), (''Generation'', Uint32),
     (''Offset'', Uint64), (''Data'', ByteSlice)]"

definition appendMessage_refl :: "appendMessage \<Rightarrow> refl list" where
  [msg_types]: "appendMessage_refl m =
    [VU8 (ap_MessageType m), VU8 (ap_More m), VU32 (ap_Generation m), VU64 (ap_Offset m),
     VBytes (ap_Data m)]"

definition appendMessage_of :: "refl list \<Rightarrow> appendMessage" where
  [msg_types]: "appendMessage_of vs =
    \<lparr>ap_MessageType = get_u8 (vs ! 0), ap_More = get_u8 (vs ! 1),
     ap_Generation = get_u32 (vs ! 2), ap_Offset = get_u64 (vs ! 3),
     ap_Data = get_bytes (vs ! 4)\<rparr>"

record setKeyMessage =
  sk_MessageType :: u8
  sk_More :: u8
  sk_RequestID :: u16
  sk_Lifetime :: u8
  sk_OldVersion :: u32
  sk_NewVersion :: u32
  sk_NameLength :: u32
  sk_Name :: string
  sk_ValueLength :: u32
  sk_Value :: string

definition setKeyMessage_type :: "gofield list" where
  [msg_types]: "setKeyMessage_type =
    [(''MessageType'', Uint8), (''More'', Uint8), (''RequestID'', Uint16),
     (''Lifetime'', Uint8), (''OldVersion'', Uint32), (''NewVersion'', Uint32),
     (''NameLength'', Uint32), (''Name'', GoString), (''ValueLength'', Uint32),
     (''Value'', GoString)]"

definition setKeyMessage_refl :: "setKeyMessage \<Rightarrow> refl list" where
  [msg_types]: "setKeyMessage_refl m =
    [VU8 (sk_MessageType m), VU8 (sk_More m), VU16 (sk_RequestID m), VU8 (sk_Lifetime m),
     VU32 (sk_OldVersion m), VU32 (sk_NewVersion m), VU32 (sk_NameLength m),
     VStr (sk_Name m), VU32 (sk_ValueLength m), VStr (sk_Value m)]"

definition setKeyMessage_of :: "refl list \<Rightarrow> setKeyMessage" where
  [msg_types]: "setKeyMessage_of vs =
    \<lparr>sk_MessageType = get_u8 (vs ! 0), sk_More = get_u8 (vs ! 1),
     sk_RequestID = get_u16 (vs ! 2), sk_Lifetime = get_u8 (vs ! 3),
     sk_OldVersion = get_u32 (vs ! 4), sk_NewVersion = get_u32 (vs ! 5),
     sk_NameLength = get_u32 (vs ! 6), sk_Name = get_str (vs ! 7),
     sk_ValueLength = get_u32 (vs ! 8), sk_Value = get_str (vs ! 9)\<rparr>"

record errorMessage =
  em_MessageType :: u8
  em_More :: u8
  em_ErrorCode :: u16
  em_Description :: string

definition errorMessage_type :: "gofield list" where
  [msg_types]: "errorMessage_type =
    [(''MessageType'', Uint8), (''More'', Uint8), (''ErrorCode'', Uint16),
     (''Description'', GoString)]"

definition errorMessage_refl :: "errorMessage \<Rightarrow> refl list" where
  [msg_types]: "errorMessage_refl m =
    [VU8 (em_MessageType m), VU8 (em_More m), VU16 (em_ErrorCode m), VStr (em_Description m)]"

definition errorMessage_of :: "refl list \<Rightarrow> errorMessage" where
  [msg_types]: "errorMessage_of vs =
    \<lparr>em_MessageType = get_u8 (vs ! 0), em_More = get_u8 (vs ! 1),
     em_ErrorCode = get_u16 (vs ! 2), em_Description = get_str (vs ! 3)\<rparr>"

record ackNackMessage =
  an_MessageType :: u8
  an_More :: u8
  an_Ack :: u16
  an_Offset :: u64

definition ackNackMessage_type :: "gofield list" where
  [msg_types]: "ackNackMessage_type =
    [(''MessageType'', Uint8), (''More'', Uint8), (''Ack'', Uint16), (''Offset'', Uint64)]"

definition ackNackMessage_refl :: "ackNackMessage \<Rightarrow> refl list" where
  [msg_types]: "ackNackMessage_refl m =
    [VU8 (an_MessageType m), VU8 (an_More m), VU16 (an_Ack m), VU64 (an_Offset m)]"

definition ackNackMessage_of :: "refl list \<Rightarrow> ackNackMessage" where
  [msg_types]: "ackNackMessage_of vs =
    \<lparr>an_MessageType = get_u8 (vs ! 0), an_More = get_u8 (vs ! 1), an_Ack = get_u16 (vs ! 2),
     an_Offset = get_u64 (vs ! 3)\<rparr>"

record setKeyAckNackMessage =
  ska_MessageType :: u8
  ska_More :: u8
  ska_Ack :: u16
  ska_RequestID :: u16

definition setKeyAckNackMessage_type :: "gofield list" where
  [msg_types]: "setKeyAckNackMessage_type =
    [(''MessageType'', Uint8), (''More'', Uint8), (''Ack'', Uint16), (''RequestID'', Uint16)]"

definition setKeyAckNackMessage_refl :: "setKeyAckNackMessage \<Rightarrow> refl list" where
  [msg_types]: "setKeyAckNackMessage_refl m =
    [VU8 (ska_MessageType m), VU8 (ska_More m), VU16 (ska_Ack m), VU16 (ska_RequestID m)]"

definition setKeyAckNackMessage_of :: "refl list \<Rightarrow> setKeyAckNackMessage" where
  [msg_types]: "setKeyAckNackMessage_of vs =
    \<lparr>ska_MessageType = get_u8 (vs ! 0), ska_More = get_u8 (vs ! 1),
     ska_Ack = get_u16 (vs ! 2), ska_RequestID = get_u16 (vs ! 3)\<rparr>"

record keyInformation =
  ki_Version :: u32
  ki_NameLength :: u32
  ki_Name :: string
  ki_ValueLength :: u32
  ki_Value :: string

definition keyInformation_type :: "gofield list" where
  [msg_types]: "keyInformation_type =
    [(''Version'', Uint32), (''NameLength'', Uint32), (''Name'', GoString),
     (''ValueLength'', Uint32), (''Value'', GoString)]"

definition keyInformation_refl :: "keyInformation \<Rightarrow> refl list" where
  [msg_types]: "keyInformation_refl m =
    [VU32 (ki_Version m), VU32 (ki_NameLength m), VStr (ki_Name m), VU32 (ki_ValueLength m),
     VStr (ki_Value m)]"

definition keyInformation_of :: "refl list \<Rightarrow> keyInformation" where
  [msg_types]: "keyInformation_of vs =
    \<lparr>ki_Version = get_u32 (vs ! 0), ki_NameLength = get_u32 (vs ! 1),
     ki_Name = get_str (vs ! 2), ki_ValueLength = get_u32 (vs ! 3),
     ki_Value = get_str (vs ! 4)\<rparr>"

record keyInformationMessage =
  kim_MessageType :: u8
  kim_More :: u8
  kim_Keys :: "keyInformation list"

definition keyInformationMessage_type :: "gofield list" where
  [msg_types]: "keyInformationMessage_type =
    [(''MessageType'', Uint8), (''More'', Uint8),
     (''Keys'', StructSlice True keyInformation_type)]"

definition keyInformationMessage_refl :: "keyInformationMessage \<Rightarrow> refl list" where
  [msg_types]: "keyInformationMessage_refl m =
    [VU8 (kim_MessageType m), VU8 (kim_More m),
     VStructs (map keyInformation_refl (kim_Keys m))]"

definition keyInformationMessage_of :: "refl list \<Rightarrow> keyInformationMessage" where
  [msg_types]: "keyInformationMessage_of vs =
    \<lparr>kim_MessageType = get_u8 (vs ! 0), kim_More = get_u8 (vs ! 1),
     kim_Keys = map keyInformation_of (get_structs (vs ! 2))\<rparr>"

record broadcastMessage =
  bm_MessageType :: u8
  bm_More :: u8
  bm_DataLength :: u32
  bm_Data :: bytes

definition broadcastMessage_type :: "gofield list" where
  [msg_types]: "broadcastMessage_type =
    [(''MessageType'', Uint8), (''More'', Uint8), (''DataLength'', Uint32),
     (''Data'', ByteSlice)]"

definition broadcastMessage_refl :: "broadcastMessage \<Rightarrow> refl list" where
  [msg_types]: "broadcastMessage_refl m =
    [VU8 (bm_MessageType m), VU8 (bm_More m), VU32 (bm_DataLength m), VBytes (bm_Data m)]"

definition broadcastMessage_of :: "refl list \<Rightarrow> broadcastMessage" where
  [msg_types]: "broadcastMessage_of vs =
    \<lparr>bm_MessageType = get_u8 (vs ! 0), bm_More = get_u8 (vs ! 1),
     bm_DataLength = get_u32 (vs ! 2), bm_Data = get_bytes (vs ! 3)\<rparr>"


section \<open>Decoding into a struct\<close>

definition decode_initMessageV2 :: "bytes \<Rightarrow> initMessageV2 outcome" where
  "decode_initMessageV2 m = bindo (decode initMessageV2_type m) (\<lambda>vs. Ok (initMessageV2_of vs))"

definition decode_initMessage :: "bytes \<Rightarrow> initMessage outcome" where
  "decode_initMessage m = bindo (decode initMessage_type m) (\<lambda>vs. Ok (initMessage_of vs))"

definition decode_appendMessageV2 :: "bytes \<Rightarrow> appendMessageV2 outcome" where
  "decode_appendMessageV2 m =
     bindo (decode appendMessageV2_type m) (\<lambda>vs. Ok (appendMessageV2_of vs))"

definition decode_appendMessage :: "bytes \<Rightarrow> appendMessage outcome" where
  "decode_appendMessage m = bindo (decode appendMessage_type m) (\<lambda>vs. Ok (appendMessage_of vs))"

definition decode_setKeyMessage :: "bytes \<Rightarrow> setKeyMessage outcome" where
  "decode_setKeyMessage m = bindo (decode setKeyMessage_type m) (\<lambda>vs. Ok (setKeyMessage_of vs))"

definition decode_broadcastMessage :: "bytes \<Rightarrow> broadcastMessage outcome" where
  "decode_broadcastMessage m =
     bindo (decode broadcastMessage_type m) (\<lambda>vs. Ok (broadcastMessage_of vs))"

definition decode_ackNackMessage :: "bytes \<Rightarrow> ackNackMessage outcome" where
  "decode_ackNackMessage m =
     bindo (decode ackNackMessage_type m) (\<lambda>vs. Ok (ackNackMessage_of vs))"

definition decode_keyInformationMessage :: "bytes \<Rightarrow> keyInformationMessage outcome" where
  "decode_keyInformationMessage m =
     bindo (decode keyInformationMessage_type m) (\<lambda>vs. Ok (keyInformationMessage_of vs))"

text \<open>\<open>decodeInitMessage\<close>: both versions of the init message into the struct of version 3.\<close>

definition init_of_V2 :: "initMessageV2 \<Rightarrow> initMessage" where
  "init_of_V2 m2 =
     \<lparr>im_MessageType = im2_MessageType m2, im_More = im2_More m2,
      im_ProtocolVersion = im2_ProtocolVersion m2, im_MaxMessageSize = im2_MaxMessageSize m2,
      im_CreationMode = im2_CreationMode m2, im_Generation = 0, im_Offset = im2_Offset m2,
      im_DocIDLength = ucast (im2_DocIDLength m2), im_DocID = im2_DocID m2,
      im_Data = im2_Data m2\<rparr>"

definition decodeInitMessage :: "bytes \<Rightarrow> initMessage outcome" where
  "decodeInitMessage data =
     (if length data > 4 \<and> data ! 0 = initMessageType \<and> data ! 2 = 0 \<and> data ! 3 = 2
      then bindo (decode_initMessageV2 data) (\<lambda>m2. Ok (init_of_V2 m2))
      else decode_initMessage data)"

text \<open>
  \<open>decodeAppendMessage\<close>: \<open>data[0]\<close> is read before anything else. The generation of a
  version 2 message stays at the zero value of the target.
\<close>

definition append_of_V2 :: "appendMessageV2 \<Rightarrow> appendMessage" where
  "append_of_V2 m2 =
     \<lparr>ap_MessageType = ap2_MessageType m2, ap_More = ap2_More m2, ap_Generation = 0,
      ap_Offset = ap2_Offset m2, ap_Data = ap2_Data m2\<rparr>"

definition decodeAppendMessage :: "bytes \<Rightarrow> appendMessage outcome" where
  "decodeAppendMessage data =
     (if data = [] then Panic
      else if data ! 0 = appendV2MessageType
      then bindo (decode_appendMessageV2 data) (\<lambda>m2. Ok (append_of_V2 m2))
      else decode_appendMessage data)"

section \<open>Round trips\<close>

text \<open>
  A message round-trips when its length fields are the lengths of its strings. The bound
  on the size is the range of Go's \<open>int\<close>.
\<close>

lemma of_refl [simp]:
  "initMessageV2_of (initMessageV2_refl m1) = m1"
  "initMessage_of (initMessage_refl m2) = m2"
  "appendMessageV2_of (appendMessageV2_refl m3) = m3"
  "appendMessage_of (appendMessage_refl m4) = m4"
  "setKeyMessage_of (setKeyMessage_refl m5) = m5"
  "ackNackMessage_of (ackNackMessage_refl m6) = m6"
  "keyInformation_of (keyInformation_refl m7) = m7"
  "broadcastMessage_of (broadcastMessage_refl m8) = m8"
  "setKeyAckNackMessage_of (setKeyAckNackMessage_refl m9) = m9"
  "errorMessage_of (errorMessage_refl m10) = m10"
  by (simp_all add: msg_types)

lemma keyInformationMessage_of_refl [simp]:
  "keyInformationMessage_of (keyInformationMessage_refl m) = m"
  by (simp add: keyInformationMessage_of_def keyInformationMessage_refl_def comp_def)

lemma initMessageV2_roundtrip:
  assumes "unat (im2_DocIDLength m) = length (im2_DocID m)"
    and "length (encode [] (initMessageV2_refl m)) < 2 ^ 63"
  shows "decode_initMessageV2 (encode [] (initMessageV2_refl m)) = Ok m"
  using decode_Data [of "butlast initMessageV2_type" "butlast (initMessageV2_refl m)" "im2_Data m"]
    assms of_refl(1) [of m]
  by (simp add: decode_initMessageV2_def msg_types fits_def encode_enc)

lemma initMessage_roundtrip:
  assumes "unat (im_DocIDLength m) = length (im_DocID m)"
    and "length (encode [] (initMessage_refl m)) < 2 ^ 63"
  shows "decode_initMessage (encode [] (initMessage_refl m)) = Ok m"
  using decode_Data [of "butlast initMessage_type" "butlast (initMessage_refl m)" "im_Data m"]
    assms of_refl(2) [of m]
  by (simp add: decode_initMessage_def msg_types fits_def encode_enc)

lemma appendMessageV2_roundtrip:
  assumes "length (encode [] (appendMessageV2_refl m)) < 2 ^ 63"
  shows "decode_appendMessageV2 (encode [] (appendMessageV2_refl m)) = Ok m"
  using decode_Data [of "butlast appendMessageV2_type" "butlast (appendMessageV2_refl m)" "ap2_Data m"]
    assms of_refl(3) [of m]
  by (simp add: decode_appendMessageV2_def msg_types fits_def encode_enc)

lemma appendMessage_roundtrip:
  assumes "length (encode [] (appendMessage_refl m)) < 2 ^ 63"
  shows "decode_appendMessage (encode [] (appendMessage_refl m)) = Ok m"
  using decode_Data [of "butlast appendMessage_type" "butlast (appendMessage_refl m)" "ap_Data m"]
    assms of_refl(4) [of m]
  by (simp add: decode_appendMessage_def msg_types fits_def encode_enc)

lemma broadcastMessage_roundtrip:
  assumes "length (encode [] (broadcastMessage_refl m)) < 2 ^ 63"
  shows "decode_broadcastMessage (encode [] (broadcastMessage_refl m)) = Ok m"
  using decode_Data [of "butlast broadcastMessage_type" "butlast (broadcastMessage_refl m)" "bm_Data m"]
    assms of_refl(8) [of m]
  by (simp add: decode_broadcastMessage_def msg_types fits_def encode_enc)

lemma setKeyMessage_roundtrip:
  assumes "unat (sk_NameLength m) = length (sk_Name m)"
    and "unat (sk_ValueLength m) = length (sk_Value m)"
    and "length (encode [] (setKeyMessage_refl m)) < 2 ^ 63"
  shows "decode_setKeyMessage (encode [] (setKeyMessage_refl m)) = Ok m"
  using decode_flat [of setKeyMessage_type "setKeyMessage_refl m"] assms of_refl(5) [of m]
  by (simp add: decode_setKeyMessage_def msg_types fits_def encode_enc)

lemma ackNackMessage_roundtrip:
  "decode_ackNackMessage (encode [] (ackNackMessage_refl m)) = Ok m"
  using decode_flat [of ackNackMessage_type "ackNackMessage_refl m"] of_refl(6) [of m]
  by (simp add: decode_ackNackMessage_def msg_types fits_def encode_enc)

definition keyInformation_wf :: "keyInformation \<Rightarrow> bool" where
  "keyInformation_wf k \<longleftrightarrow> unat (ki_NameLength k) = length (ki_Name k)
     \<and> unat (ki_ValueLength k) = length (ki_Value k)"

lemma keyInformationMessage_roundtrip:
  assumes "\<forall>k\<in>set (kim_Keys m). keyInformation_wf k"
    and "length (encode [] (keyInformationMessage_refl m)) < 2 ^ 63"
  shows "decode_keyInformationMessage (encode [] (keyInformationMessage_refl m)) = Ok m"
proof -
  have "wf_flat keyInformation_type 0 xs \<and> enc xs \<noteq> []"
    if xs: "xs \<in> set (map keyInformation_refl (kim_Keys m))" for xs
  proof -
    from xs obtain k where k: "k \<in> set (kim_Keys m)" and xs: "xs = keyInformation_refl k"
      by auto
    from k assms(1) have "keyInformation_wf k" by blast
    then show ?thesis
      by (simp add: keyInformation_wf_def xs keyInformation_type_def keyInformation_refl_def
          fits_def)
        (metis length_0_conv length_be_bytes zero_neq_numeral)
  qed
  then have "decode keyInformationMessage_type (encode [] (keyInformationMessage_refl m))
      = Ok (keyInformationMessage_refl m)"
    using decode_repeat [of "[(''MessageType'', Uint8), (''More'', Uint8)]"
        "[VU8 (kim_MessageType m), VU8 (kim_More m)]" "map keyInformation_refl (kim_Keys m)"
        keyInformation_type "''Keys''"] assms(2)
    by (simp add: keyInformationMessage_type_def keyInformationMessage_refl_def fits_def encode_enc)
  then show ?thesis
    by (simp add: decode_keyInformationMessage_def)
qed

text \<open>The client's dispatch on the protocol version of an init message.\<close>

lemma be_bytes_numeral [simp]:
  "be_bytes 2 v = [ucast (drop_bit 8 v), ucast v]"
  by (simp add: numeral_2_eq_2)

lemma decodeInitMessage_V2:
  assumes "im2_MessageType m = initMessageType" and "im2_ProtocolVersion m = 2"
    and "unat (im2_DocIDLength m) = length (im2_DocID m)"
    and "length (encode [] (initMessageV2_refl m)) < 2 ^ 63"
  shows "decodeInitMessage (encode [] (initMessageV2_refl m)) = Ok (init_of_V2 m)"
  using initMessageV2_roundtrip [OF assms(3,4)] assms(1,2)
  by (simp add: decodeInitMessage_def encode_enc initMessageV2_refl_def go_defs)

lemma decodeInitMessage_V3:
  assumes "im_ProtocolVersion m = 3"
    and "unat (im_DocIDLength m) = length (im_DocID m)"
    and "length (encode [] (initMessage_refl m)) < 2 ^ 63"
  shows "decodeInitMessage (encode [] (initMessage_refl m)) = Ok m"
  using initMessage_roundtrip [OF assms(2,3)] assms(1)
  by (simp add: decodeInitMessage_def encode_enc initMessage_refl_def)

lemma decodeAppendMessage_V2:
  assumes "ap2_MessageType m = appendV2MessageType"
    and "length (encode [] (appendMessageV2_refl m)) < 2 ^ 63"
  shows "decodeAppendMessage (encode [] (appendMessageV2_refl m)) = Ok (append_of_V2 m)"
  using appendMessageV2_roundtrip [OF assms(2)] assms(1)
  by (simp add: decodeAppendMessage_def encode_enc appendMessageV2_refl_def go_defs)

lemma decodeAppendMessage_V3:
  assumes "ap_MessageType m = appendMessageType"
    and "length (encode [] (appendMessage_refl m)) < 2 ^ 63"
  shows "decodeAppendMessage (encode [] (appendMessage_refl m)) = Ok m"
  using appendMessage_roundtrip [OF assms(2)] assms(1)
  by (simp add: decodeAppendMessage_def encode_enc appendMessage_refl_def go_defs)

section \<open>Safety\<close>

lemmas client_types = initMessageV2_type_def initMessage_type_def appendMessageV2_type_def
  appendMessage_type_def setKeyMessage_type_def broadcastMessage_type_def
  keyInformationMessage_type_def keyInformation_type_def ackNackMessage_type_def

lemma client_types_safe:
  "safe_desc initMessageV2_type True" "safe_desc initMessage_type True"
  "safe_desc appendMessageV2_type True" "safe_desc appendMessage_type True"
  "safe_desc setKeyMessage_type True" "safe_desc broadcastMessage_type True"
  "safe_desc ackNackMessage_type True" "safe_desc keyInformationMessage_type True"
  by (simp_all add: client_types)

lemma safe_bindo_decode: "safe_desc fs True \<Longrightarrow> length m < 2 ^ 62 \<Longrightarrow> safe (bindo (decode fs m) (\<lambda>vs. Ok (f vs)))"
  using decode_total [of fs m] by auto

lemma decode_initMessage_safe: "length m < 2 ^ 62 \<Longrightarrow> safe (decode_initMessage m)"
  unfolding decode_initMessage_def by (rule safe_bindo_decode [OF client_types_safe(2)])

lemma decodeInitMessage_safe:
  assumes "length data < 2 ^ 62"
  shows "safe (decodeInitMessage data)"
proof -
  have "safe (decode_initMessageV2 data)"
    unfolding decode_initMessageV2_def by (rule safe_bindo_decode [OF client_types_safe(1) assms])
  then have "safe (bindo (decode_initMessageV2 data) (\<lambda>m2. Ok (init_of_V2 m2)))"
    by (rule safe_bindo) simp
  with decode_initMessage_safe [OF assms] show ?thesis
    by (simp add: decodeInitMessage_def)
qed

lemma decodeAppendMessage_safe:
  assumes "length data < 2 ^ 62" and "data \<noteq> []"
  shows "safe (decodeAppendMessage data)"
proof -
  have "safe (decode_appendMessageV2 data)"
    unfolding decode_appendMessageV2_def by (rule safe_bindo_decode [OF client_types_safe(3) assms(1)])
  then have "safe (bindo (decode_appendMessageV2 data) (\<lambda>m2. Ok (append_of_V2 m2)))"
    by (rule safe_bindo) simp
  moreover have "safe (decode_appendMessage data)"
    unfolding decode_appendMessage_def by (rule safe_bindo_decode [OF client_types_safe(4) assms(1)])
  ultimately show ?thesis
    using assms(2) by (simp add: decodeAppendMessage_def)
qed

lemma decode_setKeyMessage_safe: "length m < 2 ^ 62 \<Longrightarrow> safe (decode_setKeyMessage m)"
  unfolding decode_setKeyMessage_def by (rule safe_bindo_decode [OF client_types_safe(5)])

lemma decode_broadcastMessage_safe: "length m < 2 ^ 62 \<Longrightarrow> safe (decode_broadcastMessage m)"
  unfolding decode_broadcastMessage_def by (rule safe_bindo_decode [OF client_types_safe(6)])

end
