(* ===== verification/Framing.thy ===== *)
theory Framing
  imports Messages
begin

text \<open>
  Messages on the websocket: \<open>sendMessage\<close> and \<open>readMessage\<close> of \<open>client.go\<close>. A message
  longer than the receiver's maximum is cut into a first frame, whose second byte (``more'')
  is 1, and continuation frames \<open>0xff, more, data\<close>. The lemmas: for a maximum of at least
  3 bytes the sender returns, no frame exceeds the maximum, and the reader puts the message
  together again; for a maximum of 2 bytes the sender never returns, and for 1 it panics.
\<close>

section \<open>Sending\<close>

text \<open>
  The websocket library is the parameter \<open>nw\<close>: \<open>nw k\<close> says whether its \<open>k\<close>-th call of
  \<open>NextWriter\<close> for this message succeeds; the code panics when it does not. The result
  is the list of frames given to the library and how the call ends. \<open>None\<close> is a call that
  never returns.
\<close>

partial_function (option) send_rest ::
    "(nat \<Rightarrow> bool) \<Rightarrow> nat \<Rightarrow> bytes list \<Rightarrow> bytes \<Rightarrow> int \<Rightarrow> (bytes list \<times> unit outcome) option"
where
  "send_rest nw k frames data maxSize =
     (if data = [] then Some (frames, Ok ())
      else if \<not> nw k then Some (frames, Panic)
      else
        let send = (if int (length data) > maxSize - 2 then maxSize - 2 else int (length data));
            more = (if int (length data) > maxSize - 2 then 1 else 0)
        in if send < 0 then Some (frames, Panic)
           else send_rest nw (Suc k)
                  (frames @ [[continuationMessageType, more] @ take (nat send) data])
                  (drop (nat send) data) maxSize)"

definition sendMessage ::
    "(nat \<Rightarrow> bool) \<Rightarrow> bytes \<Rightarrow> int \<Rightarrow> (bytes list \<times> unit outcome) option" where
  "sendMessage nw data maxSize =
     (if length data < 2 then Some ([], Panic)
      else
        let send = (if int (length data) > maxSize then maxSize else int (length data));
            data' = data[1 := (if int (length data) > maxSize then 1 else 0)]
        in if send < 0 then Some ([], Panic)
           else send_rest nw 0 [take (nat send) data'] (drop (nat send) data') maxSize)"

section \<open>Receiving\<close>

text \<open>
  The frames that the library will deliver are a list; its end is an error of
  \<open>conn.ReadMessage\<close> (a closed connection, a deadline). The result is the message and the
  frames not yet read.
\<close>

definition read_error :: goerror where
  "read_error = OtherError ''read''"

fun readMessage_loop :: "bytes option \<Rightarrow> bytes list \<Rightarrow> (bytes \<times> bytes list) outcome" where
  "readMessage_loop buffer [] = Err read_error"
| "readMessage_loop buffer (p # ps) =
     (if length p < 2 then Panic
      else
        case (case buffer of
                None \<Rightarrow> Some p
              | Some b \<Rightarrow> if p ! 0 = continuationMessageType then Some (b @ drop 2 p) else None) of
          None \<Rightarrow> Panic
        | Some b' \<Rightarrow> if p ! 1 = 0 then Ok (b', ps) else readMessage_loop (Some b') ps)"

definition readMessage :: "bytes list \<Rightarrow> (bytes \<times> bytes list) outcome" where
  "readMessage frames = readMessage_loop None frames"

section \<open>The sender returns\<close>

text \<open>The continuation frames of \<open>data\<close>, as a function of it alone.\<close>

function chunks :: "nat \<Rightarrow> bytes \<Rightarrow> bytes list" where
  "chunks n data =
     (if data = [] \<or> n = 0 then []
      else if n < length data
      then ([continuationMessageType, 1] @ take n data) # chunks n (drop n data)
      else [[continuationMessageType, 0] @ data])"
  by pat_completeness auto
termination
  by (relation "measure (\<lambda>(n, data). length data)") auto

declare chunks.simps [simp del]

text \<open>
  Whatever the library does, the loop returns, after all the chunks or in a panic after
  some of them; it panics only if a call of \<open>NextWriter\<close> fails.
\<close>

definition sent_prefix :: "(nat \<Rightarrow> bool) \<Rightarrow> bytes list \<Rightarrow> (bytes list \<times> unit outcome) option \<Rightarrow> bool" where
  "sent_prefix nw all r \<longleftrightarrow>
     r = Some (all, Ok ()) \<or> (\<exists>m. r = Some (take m all, Panic) \<and> \<not> (\<forall>j. nw j))"

lemma send_rest_chunks:
  "0 < n \<Longrightarrow> sent_prefix nw (frames @ chunks n data) (send_rest nw k frames data (int n + 2))"
proof (induction n data arbitrary: k frames rule: chunks.induct)
  case (1 n data)
  show ?case
  proof (cases "data = [] \<or> \<not> nw k")
    case True
    then show ?thesis
      by (subst send_rest.simps, subst chunks.simps)
        (auto simp: sent_prefix_def intro: exI [of _ "length frames"])
  next
    case False
    show ?thesis
    proof (cases "n < length data")
      case True
      with False "1.prems" have "sent_prefix nw
          ((frames @ [[continuationMessageType, 1] @ take n data]) @ chunks n (drop n data))
          (send_rest nw (Suc k) (frames @ [[continuationMessageType, 1] @ take n data])
             (drop n data) (int n + 2))"
        by (intro "1.IH") auto
      with True False "1.prems" show ?thesis
        by (subst send_rest.simps, subst chunks.simps) (simp add: Let_def)
    next
      case le: False
      have "send_rest nw (Suc k) fs [] (int n + 2) = Some (fs, Ok ())" for fs
        by (simp add: send_rest.simps)
      with False le "1.prems" show ?thesis
        by (subst send_rest.simps, subst chunks.simps) (simp add: Let_def sent_prefix_def)
    qed
  qed
qed

text \<open>The frames of a message: one, or a first frame and the chunks of the rest.\<close>

definition more_flag :: "bytes \<Rightarrow> int \<Rightarrow> byte" where
  "more_flag data maxSize = (if int (length data) > maxSize then 1 else 0)"

definition all_frames :: "bytes \<Rightarrow> int \<Rightarrow> bytes list" where
  "all_frames data maxSize =
     (let data' = data[1 := more_flag data maxSize]
      in take (nat maxSize) data' # chunks (nat (maxSize - 2)) (drop (nat maxSize) data'))"

lemma sendMessage_frames:
  assumes "3 \<le> maxSize" and "2 \<le> length data"
  shows "sent_prefix nw (all_frames data maxSize) (sendMessage nw data maxSize)"
proof -
  define n where "n = nat (maxSize - 2)"
  with assms(1) have n: "0 < n" "maxSize = int n + 2" by auto
  define data' where "data' = data[1 := more_flag data maxSize]"
  have "sendMessage nw data maxSize
      = send_rest nw 0 [take (nat maxSize) data'] (drop (nat maxSize) data') maxSize"
    using assms by (auto simp: sendMessage_def Let_def data'_def more_flag_def)
  with send_rest_chunks [OF n(1), of nw "[take (nat maxSize) data']" "drop (nat maxSize) data'" 0]
  show ?thesis
    unfolding all_frames_def Let_def data'_def [symmetric] n_def [symmetric]
    by (simp add: n(2))
qed

lemma sendMessage_all_frames:
  "3 \<le> maxSize \<Longrightarrow> 2 \<le> length data \<Longrightarrow> sendMessage (\<lambda>_. True) data maxSize = Some (all_frames data maxSize, Ok ())"
  using sendMessage_frames [of maxSize data "\<lambda>_. True"] by (simp add: sent_prefix_def)

section \<open>Frame sizes\<close>

lemma chunks_length: "0 < n \<Longrightarrow> \<forall>f\<in>set (chunks n data). 3 \<le> length f \<and> length f \<le> n + 2"
proof (induction n data rule: chunks.induct)
  case (1 n data)
  then show ?case
    by (subst chunks.simps) (auto simp: Suc_le_eq min_def)
qed

section \<open>The reader joins what the sender cut\<close>

lemma chunks_ne: "data \<noteq> [] \<Longrightarrow> 0 < n \<Longrightarrow> chunks n data \<noteq> []"
  by (subst chunks.simps) auto

lemma readMessage_chunks:
  "data \<noteq> [] \<Longrightarrow> 0 < n \<Longrightarrow>
   readMessage_loop (Some b) (chunks n data @ rest) = Ok (b @ data, rest)"
proof (induction n data arbitrary: b rule: chunks.induct)
  case (1 n data)
  show ?case
  proof (cases "n < length data")
    case True
    with "1.prems" have "readMessage_loop (Some (b @ take n data)) (chunks n (drop n data) @ rest)
        = Ok ((b @ take n data) @ drop n data, rest)"
      by (intro "1.IH") auto
    with True "1.prems" show ?thesis by (subst chunks.simps) simp
  next
    case False
    with "1.prems" show ?thesis by (subst chunks.simps) simp
  qed
qed

lemma all_frames_length:
  assumes "3 \<le> maxSize" and "2 \<le> length data" and "f \<in> set (all_frames data maxSize)"
  shows "2 \<le> length f \<and> int (length f) \<le> maxSize"
proof -
  have n: "0 < nat (maxSize - 2)" using assms(1) by simp
  from assms(3) consider (first) "f = take (nat maxSize) (data[1 := more_flag data maxSize])"
    | (cont) "f \<in> set (chunks (nat (maxSize - 2)) (drop (nat maxSize) (data[1 := more_flag data maxSize])))"
    by (auto simp: all_frames_def Let_def)
  then show ?thesis
  proof cases
    case first
    with assms(1,2) show ?thesis by auto
  next
    case cont
    with chunks_length [OF n] assms(1) show ?thesis by fastforce
  qed
qed

lemma readMessage_all_frames:
  assumes "3 \<le> maxSize" and "2 \<le> length data"
  shows "readMessage (all_frames data maxSize @ rest) = Ok (data[1 := more_flag data maxSize], rest)"
proof (cases "int (length data) > maxSize")
  case True
  define d where "d = data[1 := more_flag data maxSize]"
  have d: "length d = length data" "d ! 1 = 1"
    using True assms(2) by (simp_all add: d_def more_flag_def)
  have "drop (nat maxSize) d \<noteq> []" and "0 < nat (maxSize - 2)"
    using True assms(1) d(1) by simp_all
  then have "readMessage_loop (Some (take (nat maxSize) d))
      (chunks (nat (maxSize - 2)) (drop (nat maxSize) d) @ rest) = Ok (d, rest)"
    by (subst readMessage_chunks) simp_all
  moreover have "take (nat maxSize) d ! 1 = 1" "\<not> length (take (nat maxSize) d) < 2"
    using True assms d by simp_all
  ultimately show ?thesis
    unfolding readMessage_def all_frames_def Let_def d_def [symmetric] by simp
next
  case False
  then have "length data \<le> nat maxSize" by simp
  with False assms show ?thesis
    by (simp add: readMessage_def all_frames_def Let_def chunks.simps more_flag_def)
qed

section \<open>Maximum sizes that cannot work\<close>

text \<open>
  A client sets the maximum size freely, with any nonzero value of the init message. With
  a maximum of 2 the loop writes empty continuation frames and never shortens the data.
\<close>

lemma send_rest_two:
  assumes "\<And>j. nw j" and "data \<noteq> []"
  shows "send_rest nw k frames data 2 = None"
proof (rule ccontr)
  assume "send_rest nw k frames data 2 \<noteq> None"
  then obtain r where r: "send_rest nw k frames data 2 = Some r" by auto
  have "data \<noteq> [] \<and> (2::int) = 2 \<and> (\<forall>j. nw j) \<longrightarrow> False"
  proof (rule send_rest.raw_induct
      [where P = "\<lambda>nw k frames data maxSize r. data \<noteq> [] \<and> maxSize = 2 \<and> (\<forall>j. nw j) \<longrightarrow> False",
       OF _ r])
    fix rec nw k frames data maxSize r
    assume IH: "\<And>nw k frames data maxSize r. rec nw k frames data maxSize = Some r \<Longrightarrow>
        data \<noteq> [] \<and> maxSize = 2 \<and> (\<forall>j. nw j) \<longrightarrow> False"
      and eq: "(if data = [] then Some (frames, Ok ())
        else if \<not> nw k then Some (frames, Panic)
        else let send = (if int (length data) > maxSize - 2 then maxSize - 2 else int (length data));
                 more = (if int (length data) > maxSize - 2 then 1 else 0)
             in if send < 0 then Some (frames, Panic)
                else rec nw (Suc k)
                  (frames @ [[continuationMessageType, more] @ take (nat send) data])
                  (drop (nat send) data) maxSize) = Some r"
    show "data \<noteq> [] \<and> maxSize = 2 \<and> (\<forall>j. nw j) \<longrightarrow> False"
    proof
      assume *: "data \<noteq> [] \<and> maxSize = 2 \<and> (\<forall>j. nw j)"
      with eq have "rec nw (Suc k) (frames @ [[continuationMessageType, 1]]) data maxSize = Some r"
        by simp
      from IH [OF this] * show False by simp
    qed
  qed
  with assms show False by simp
qed

end
