(* ===== verification/DocumentDB.thy ===== *)
theory DocumentDB
  imports Prelude
begin

text \<open>
  The interface \<open>DocumentDB\<close> of \<open>socket.go\<close>, through which the server reaches the stored
  documents, keys and tokens: the record of its operations, the specification of its
  operations on documents, and the locales of the laws that the comments of the interface
  promise for them: \<open>document_reads\<close> for \<open>GetDocument\<close>, \<open>document_appends\<close> for
  \<open>AppendDocument\<close> too, \<open>document_contents\<close> for all operations on documents, and
  \<open>document_store\<close>, on which the client's handlers rely.
\<close>

section \<open>Keys and creation modes\<close>

record Key =
  key_Version :: int
  key_Name :: string
  key_Value :: string

definition PossiblyCreate :: int where [go_defs]: "PossiblyCreate = 0"
definition NeverCreate :: int where [go_defs]: "NeverCreate = 1"
definition AlwaysCreate :: int where [go_defs]: "AlwaysCreate = 2"

definition NoExpiration :: int where [go_defs]: "NoExpiration = -1"

section \<open>The operations\<close>

text \<open>
  Each operation takes the database and returns it updated, with the result. An operation
  that only returns an error returns \<open>None\<close> for \<open>nil\<close>; \<open>AppendDocument\<close> returns a length
  beside its error. Operations can panic, in the SQL database when a statement fails and on a
  cluster of Redis servers: \<open>SetDocumentKey\<close> has the panic as an outcome, and the others return
  \<open>Panicked\<close> with its text, which the API shows.
\<close>

record 'db documentDB =
  GetDocument :: "'db \<Rightarrow> string \<Rightarrow> int \<Rightarrow> bytes \<Rightarrow> 'db \<times> (goerror + bytes \<times> bool)"
  AppendDocument :: "'db \<Rightarrow> string \<Rightarrow> u64 \<Rightarrow> bytes \<Rightarrow> 'db \<times> u64 \<times> goerror option"
  SetDocumentKey :: "'db \<Rightarrow> string \<Rightarrow> int \<Rightarrow> Key \<Rightarrow> 'db \<times> goerror option outcome"
  GetDocumentKeys :: "'db \<Rightarrow> string \<Rightarrow> 'db \<times> (goerror + Key list)"
  SetExpiration :: "'db \<Rightarrow> int \<Rightarrow> 'db"
  DeleteDocument :: "'db \<Rightarrow> string \<Rightarrow> 'db \<times> goerror option"
  AddToken :: "'db \<Rightarrow> string \<Rightarrow> string \<Rightarrow> string \<Rightarrow> string \<Rightarrow> int \<Rightarrow> bytes \<Rightarrow> 'db \<times> goerror option"
  GetToken :: "'db \<Rightarrow> string \<Rightarrow> 'db \<times> (goerror + string \<times> string \<times> string)"
  UpdateUser :: "'db \<Rightarrow> string \<Rightarrow> string \<Rightarrow> 'db \<times> goerror option"
  CheckHealth :: "'db \<Rightarrow> goerror option"

section \<open>The specification of documents\<close>

text \<open>
  The comments of the interface as functions of the documents alone: what each operation on
  documents returns and makes of them, in the three creation modes. \<open>doc_do\<close> calls an
  implementation's operation.
\<close>

datatype doc_op = Get string int bytes | Append string u64 bytes | Delete string

datatype doc_result = Got "goerror + bytes \<times> bool" | Appended u64 "goerror option" | Deleted "goerror option"

definition spec_get ::
    "(string \<rightharpoonup> bytes) \<Rightarrow> string \<Rightarrow> int \<Rightarrow> bytes \<Rightarrow> (string \<rightharpoonup> bytes) \<times> (goerror + bytes \<times> bool)" where
  "spec_get docs d mode init =
     (case docs d of
        None \<Rightarrow> if mode = NeverCreate then (docs, Inl ErrMissing)
                else (docs(d \<mapsto> init), Inr (init, True))
      | Some doc \<Rightarrow> if mode = AlwaysCreate then (docs, Inl ErrExists) else (docs, Inr (doc, False)))"

fun doc_spec :: "(string \<rightharpoonup> bytes) \<Rightarrow> doc_op \<Rightarrow> (string \<rightharpoonup> bytes) \<times> doc_result" where
  "doc_spec docs (Get d mode init) = (let (docs', r) = spec_get docs d mode init in (docs', Got r))"
| "doc_spec docs (Append d old new) =
     (case docs d of
        None \<Rightarrow> (docs, Appended 0 (Some ErrMissing))
      | Some doc \<Rightarrow>
          if u64_len doc \<noteq> old then (docs, Appended (u64_len doc) (Some ErrConflict))
          else (docs(d \<mapsto> doc @ new), Appended (u64_len (doc @ new)) None))"
| "doc_spec docs (Delete d) = (docs(d := None), Deleted None)"

fun known_op :: "doc_op \<Rightarrow> bool" where
  "known_op (Get d mode init) \<longleftrightarrow> mode \<in> {PossiblyCreate, NeverCreate, AlwaysCreate}"
| "known_op _ = True"

fun doc_do ::
    "('db \<Rightarrow> string \<Rightarrow> int \<Rightarrow> bytes \<Rightarrow> 'db \<times> (goerror + bytes \<times> bool)) \<Rightarrow>
     ('db \<Rightarrow> string \<Rightarrow> u64 \<Rightarrow> bytes \<Rightarrow> 'db \<times> u64 \<times> goerror option) \<Rightarrow>
     ('db \<Rightarrow> string \<Rightarrow> 'db \<times> goerror option) \<Rightarrow> 'db \<Rightarrow> doc_op \<Rightarrow> 'db \<times> doc_result" where
  "doc_do get app del db (Get d mode init) = (let (db', r) = get db d mode init in (db', Got r))"
| "doc_do get app del db (Append d old new) =
     (let (db', n, e) = app db d old new in (db', Appended n e))"
| "doc_do get app del db (Delete d) = (let (db', e) = del db d in (db', Deleted e))"

section \<open>What the interface promises of documents\<close>

text \<open>
  \<open>live db d\<close> is the contents of document \<open>d\<close> that a call made now will find: a database
  that expires documents drops the expired ones first. \<open>ok\<close> is the invariant of the
  implementation. The laws of \<open>GetDocument\<close> come first.
\<close>

locale document_reads =
  fixes get :: "'db \<Rightarrow> string \<Rightarrow> int \<Rightarrow> bytes \<Rightarrow> 'db \<times> (goerror + bytes \<times> bool)"
    and live :: "'db \<Rightarrow> string \<Rightarrow> bytes option"
    and ok :: "'db \<Rightarrow> bool"
  assumes get_found:
      "ok db \<Longrightarrow> live db d = Some doc \<Longrightarrow> mode \<in> {PossiblyCreate, NeverCreate} \<Longrightarrow>
       \<exists>db'. get db d mode init = (db', Inr (doc, False)) \<and> live db' = live db"
    and get_exists:
      "ok db \<Longrightarrow> live db d = Some doc \<Longrightarrow>
       \<exists>db'. get db d AlwaysCreate init = (db', Inl ErrExists) \<and> live db' = live db"
    and get_missing:
      "ok db \<Longrightarrow> live db d = None \<Longrightarrow>
       \<exists>db'. get db d NeverCreate init = (db', Inl ErrMissing) \<and> live db' = live db"
    and get_create:
      "ok db \<Longrightarrow> live db d = None \<Longrightarrow> mode \<in> {PossiblyCreate, AlwaysCreate} \<Longrightarrow>
       \<exists>db'. get db d mode init = (db', Inr (init, True)) \<and> live db' = (live db)(d \<mapsto> init)"
    and get_ok: "ok db \<Longrightarrow> ok (fst (get db d mode init))"
begin

text \<open>In the three modes, what a call returns and leaves is a function of the live documents.\<close>

lemma get_spec:
  assumes "ok db" and "mode \<in> {PossiblyCreate, NeverCreate, AlwaysCreate}"
  shows "(let (db', r) = get db d mode init in (live db', r)) = spec_get (live db) d mode init"
proof (cases "live db d")
  case None
  show ?thesis
  proof (cases "mode = NeverCreate")
    case True
    with get_missing [OF assms(1) None, of init] None show ?thesis by (auto simp: spec_get_def)
  next
    case False
    with assms(2) have "mode \<in> {PossiblyCreate, AlwaysCreate}" by blast
    from get_create [OF assms(1) None this, of init] None False show ?thesis
      by (auto simp: spec_get_def)
  qed
next
  case (Some doc)
  show ?thesis
  proof (cases "mode = AlwaysCreate")
    case True
    with get_exists [OF assms(1) Some, of init] Some show ?thesis by (auto simp: spec_get_def)
  next
    case False
    with assms(2) have "mode \<in> {PossiblyCreate, NeverCreate}" by blast
    from get_found [OF assms(1) Some this, of init] Some False show ?thesis
      by (auto simp: spec_get_def)
  qed
qed

end

text \<open>
  The laws of \<open>AppendDocument\<close>. The interface promises \<open>ErrMissing\<close> for an absent document. An
  implementation that \<open>creates\<close> instead takes it for an empty one.
\<close>

definition finds :: "bool \<Rightarrow> bytes option \<Rightarrow> bytes \<Rightarrow> bool" where
  "finds creates found doc \<longleftrightarrow> found = Some doc \<or> creates \<and> found = None \<and> doc = []"

lemma finds_simps [simp]: "finds False found doc \<longleftrightarrow> found = Some doc" "finds creates (Some doc') doc \<longleftrightarrow> doc' = doc"
  by (auto simp: finds_def)

locale document_appends = document_reads +
  fixes app :: "'a \<Rightarrow> string \<Rightarrow> u64 \<Rightarrow> bytes \<Rightarrow> 'a \<times> u64 \<times> goerror option"
    and creates :: bool
  assumes append_missing:
      "ok db \<Longrightarrow> live db d = None \<Longrightarrow> \<not> creates \<Longrightarrow>
       \<exists>db'. app db d old new = (db', 0, Some ErrMissing) \<and> live db' = live db"
    and append_conflict:
      "ok db \<Longrightarrow> finds creates (live db d) doc \<Longrightarrow> u64_len doc \<noteq> old \<Longrightarrow>
       \<exists>db'. app db d old new = (db', u64_len doc, Some ErrConflict) \<and> live db' = live db"
    and append_found:
      "ok db \<Longrightarrow> finds creates (live db d) doc \<Longrightarrow>
       \<exists>db'. app db d (u64_len doc) new = (db', u64_len (doc @ new), None)
         \<and> live db' = (live db)(d \<mapsto> doc @ new)"
    and append_ok: "ok db \<Longrightarrow> ok (fst (app db d old new))"
begin

text \<open>An append either adds the data at the end of the document or changes no document.\<close>

lemma append_cases:
  assumes "ok db"
  obtains
    (missing) db' where "app db d old new = (db', 0, Some ErrMissing)"
      "live db d = None" "live db' = live db" "\<not> creates"
  | (conflict) db' doc where "app db d old new = (db', u64_len doc, Some ErrConflict)"
      "finds creates (live db d) doc" "u64_len doc \<noteq> old" "live db' = live db"
  | (appended) db' doc where "app db d old new = (db', u64_len (doc @ new), None)"
      "finds creates (live db d) doc" "old = u64_len doc" "live db' = (live db)(d \<mapsto> doc @ new)"
proof -
  consider (absent) "live db d = None" "\<not> creates" | (there) doc where "finds creates (live db d) doc"
    by (cases "live db d") (auto simp: finds_def)
  then show ?thesis
  proof cases
    case absent
    with append_missing [OF assms, of d old new] missing show ?thesis by blast
  next
    case (there doc)
    show ?thesis
    proof (cases "u64_len doc = old")
      case True
      with append_found [OF assms there, of new] there appended show ?thesis by blast
    next
      case False
      with append_conflict [OF assms there False, of new] there conflict show ?thesis by blast
    qed
  qed
qed

end

locale document_contents = document_appends get live ok app False
  for get :: "'a \<Rightarrow> string \<Rightarrow> int \<Rightarrow> bytes \<Rightarrow> 'a \<times> (goerror + bytes \<times> bool)"
    and live :: "'a \<Rightarrow> string \<Rightarrow> bytes option" and ok :: "'a \<Rightarrow> bool"
    and app :: "'a \<Rightarrow> string \<Rightarrow> u64 \<Rightarrow> bytes \<Rightarrow> 'a \<times> u64 \<times> goerror option" +
  fixes del :: "'a \<Rightarrow> string \<Rightarrow> 'a \<times> goerror option"
  assumes delete: "ok db \<Longrightarrow> \<exists>db'. del db d = (db', None) \<and> live db' = (live db)(d := None)"
    and delete_ok: "ok db \<Longrightarrow> ok (fst (del db d))"
begin

text \<open>Appending nothing changes no document, whatever the outcome.\<close>

lemma append_nothing:
  assumes "ok db" and "app db d old [] = (db', n, e)"
  shows "live db' = live db"
  by (rule append_cases [OF assms(1), of d old "[]"]) (use assms(2) in auto)

text \<open>Concurrent writers: of two appends at the same offset, the second is rejected.\<close>

lemma append_race:
  assumes "ok db" and "app db d old new1 = (db1, n1, None)"
    and "new1 \<noteq> []" and "length new1 < 2 ^ 64"
  shows "\<exists>db2. app db1 d old new2 = (db2, n1, Some ErrConflict) \<and> live db2 = live db1"
proof -
  from assms(2) obtain doc where l: "live db d = Some doc" "old = u64_len doc"
      "live db1 = (live db)(d \<mapsto> doc @ new1)" "n1 = u64_len (doc @ new1)"
    by (rule_tac append_cases [OF assms(1), of d old new1]) auto
  have ok1: "ok db1"
    using append_ok [OF assms(1), of d old new1] assms(2) by simp
  have "u64_len new1 \<noteq> 0"
    using assms(3,4) u64_len_inj [of new1 "[]"] by simp
  then have "u64_len (doc @ new1) \<noteq> old"
    by (simp add: l(2) u64_len_append)
  with append_conflict [OF ok1, of d "doc @ new1" old new2] l show ?thesis by simp
qed

text \<open>Every operation on documents does what the specification says.\<close>

lemma doc_do_spec:
  assumes "ok db" and "known_op op"
  shows "(let (db', r) = doc_do get app del db op in (live db', r)) = doc_spec (live db) op
    \<and> ok (fst (doc_do get app del db op))"
proof (cases op)
  case (Get d mode init)
  then show ?thesis
    using get_spec [OF assms(1), of mode d init] get_ok [OF assms(1), of d mode init] assms(2)
    by (auto split: prod.splits)
next
  case (Append d old new)
  have "ok (fst (app db d old new))" by (rule append_ok [OF assms(1)])
  then show ?thesis
    by (rule_tac append_cases [OF assms(1), of d old new]) (auto simp: Append)
next
  case (Delete d)
  then show ?thesis
    using delete [OF assms(1), of d] delete_ok [OF assms(1), of d] by auto
qed

text \<open>The laws hold for any part of the databases in order that no operation leaves.\<close>

lemma contents_on:
  assumes "\<And>db. part db \<Longrightarrow> ok db"
    and "\<And>db d mode init. part db \<Longrightarrow> part (fst (get db d mode init))"
    and "\<And>db d old new. part db \<Longrightarrow> part (fst (app db d old new))"
    and "\<And>db d. part db \<Longrightarrow> part (fst (del db d))"
  shows "document_contents get live part app del"
  by unfold_locales
    (simp_all add: assms get_found get_exists get_missing get_create append_missing append_conflict append_found delete)

end

text \<open>
  What a client's handlers rely on: the documents, that keys and tokens leave them alone, and
  that reading a document or its keys does not panic.
\<close>

locale document_store =
  document_appends "GetDocument ops" live ok "AppendDocument ops" creates
  for ops :: "'db documentDB" and live :: "'db \<Rightarrow> string \<Rightarrow> bytes option" and ok :: "'db \<Rightarrow> bool" and creates :: bool +
  assumes key_live: "ok db \<Longrightarrow> live (fst (SetDocumentKey ops db d v k)) = live db"
    and key_ok: "ok db \<Longrightarrow> ok (fst (SetDocumentKey ops db d v k))"
    and key_returns: "ok db \<Longrightarrow> snd (SetDocumentKey ops db d v k) \<noteq> Diverge"
    and keys_live: "ok db \<Longrightarrow> live (fst (GetDocumentKeys ops db d)) = live db"
    and keys_ok: "ok db \<Longrightarrow> ok (fst (GetDocumentKeys ops db d))"
    and keys_return: "ok db \<Longrightarrow> snd (GetDocumentKeys ops db d) \<noteq> Inl (Panicked text0)"
    and get_returns: "ok db \<Longrightarrow> snd (GetDocument ops db d mode init) \<noteq> Inl (Panicked text0)"
    and token_live: "ok db \<Longrightarrow> live (fst (GetToken ops db t)) = live db"
    and token_ok: "ok db \<Longrightarrow> ok (fst (GetToken ops db t))"
begin

lemma store_on:
  assumes "\<And>db. part db \<Longrightarrow> ok db"
    and "\<And>db d mode init. part db \<Longrightarrow> part (fst (GetDocument ops db d mode init))"
    and "\<And>db d old new. part db \<Longrightarrow> part (fst (AppendDocument ops db d old new))"
    and "\<And>db d v k. part db \<Longrightarrow> part (fst (SetDocumentKey ops db d v k))"
    and "\<And>db d. part db \<Longrightarrow> part (fst (GetDocumentKeys ops db d))"
    and "\<And>db t. part db \<Longrightarrow> part (fst (GetToken ops db t))"
  shows "document_store ops live part creates"
  by unfold_locales
    (simp_all add: assms get_found get_exists get_missing get_create append_missing append_conflict append_found
      key_live key_returns keys_live keys_return get_returns token_live)

end

end
