(* ===== verification/ClientQueue.thy ===== *)
theory ClientQueue
  imports Framing DocumentDB
begin

text \<open>
  The \<open>client\<close> of \<open>client.go\<close> as other goroutines see it: its fields, and the methods that
  queue a message or a key for its writer. A message is encoded when it is queued. The keys
  to send are kept apart, the latest version of each; \<open>keyInfo_message\<close> is what the writer
  makes of them. The goroutine of the writer itself is in theory \<open>WriteThread\<close>.
\<close>

section \<open>State\<close>

text \<open>Default maximum message size.\<close>

definition maxMessageSize :: int where [go_defs]: "maxMessageSize = 100 * 1024"

text \<open>
  The connection, the database and the hub of a client are shared by all its goroutines and
  are not fields here. \<open>wakeup\<close> and \<open>mutex\<close> are modelled where they matter, in
  \<open>WriteThread\<close>.
\<close>

record client =
  cl_id :: string
  cl_protocolVersion :: u16
  cl_docID :: string
  cl_lastEnd :: u64
  cl_userID :: string
  cl_writePermission :: bool
  cl_adminPermission :: bool
  cl_closed :: bool
  cl_queued :: "bytes list"
  cl_keys :: "Key list"
  cl_maxSize :: int

text \<open>\<open>idstr\<close> writes a client number in hexadecimal. The number counts clients from 1.\<close>

definition hex_digit :: "nat \<Rightarrow> char" where
  "hex_digit d = ''0123456789abcdef'' ! d"

fun idstr :: "nat \<Rightarrow> string" where
  "idstr n = (if n < 16 then [hex_digit n] else idstr (n div 16) @ [hex_digit (n mod 16)])"

declare idstr.simps [simp del]

text \<open>The client that \<open>runClient\<close> creates for the \<open>n\<close>-th connection.\<close>

definition new_client :: "nat \<Rightarrow> client" where
  "new_client n =
     \<lparr>cl_id = idstr n, cl_protocolVersion = 0, cl_docID = [], cl_lastEnd = 0, cl_userID = [],
      cl_writePermission = False, cl_adminPermission = False, cl_closed = False,
      cl_queued = [], cl_keys = [], cl_maxSize = maxMessageSize\<rparr>"

section \<open>Queueing messages\<close>

definition enqueue :: "refl list \<Rightarrow> client \<Rightarrow> client" where
  "enqueue message c = c\<lparr>cl_queued := cl_queued c @ [encode [] message]\<rparr>"

definition errorUnspecified :: u16 where [go_defs]: "errorUnspecified = 0"
definition errorDoesNotExist :: u16 where [go_defs]: "errorDoesNotExist = 1"
definition errorInvalidOffset :: u16 where [go_defs]: "errorInvalidOffset = 3"
definition errorAccessDenied :: u16 where [go_defs]: "errorAccessDenied = 4"

definition errorStrings :: "string list" where
  "errorStrings = [''unspecified'', ''does not exist'', ''already exists'', ''invalid offset'',
     ''access denied'']"

definition error_message :: "u16 \<Rightarrow> string \<Rightarrow> errorMessage" where
  "error_message code text0 =
     \<lparr>em_MessageType = 0x80, em_More = 0, em_ErrorCode = code,
      em_Description = (if text0 = [] \<and> unat code < length errorStrings
                        then errorStrings ! unat code else text0)\<rparr>"

definition enqueueError :: "u16 \<Rightarrow> string \<Rightarrow> client \<Rightarrow> client" where
  "enqueueError code text0 c = enqueue (errorMessage_refl (error_message code text0)) c"

text \<open>
  An append that starts before the end of what the client was last sent is dropped. The
  comparison is of unsigned 64-bit integers and the new end wraps around.
\<close>

definition append_bytes :: "u16 \<Rightarrow> bytes \<Rightarrow> u64 \<Rightarrow> bytes" where
  "append_bytes version data offset =
     (if version < 3 then encode [] (appendMessageV2_refl
        \<lparr>ap2_MessageType = appendV2MessageType, ap2_More = 0, ap2_Offset = offset, ap2_Data = data\<rparr>)
      else encode [] (appendMessage_refl
        \<lparr>ap_MessageType = appendMessageType, ap_More = 0, ap_Generation = 0, ap_Offset = offset,
         ap_Data = data\<rparr>))"

definition enqueueAppend :: "bytes \<Rightarrow> u64 \<Rightarrow> client \<Rightarrow> client" where
  "enqueueAppend data offset c =
     (if offset < cl_lastEnd c then c
      else c\<lparr>cl_lastEnd := offset + u64_len data,
             cl_queued := cl_queued c @ [append_bytes (cl_protocolVersion c) data offset]\<rparr>)"

definition enqueueBroadcast :: "bytes \<Rightarrow> client \<Rightarrow> client" where
  "enqueueBroadcast data c = enqueue (broadcastMessage_refl
     \<lparr>bm_MessageType = 0x04, bm_More = 0, bm_DataLength = word_of_nat (length data),
      bm_Data = data\<rparr>) c"

definition enqueueAckNack :: "u16 \<Rightarrow> u64 \<Rightarrow> client \<Rightarrow> client" where
  "enqueueAckNack ack len c = enqueue (ackNackMessage_refl
     \<lparr>an_MessageType = 0x81, an_More = 0, an_Ack = ack, an_Offset = len\<rparr>) c"

definition enqueueSetKeyAckNack :: "bool \<Rightarrow> u16 \<Rightarrow> client \<Rightarrow> client" where
  "enqueueSetKeyAckNack ack requestID c = enqueue (setKeyAckNackMessage_refl
     \<lparr>ska_MessageType = 0x83, ska_More = 0, ska_Ack = (if ack then 1 else 0),
      ska_RequestID = requestID\<rparr>) c"

section \<open>Keys to send\<close>

text \<open>
  The inner loop of \<open>notifyKeysUpdated\<close>: the first pending key of that name is replaced
  unless it is newer; a key of a new name goes at the end.
\<close>

fun notify_key :: "Key \<Rightarrow> Key list \<Rightarrow> Key list" where
  "notify_key key [] = [key]"
| "notify_key key (k # ks) =
     (if key_Name k = key_Name key
      then (if key_Version key \<ge> key_Version k then key # ks else k # ks)
      else k # notify_key key ks)"

definition notifyKeysUpdated :: "Key list \<Rightarrow> client \<Rightarrow> client" where
  "notifyKeysUpdated keys c = c\<lparr>cl_keys := foldl (\<lambda>pending key. notify_key key pending) (cl_keys c) keys\<rparr>"

text \<open>The message that the writer makes of the pending keys.\<close>

definition key_information :: "Key \<Rightarrow> keyInformation" where
  "key_information k =
     \<lparr>ki_Version = word_of_int (key_Version k), ki_NameLength = word_of_nat (length (key_Name k)),
      ki_Name = key_Name k, ki_ValueLength = word_of_nat (length (key_Value k)),
      ki_Value = key_Value k\<rparr>"

definition keyInfo_message :: "Key list \<Rightarrow> keyInformationMessage" where
  "keyInfo_message keys =
     \<lparr>kim_MessageType = keyInformationMessageType, kim_More = 0, kim_Keys = map key_information keys\<rparr>"

section \<open>Losing access\<close>

definition notifyLostAccess :: "u16 \<Rightarrow> client \<Rightarrow> client" where
  "notifyLostAccess code c = (enqueueError code [] c)\<lparr>cl_closed := True\<rparr>"

definition notifyPermissionChange :: "string \<Rightarrow> client \<Rightarrow> client" where
  "notifyPermissionChange permissions c =
     (let c' = c\<lparr>cl_writePermission := str_contains permissions ''w'',
                 cl_adminPermission := str_contains permissions ''a''\<rparr>
      in if \<not> str_contains permissions ''r'' then notifyLostAccess errorAccessDenied c' else c')"

section \<open>Client numbers\<close>

lemma hex_digit_inj: "d < 16 \<Longrightarrow> e < 16 \<Longrightarrow> hex_digit d = hex_digit e \<longleftrightarrow> d = e"
  unfolding hex_digit_def by (intro nth_eq_iff_index_eq) simp_all

lemma hex_digit_set: "d < 16 \<Longrightarrow> hex_digit d \<in> set ''0123456789abcdef''"
  unfolding hex_digit_def by (intro nth_mem) simp

lemma idstr_ne [simp]: "idstr n \<noteq> []"
  by (subst idstr.simps) simp

lemma Nil_idstr [simp]: "[] \<noteq> idstr n"
  by (metis idstr_ne)

lemma idstr_inj: "idstr n = idstr m \<Longrightarrow> n = m"
proof (induction n arbitrary: m rule: idstr.induct)
  case (1 n)
  show ?case
  proof (cases "n < 16")
    case True
    with "1.prems" have "m < 16 \<and> hex_digit n = hex_digit m"
      by (auto simp: idstr.simps [of n] idstr.simps [of m] split: if_splits)
    with True hex_digit_inj [of n m] show ?thesis by auto
  next
    case False
    with "1.prems" have m: "\<not> m < 16" "idstr (n div 16) = idstr (m div 16)"
        "hex_digit (n mod 16) = hex_digit (m mod 16)"
      by (auto simp: idstr.simps [of n] idstr.simps [of m] split: if_splits)
    with "1.IH" [OF False m(2)] have "n div 16 = m div 16" "n mod 16 = m mod 16"
      by (simp_all add: hex_digit_inj)
    then show ?thesis by (metis div_mult_mod_eq)
  qed
qed

lemma idstr_set: "set (idstr n) \<subseteq> set ''0123456789abcdef''"
proof (induction n rule: idstr.induct)
  case (1 n)
  then show ?case
    using hex_digit_set [of n] hex_digit_set [of "n mod 16"]
    by (subst idstr.simps) (auto split: if_splits)
qed

section \<open>What the methods leave unchanged\<close>

lemma enqueue_frame [frame_simps]:
  "cl_id (enqueue m c) = cl_id c" "cl_docID (enqueue m c) = cl_docID c"
  "cl_lastEnd (enqueue m c) = cl_lastEnd c" "cl_keys (enqueue m c) = cl_keys c"
  "cl_userID (enqueue m c) = cl_userID c" "cl_closed (enqueue m c) = cl_closed c"
  "cl_writePermission (enqueue m c) = cl_writePermission c"
  "cl_protocolVersion (enqueue m c) = cl_protocolVersion c"
  by (simp_all add: enqueue_def)

lemma enqueueAppend_frame [frame_simps]:
  "cl_id (enqueueAppend d n c) = cl_id c" "cl_docID (enqueueAppend d n c) = cl_docID c"
  "cl_keys (enqueueAppend d n c) = cl_keys c" "cl_closed (enqueueAppend d n c) = cl_closed c"
  "cl_userID (enqueueAppend d n c) = cl_userID c"
  "cl_protocolVersion (enqueueAppend d n c) = cl_protocolVersion c"
  by (simp_all add: enqueueAppend_def)

lemma notify_frame [frame_simps]:
  "cl_id (notifyKeysUpdated ks c) = cl_id c" "cl_docID (notifyKeysUpdated ks c) = cl_docID c"
  "cl_lastEnd (notifyKeysUpdated ks c) = cl_lastEnd c"
  "cl_queued (notifyKeysUpdated ks c) = cl_queued c"
  "cl_userID (notifyKeysUpdated ks c) = cl_userID c"
  "cl_id (notifyLostAccess e c) = cl_id c" "cl_docID (notifyLostAccess e c) = cl_docID c"
  "cl_lastEnd (notifyLostAccess e c) = cl_lastEnd c"
  "cl_userID (notifyLostAccess e c) = cl_userID c"
  "cl_id (notifyPermissionChange p c) = cl_id c"
  "cl_docID (notifyPermissionChange p c) = cl_docID c"
  "cl_lastEnd (notifyPermissionChange p c) = cl_lastEnd c"
  "cl_userID (notifyPermissionChange p c) = cl_userID c"
  by (simp_all add: notifyKeysUpdated_def notifyLostAccess_def notifyPermissionChange_def
      enqueueError_def enqueue_def Let_def)

lemma enqueueBroadcast_frame [frame_simps]:
  "cl_id (enqueueBroadcast d c) = cl_id c" "cl_docID (enqueueBroadcast d c) = cl_docID c"
  "cl_lastEnd (enqueueBroadcast d c) = cl_lastEnd c"
  by (simp_all add: enqueueBroadcast_def frame_simps)

section \<open>The pending keys\<close>

lemma notify_key_names: "key_Name ` set (notify_key key ks) = insert (key_Name key) (key_Name ` set ks)"
  by (induction ks) auto

lemma notify_key_distinct: "distinct (map key_Name ks) \<Longrightarrow> distinct (map key_Name (notify_key key ks))"
proof (induction ks)
  case (Cons k ks)
  then show ?case
    using notify_key_names [of key ks] by (auto simp flip: set_map)
qed simp

text \<open>The version pending for a name.\<close>

definition pending_version :: "Key list \<Rightarrow> string \<Rightarrow> int option" where
  "pending_version ks n = map_option key_Version (find (\<lambda>k. key_Name k = n) ks)"

lemma notify_key_version:
  "pending_version (notify_key key ks) n =
     (if n = key_Name key
      then Some (case pending_version ks n of None \<Rightarrow> key_Version key | Some v \<Rightarrow> max v (key_Version key))
      else pending_version ks n)"
  by (induction ks) (auto simp: pending_version_def max_def)

lemma foldl_notify_distinct:
  "distinct (map key_Name ks) \<Longrightarrow>
   distinct (map key_Name (foldl (\<lambda>pending key. notify_key key pending) ks keys))"
  by (induction keys arbitrary: ks) (simp_all add: notify_key_distinct)

lemma notify_key_subset: "set (notify_key key ks) \<subseteq> insert key (set ks)"
  by (induction ks) auto

text \<open>Every key that was pending or is notified is covered by a pending one at least as new.\<close>

definition covered :: "Key list \<Rightarrow> Key \<Rightarrow> bool" where
  "covered ks k \<longleftrightarrow> (\<exists>k'\<in>set ks. key_Name k' = key_Name k \<and> key_Version k \<le> key_Version k')"

lemma notify_key_covers: "covered (notify_key key ks) key"
  by (induction ks) (auto simp: covered_def)

lemma notify_key_covered: "covered ks k \<Longrightarrow> covered (notify_key key ks) k"
  by (induction ks) (auto simp: covered_def)

lemma foldl_notify_covered:
  "k \<in> set ks \<union> set keys \<or> covered ks k \<Longrightarrow>
   covered (foldl (\<lambda>pending key. notify_key key pending) ks keys) k"
proof (induction keys arbitrary: ks)
  case Nil
  then show ?case by (auto simp: covered_def)
next
  case (Cons key keys)
  have "covered (notify_key key ks) k \<or> k \<in> set keys"
    using Cons.prems notify_key_covers [of key ks] notify_key_covered [of ks k key]
    by (auto simp: covered_def)
  then show ?case using Cons.IH [of "notify_key key ks"] by auto
qed

lemma foldl_notify_subset:
  "set (foldl (\<lambda>pending key. notify_key key pending) ks keys) \<subseteq> set ks \<union> set keys"
proof (induction keys arbitrary: ks)
  case (Cons key keys)
  from Cons.IH [of "notify_key key ks"] notify_key_subset [of key ks] show ?case by auto
qed simp

text \<open>
  C19: A client never misses the latest version of a key. After any number of notifications
  it has one pending key of each name, which is one it was notified of and at least as new
  as every key of that name it was notified of.
\<close>

theorem notifyKeysUpdated_latest:
  assumes "distinct (map key_Name (cl_keys c))"
  shows "distinct (map key_Name (cl_keys (notifyKeysUpdated keys c)))
    \<and> set (cl_keys (notifyKeysUpdated keys c)) \<subseteq> set (cl_keys c) \<union> set keys
    \<and> (\<forall>k \<in> set (cl_keys c) \<union> set keys. \<exists>k' \<in> set (cl_keys (notifyKeysUpdated keys c)).
         key_Name k' = key_Name k \<and> key_Version k \<le> key_Version k')"
proof -
  have "\<forall>k \<in> set (cl_keys c) \<union> set keys. covered (cl_keys (notifyKeysUpdated keys c)) k"
    using foldl_notify_covered [of _ "cl_keys c" keys] by (auto simp: notifyKeysUpdated_def)
  moreover have "distinct (map key_Name (cl_keys (notifyKeysUpdated keys c)))"
    using foldl_notify_distinct [OF assms, of keys] by (simp add: notifyKeysUpdated_def)
  moreover have "set (cl_keys (notifyKeysUpdated keys c)) \<subseteq> set (cl_keys c) \<union> set keys"
    using foldl_notify_subset [of "cl_keys c" keys] by (simp add: notifyKeysUpdated_def)
  ultimately show ?thesis
    unfolding covered_def by blast
qed

theorem notifyKeysUpdated_latest_witness:
  "let k = (\<lambda>v. \<lparr>key_Version = v, key_Name = ''n'', key_Value = ''x''\<rparr>);
       c = notifyKeysUpdated [k 1, k 3, k 2] (new_client 1)
   in cl_keys c = [k 3] \<and> distinct (map key_Name (cl_keys c))"
proof -
  have "distinct (map key_Name (cl_keys (new_client 1)))"
    by (simp add: new_client_def)
  from notifyKeysUpdated_latest [OF this] show ?thesis
    by (simp add: notifyKeysUpdated_def new_client_def)
qed

section \<open>What the client receives\<close>

text \<open>An append message queued for a client of either version decodes to its offset and data.\<close>

lemma append_bytes_decode:
  assumes "length data < 2 ^ 62"
  shows "\<exists>t. decodeAppendMessage (append_bytes version data offset) =
     Ok \<lparr>ap_MessageType = t, ap_More = 0, ap_Generation = 0, ap_Offset = offset, ap_Data = data\<rparr>"
proof (cases "version < 3")
  case True
  let ?m = "\<lparr>ap2_MessageType = appendV2MessageType, ap2_More = 0, ap2_Offset = offset, ap2_Data = data\<rparr>"
  have "length (encode [] (appendMessageV2_refl ?m)) < 2 ^ 63"
    using assms by (simp add: encode_enc appendMessageV2_refl_def)
  from decodeAppendMessage_V2 [OF _ this] True show ?thesis
    by (simp add: append_bytes_def append_of_V2_def)
next
  case False
  let ?m = "\<lparr>ap_MessageType = appendMessageType, ap_More = 0, ap_Generation = 0, ap_Offset = offset,
    ap_Data = data\<rparr>"
  have "length (encode [] (appendMessage_refl ?m)) < 2 ^ 63"
    using assms by (simp add: encode_enc appendMessage_refl_def)
  from decodeAppendMessage_V3 [OF _ this] False show ?thesis
    by (simp add: append_bytes_def)
qed

lemma length_append_bytes: "2 \<le> length (append_bytes version data offset)"
  by (simp add: append_bytes_def encode_enc appendMessageV2_refl_def appendMessage_refl_def)

end
