(* ===== verification/Webhooks.thy ===== *)
theory Webhooks
  imports Prelude
begin

text \<open>
  The queue of webhook events of \<open>webhooks.go\<close>: \<open>add\<close>, \<open>removeIf\<close> and the goroutine
  that sends the events that are due. Both loops compact the slice of events in place; the
  lemmas show that they compute a filter, and that the goroutine's sleep never passes the
  time of a queued event.
\<close>

section \<open>State\<close>

record webhookEvent =
  wh_sendBy :: gotime
  wh_url :: string
  wh_name :: string
  wh_documentID :: string
  wh_username :: string
  wh_password :: string

text \<open>
  \<open>whq_cancelled\<close> says that the context the goroutine waits on has been cancelled;
  \<open>whq_wake\<close> is when its wait ends by itself, \<open>None\<close> before its first iteration, and
  \<open>whq_sent\<close> the events passed to \<open>send\<close>, oldest first.
\<close>

record webhookQueue =
  whq_events :: "webhookEvent list"
  whq_cancelled :: bool
  whq_wake :: "gotime option"
  whq_sent :: "webhookEvent list"

definition createWebhookQueue :: webhookQueue where
  "createWebhookQueue = \<lparr>whq_events = [], whq_cancelled = False, whq_wake = None, whq_sent = []\<rparr>"

section \<open>Operations\<close>

text \<open>
  The loop of \<open>removeIf\<close> from index \<open>i\<close> on, with the number of events removed so far. The
  slice is updated in place: event \<open>i\<close> moves down over the removed ones.
\<close>

function removeIf_loop ::
    "(webhookEvent \<Rightarrow> bool) \<Rightarrow> webhookEvent list \<Rightarrow> nat \<Rightarrow> nat \<Rightarrow> webhookEvent list \<times> nat" where
  "removeIf_loop fn events i removed =
     (if i < length events then
        if fn (events ! i) then removeIf_loop fn events (Suc i) (Suc removed)
        else if removed > 0
        then removeIf_loop fn (events[i - removed := events ! i]) (Suc i) removed
        else removeIf_loop fn events (Suc i) removed
      else (events, removed))"
  by pat_completeness auto
termination
  by (relation "measure (\<lambda>(_, events, i, _). length events - i)") auto

definition removeIf :: "(webhookEvent \<Rightarrow> bool) \<Rightarrow> webhookQueue \<Rightarrow> webhookQueue" where
  "removeIf fn q =
     (let (events, removed) = removeIf_loop fn (whq_events q) 0 0
      in q\<lparr>whq_events := take (length (whq_events q) - removed) events\<rparr>)"

definition add_event :: "webhookEvent \<Rightarrow> webhookQueue \<Rightarrow> webhookQueue" where
  "add_event event q = q\<lparr>whq_events := whq_events q @ [event], whq_cancelled := True\<rparr>"

text \<open>
  The goroutine's loop over the events: those due are sent, the time \<open>at\<close> of the next wake
  up is the least of the others, and these move down. The comparison with \<open>at\<close> comes
  before the move.
\<close>

function scan_loop ::
    "gotime \<Rightarrow> webhookEvent list \<Rightarrow> nat \<Rightarrow> nat \<Rightarrow> gotime \<Rightarrow> webhookEvent list \<Rightarrow>
     webhookEvent list \<times> nat \<times> gotime \<times> webhookEvent list" where
  "scan_loop now events i removed at sent =
     (if i < length events then
        let item = events ! i in
        if wh_sendBy item < now then scan_loop now events (Suc i) (Suc removed) at (sent @ [item])
        else
          let at' = (if wh_sendBy item < at then wh_sendBy item else at);
              events' = (if removed > 0 then events[i - removed := events ! i] else events)
          in scan_loop now events' (Suc i) removed at' sent
      else (events, removed, at, sent))"
  by pat_completeness auto
termination
  by (relation "measure (\<lambda>(_, events, i, _). length events - i)") (auto simp: Let_def)

definition day :: int where "day = 24 * 60 * 60 * second"

text \<open>One iteration of the goroutine, up to the wait for the cancellation or the timer.\<close>

definition queue_iteration :: "gotime \<Rightarrow> webhookQueue \<Rightarrow> webhookQueue" where
  "queue_iteration now q =
     (let (events, removed, at, sent) = scan_loop now (whq_events q) 0 0 (time_add now day) []
      in q\<lparr>whq_events := take (length events - removed) events, whq_cancelled := False,
           whq_wake := Some at, whq_sent := whq_sent q @ sent\<rparr>)"

declare removeIf_loop.simps [simp del] scan_loop.simps [simp del]

section \<open>The loops are filters\<close>

text \<open>
  At index \<open>i\<close> with \<open>removed\<close> events gone, the slice is the kept events of the first \<open>i\<close>,
  \<open>removed\<close> cells that no longer count, and the rest untouched.
\<close>

lemma removeIf_loop_filter:
  "length gap = removed \<Longrightarrow> i = length kept + removed \<Longrightarrow>
   \<exists>gap'. removeIf_loop fn (kept @ gap @ rest) i removed
       = (kept @ filter (\<lambda>e. \<not> fn e) rest @ gap', length gap')
     \<and> length gap' = removed + length (filter fn rest)"
proof (induction rest arbitrary: kept gap i removed)
  case Nil
  then show ?case by (auto simp: removeIf_loop.simps)
next
  case (Cons e rest)
  have at_i: "(kept @ gap @ e # rest) ! i = e" "i < length (kept @ gap @ e # rest)"
    using Cons.prems by (auto simp: nth_append)
  show ?case
  proof (cases "fn e")
    case True
    have "removeIf_loop fn (kept @ gap @ e # rest) i removed
        = removeIf_loop fn (kept @ (gap @ [e]) @ rest) (Suc i) (Suc removed)"
      by (subst removeIf_loop.simps) (use at_i True in simp)
    with Cons.IH [of "gap @ [e]" "Suc removed" "Suc i" kept] Cons.prems True show ?thesis by simp
  next
    case False
    show ?thesis
    proof (cases gap)
      case Nil
      have "removeIf_loop fn (kept @ gap @ e # rest) i removed
          = removeIf_loop fn ((kept @ [e]) @ gap @ rest) (Suc i) removed"
        by (subst removeIf_loop.simps) (use at_i False Nil Cons.prems in simp)
      with Cons.IH [of gap removed "Suc i" "kept @ [e]"] Cons.prems False show ?thesis by simp
    next
      case (Cons g gs)
      have "(kept @ gap @ e # rest)[i - removed := e] = (kept @ [e]) @ (gs @ [e]) @ rest"
        using Cons.prems by (simp add: Cons)
      then have "removeIf_loop fn (kept @ gap @ e # rest) i removed
          = removeIf_loop fn ((kept @ [e]) @ (gs @ [e]) @ rest) (Suc i) removed"
        by (subst removeIf_loop.simps) (use at_i False Cons Cons.prems in simp)
      with Cons.IH [of "gs @ [e]" removed "Suc i" "kept @ [e]"] Cons Cons.prems False
      show ?thesis by simp
    qed
  qed
qed

lemma removeIf_filter: "removeIf fn q = q\<lparr>whq_events := filter (\<lambda>e. \<not> fn e) (whq_events q)\<rparr>"
proof -
  obtain gap where "removeIf_loop fn (whq_events q) 0 0
      = (filter (\<lambda>e. \<not> fn e) (whq_events q) @ gap, length gap)"
    and "length gap = length (filter fn (whq_events q))"
    using removeIf_loop_filter [of "[]" 0 0 "[]" fn "whq_events q"] by auto
  moreover have "length (whq_events q) - length (filter fn (whq_events q))
      = length (filter (\<lambda>e. \<not> fn e) (whq_events q))"
    using sum_length_filter_compl [of fn "whq_events q"] by linarith
  ultimately show ?thesis
    by (simp add: removeIf_def)
qed

definition next_wake :: "gotime \<Rightarrow> webhookEvent list \<Rightarrow> gotime" where
  "next_wake at events = foldl (\<lambda>t e. min t (wh_sendBy e)) at events"

lemma next_wake_le: "next_wake at events \<le> at \<and> (\<forall>e\<in>set events. next_wake at events \<le> wh_sendBy e)"
proof (induction events arbitrary: at)
  case Nil
  then show ?case by (simp add: next_wake_def)
next
  case (Cons e events)
  have "next_wake at (e # events) = next_wake (min at (wh_sendBy e)) events"
    by (simp add: next_wake_def)
  with Cons.IH [of "min at (wh_sendBy e)"] show ?case by auto
qed

lemma scan_loop_filter:
  "length gap = removed \<Longrightarrow> i = length kept + removed \<Longrightarrow>
   \<exists>gap'. scan_loop now (kept @ gap @ rest) i removed at sent
       = (kept @ filter (\<lambda>e. \<not> wh_sendBy e < now) rest @ gap', length gap',
          next_wake at (filter (\<lambda>e. \<not> wh_sendBy e < now) rest),
          sent @ filter (\<lambda>e. wh_sendBy e < now) rest)"
proof (induction rest arbitrary: kept gap i removed at sent)
  case Nil
  then show ?case by (auto simp: scan_loop.simps next_wake_def)
next
  case (Cons e rest)
  have at_i: "(kept @ gap @ e # rest) ! i = e" "i < length (kept @ gap @ e # rest)"
    using Cons.prems by (auto simp: nth_append)
  show ?case
  proof (cases "wh_sendBy e < now")
    case True
    have "scan_loop now (kept @ gap @ e # rest) i removed at sent
        = scan_loop now (kept @ (gap @ [e]) @ rest) (Suc i) (Suc removed) at (sent @ [e])"
      by (subst scan_loop.simps) (use at_i True in simp)
    with Cons.IH [of "gap @ [e]" "Suc removed" "Suc i" kept at "sent @ [e]"] Cons.prems True
    show ?thesis by simp
  next
    case False
    have min: "(if wh_sendBy e < at then wh_sendBy e else at) = min at (wh_sendBy e)"
      by (auto simp: min_def)
    show ?thesis
    proof (cases gap)
      case Nil
      have "scan_loop now (kept @ gap @ e # rest) i removed at sent
          = scan_loop now ((kept @ [e]) @ gap @ rest) (Suc i) removed (min at (wh_sendBy e)) sent"
        by (subst scan_loop.simps) (use at_i False Nil Cons.prems min in \<open>simp add: Let_def\<close>)
      with Cons.IH [of gap removed "Suc i" "kept @ [e]" "min at (wh_sendBy e)" sent]
        Cons.prems False show ?thesis by (simp add: next_wake_def)
    next
      case (Cons g gs)
      have "(kept @ gap @ e # rest)[i - removed := e] = (kept @ [e]) @ (gs @ [e]) @ rest"
        using Cons.prems by (simp add: Cons)
      then have "scan_loop now (kept @ gap @ e # rest) i removed at sent
          = scan_loop now ((kept @ [e]) @ (gs @ [e]) @ rest) (Suc i) removed
              (min at (wh_sendBy e)) sent"
        by (subst scan_loop.simps) (use at_i False Cons Cons.prems min in \<open>simp add: Let_def\<close>)
      with Cons.IH [of "gs @ [e]" removed "Suc i" "kept @ [e]" "min at (wh_sendBy e)" sent]
        Cons Cons.prems False
      show ?thesis by (simp add: next_wake_def)
    qed
  qed
qed

lemma queue_iteration_filter:
  "queue_iteration now q = q\<lparr>
     whq_events := filter (\<lambda>e. \<not> wh_sendBy e < now) (whq_events q), whq_cancelled := False,
     whq_wake := Some (next_wake (time_add now day) (filter (\<lambda>e. \<not> wh_sendBy e < now) (whq_events q))),
     whq_sent := whq_sent q @ filter (\<lambda>e. wh_sendBy e < now) (whq_events q)\<rparr>"
  using scan_loop_filter [of "[]" 0 0 "[]" now "whq_events q" "time_add now day" "[]"]
  by (auto simp: queue_iteration_def)

section \<open>The goroutine and its callers\<close>

text \<open>
  A step of the queue: a caller adds or removes events at any time; the goroutine runs an
  iteration at its start, when its context is cancelled, and when its timer has expired.
  The argument of an iteration is the time it reads from the clock.
\<close>

datatype queue_action = Add webhookEvent | RemoveIf "webhookEvent \<Rightarrow> bool" | Iterate gotime

fun enabled :: "queue_action \<Rightarrow> webhookQueue \<Rightarrow> bool" where
  "enabled (Iterate now) q =
     (whq_cancelled q \<or> (case whq_wake q of None \<Rightarrow> True | Some at \<Rightarrow> at \<le> now))"
| "enabled _ q = True"

fun queue_step :: "queue_action \<Rightarrow> webhookQueue \<Rightarrow> webhookQueue" where
  "queue_step (Add e) q = add_event e q"
| "queue_step (RemoveIf fn) q = removeIf fn q"
| "queue_step (Iterate now) q = queue_iteration now q"

inductive queue_reach :: "webhookQueue \<Rightarrow> bool" where
  start: "queue_reach createWebhookQueue"
| step: "queue_reach q \<Longrightarrow> enabled s q \<Longrightarrow> queue_reach (queue_step s q)"

text \<open>Unless it has been woken, the goroutine sleeps no longer than until any queued event.\<close>

definition wake_in_time :: "webhookQueue \<Rightarrow> bool" where
  "wake_in_time q \<longleftrightarrow> whq_cancelled q \<or>
     (case whq_wake q of None \<Rightarrow> True | Some at \<Rightarrow> \<forall>e\<in>set (whq_events q). at \<le> wh_sendBy e)"

lemma queue_step_wake: "wake_in_time q \<Longrightarrow> wake_in_time (queue_step s q)"
  by (cases s)
    (auto simp: wake_in_time_def add_event_def removeIf_filter queue_iteration_filter next_wake_le
       split: option.splits)

lemma queue_reach_wake: "queue_reach q \<Longrightarrow> wake_in_time q"
proof (induction rule: queue_reach.induct)
  case start
  show ?case by (simp add: wake_in_time_def createWebhookQueue_def)
next
  case (step q s)
  from step.IH show ?case by (rule queue_step_wake)
qed

text \<open>
  C20: An event in the queue is always sent when its time has passed: whatever callers have
  added and removed before, at any time after the event's \<open>sendBy\<close> the goroutine is able
  to run an iteration, and that iteration sends the event, exactly once, and removes it.
\<close>

theorem webhook_event_sent:
  assumes "queue_reach q" and "e \<in> set (whq_events q)" and "wh_sendBy e < now"
  shows "enabled (Iterate now) q
    \<and> e \<notin> set (whq_events (queue_iteration now q))
    \<and> (\<exists>sent. whq_sent (queue_iteration now q) = whq_sent q @ sent
         \<and> count_list sent e = count_list (whq_events q) e)"
proof -
  have "wake_in_time q" using assms(1) by (rule queue_reach_wake)
  with assms(2,3) have "enabled (Iterate now) q"
    by (force simp: wake_in_time_def split: option.splits)
  moreover have "count_list (filter (\<lambda>e. wh_sendBy e < now) es) e = count_list es e" for es
    using assms(3) by (induction es) auto
  ultimately show ?thesis
    using assms(3) by (simp add: queue_iteration_filter)
qed

theorem webhook_event_sent_witness:
  "let e = \<lparr>wh_sendBy = Time 5, wh_url = ''u'', wh_name = ''idle-session'', wh_documentID = ''d'',
            wh_username = ''n'', wh_password = ''p''\<rparr>
   in e \<in> set (whq_sent (queue_iteration (Time 6) (add_event e createWebhookQueue)))"
proof -
  define e where "e = \<lparr>wh_sendBy = Time 5, wh_url = ''u'', wh_name = ''idle-session'',
    wh_documentID = ''d'', wh_username = ''n'', wh_password = ''p''\<rparr>"
  have "queue_reach (add_event e createWebhookQueue)"
    using queue_reach.step [OF queue_reach.start, of "Add e"] by simp
  from webhook_event_sent [OF this, of e "Time 6"] show ?thesis
    by (auto simp: add_event_def createWebhookQueue_def less_gotime_def Let_def e_def [symmetric])
      (auto simp: e_def queue_iteration_filter less_gotime_def)
qed

text \<open>
  The in-place compaction of \<open>removeIf\<close> keeps exactly the events that do not match, in
  their order.
\<close>

theorem removeIf_is_filter:
  "whq_events (removeIf fn q) = filter (\<lambda>e. \<not> fn e) (whq_events q)
   \<and> whq_sent (removeIf fn q) = whq_sent q \<and> whq_wake (removeIf fn q) = whq_wake q"
  by (simp add: removeIf_filter)

end
