(* ===== verification/Hub.thy ===== *)
theory Hub
  imports ClientQueue Webhooks
begin

text \<open>
  The hub of \<open>hub.go\<close>: the sessions (the clients connected to each document, and the keys
  that live as long as their client) and the operations on them. Every operation of the Go
  code is a function sent over a channel to one goroutine, so that it runs as one step.

  Sessions hold pointers to clients, and a client is changed through every pointer to it:
  the clients are a store, from references to client records. The calls of the \<open>HAE\<close>
  interface, which the open source build implements as no-ops (\<open>haeStubs.go\<close>), are recorded
  in \<open>hub_swarm\<close> in the order they are made.
\<close>

section \<open>State\<close>

type_synonym clients = "nat \<rightharpoonup> client"

text \<open>The owner of a key is a client's id, or ``server-client'' for a client of another server.\<close>

record clientKey =
  ck_Key :: Key
  ck_owner :: string

record session =
  sess_clients :: "nat list"
  sess_keys :: "clientKey list"

datatype swarm_call =
    NotifyClientAddRemove string string u64 bool
  | NotifyAppend string u64 bytes
  | NotifyBroadcast string bytes
  | NotifyKeyUpdated string string string string bool
  | SetServerID string
  | SetUrls "string list"
  | SetSecurityInfo string string string bool
  | HandleIncomingConnection bytes

record hub =
  hub_sessions :: "string \<rightharpoonup> session"
  hub_hooks :: webhookQueue
  hub_webhookURL :: string
  hub_secretUser :: string
  hub_secretPassword :: string
  hub_jwtKey :: string
  hub_keyIsBase64 :: bool
  hub_swarm :: "swarm_call list"

definition newHub :: hub where
  "newHub = \<lparr>hub_sessions = Map.empty, hub_hooks = createWebhookQueue, hub_webhookURL = [],
     hub_secretUser = [], hub_secretPassword = [], hub_jwtKey = [], hub_keyIsBase64 = False,
     hub_swarm = []\<rparr>"

definition setWebhook :: "string \<Rightarrow> string \<Rightarrow> string \<Rightarrow> hub \<Rightarrow> hub" where
  "setWebhook url user password h =
     h\<lparr>hub_webhookURL := url, hub_secretUser := user, hub_secretPassword := password\<rparr>"

definition swarm_notify :: "swarm_call \<Rightarrow> hub \<Rightarrow> hub" where
  "swarm_notify call h = h\<lparr>hub_swarm := hub_swarm h @ [call]\<rparr>"

text \<open>
  In this build the swarm is the \<open>peerList\<close> of \<open>haeStubs.go\<close>, which has no fields and methods
  with empty bodies, so that no call of it has an effect or a result.
\<close>

datatype peerList = PeerList

definition newPeerList :: peerList where
  "newPeerList = PeerList"

fun peer_call :: "swarm_call \<Rightarrow> peerList \<Rightarrow> peerList" where
  "peer_call (SetServerID serverID) pl = pl"
| "peer_call (SetUrls urls) pl = pl"
| "peer_call (SetSecurityInfo secretUser secretPassword jwtKey keyIsBase64) pl = pl"
| "peer_call (HandleIncomingConnection m) pl = pl"
| "peer_call (NotifyClientAddRemove docID clientID docLength added) pl = pl"
| "peer_call (NotifyAppend docID offset data) pl = pl"
| "peer_call (NotifyBroadcast docID data) pl = pl"
| "peer_call (NotifyKeyUpdated docID clientID name val sessionLifetime) pl = pl"

definition hub_peers :: "hub \<Rightarrow> peerList" where
  "hub_peers h = fold peer_call (hub_swarm h) newPeerList"

section \<open>The store of clients\<close>

definition upd_client :: "(client \<Rightarrow> client) \<Rightarrow> nat \<Rightarrow> clients \<Rightarrow> clients" where
  "upd_client f r cs = (case cs r of None \<Rightarrow> cs | Some c \<Rightarrow> cs(r \<mapsto> f c))"

text \<open>\<open>for _, client := range clients\<close>\<close>

definition each_client :: "(client \<Rightarrow> client) \<Rightarrow> nat list \<Rightarrow> clients \<Rightarrow> clients" where
  "each_client f rs cs = fold (upd_client f) rs cs"

text \<open>\<open>if other.id != source\<close>\<close>

definition unless_id :: "string \<Rightarrow> (client \<Rightarrow> client) \<Rightarrow> client \<Rightarrow> client" where
  "unless_id source f c = (if cl_id c \<noteq> source then f c else c)"

definition id_of :: "clients \<Rightarrow> nat \<Rightarrow> string option" where
  "id_of cs r = map_option cl_id (cs r)"

definition isRemoteID :: "string \<Rightarrow> bool" where
  "isRemoteID i \<longleftrightarrow> (\<exists>c\<in>set i. c = CHR ''-'')"

section \<open>Clients come and go\<close>

definition addClient :: "string \<Rightarrow> nat \<Rightarrow> hub \<times> clients \<Rightarrow> hub \<times> clients" where
  "addClient docID r = (\<lambda>(h, cs).
     let h1 = (case hub_sessions h docID of
           None \<Rightarrow> h\<lparr>
             hub_sessions := (hub_sessions h)(docID \<mapsto> \<lparr>sess_clients = [r], sess_keys = []\<rparr>),
             hub_hooks := removeIf (\<lambda>event. wh_name event = ''idle-session''
                                        \<and> wh_documentID event = docID) (hub_hooks h)\<rparr>
         | Some s \<Rightarrow> h\<lparr>hub_sessions := (hub_sessions h)(docID \<mapsto>
             s\<lparr>sess_clients := sess_clients s @ [r]\<rparr>)\<rparr>)
     in (case cs r of
           None \<Rightarrow> h1
         | Some c \<Rightarrow> swarm_notify (NotifyClientAddRemove docID (cl_id c) (cl_lastEnd c) True) h1,
         cs))"

text \<open>The index of the first client of that id, and its removal by moving the last one there.\<close>

fun find_client :: "clients \<Rightarrow> string \<Rightarrow> nat list \<Rightarrow> nat option" where
  "find_client cs i [] = None"
| "find_client cs i (r # rs) =
     (if id_of cs r = Some i then Some 0 else map_option Suc (find_client cs i rs))"

definition swap_remove :: "nat \<Rightarrow> 'a list \<Rightarrow> 'a list" where
  "swap_remove i list = take (length list - 1) (list[i := list ! (length list - 1)])"

text \<open>
  The loop over the keys of the leaving client: what is kept, in order, and what is removed,
  as a key of the next version with no value.
\<close>

definition kept_keys :: "string \<Rightarrow> clientKey list \<Rightarrow> clientKey list" where
  "kept_keys clientID keys = filter (\<lambda>k. ck_owner k \<noteq> clientID) keys"

definition removed_keys :: "string \<Rightarrow> clientKey list \<Rightarrow> Key list" where
  "removed_keys clientID keys =
     map (\<lambda>k. (ck_Key k)\<lparr>key_Value := [], key_Version := key_Version (ck_Key k) + 1\<rparr>)
       (filter (\<lambda>k. ck_owner k = clientID) keys)"

definition idle_event :: "gotime \<Rightarrow> string \<Rightarrow> hub \<Rightarrow> webhookEvent" where
  "idle_event now docID h =
     \<lparr>wh_sendBy = time_add now (10 * second), wh_url = hub_webhookURL h,
      wh_name = ''idle-session'', wh_documentID = docID, wh_username = hub_secretUser h,
      wh_password = hub_secretPassword h\<rparr>"

definition RemoveClient :: "gotime \<Rightarrow> string \<Rightarrow> string \<Rightarrow> hub \<times> clients \<Rightarrow> hub \<times> clients" where
  "RemoveClient now docID clientID = (\<lambda>(h, cs).
     case hub_sessions h docID of
       None \<Rightarrow> (h, cs)
     | Some sess \<Rightarrow>
         let found = find_client cs clientID (sess_clients sess);
             list = (case found of None \<Rightarrow> sess_clients sess
                                 | Some i \<Rightarrow> swap_remove i (sess_clients sess));
             sess' = \<lparr>sess_clients = list, sess_keys = kept_keys clientID (sess_keys sess)\<rparr>;
             removed = removed_keys clientID (sess_keys sess);
             h1 = (if found \<noteq> None \<and> list = []
                   then let h0 = h\<lparr>hub_sessions := (hub_sessions h)(docID := None)\<rparr>
                        in if hub_webhookURL h \<noteq> []
                           then h0\<lparr>hub_hooks := add_event (idle_event now docID h) (hub_hooks h)\<rparr>
                           else h0
                   else h\<lparr>hub_sessions := (hub_sessions h)(docID \<mapsto> sess')\<rparr>);
             cs1 = (if removed \<noteq> [] then each_client (notifyKeysUpdated removed) list cs else cs);
             h2 = (if \<not> isRemoteID clientID
                   then swarm_notify (NotifyClientAddRemove docID clientID 0 False) h1 else h1)
         in (h2, cs1))"

section \<open>Changes to a document and its keys\<close>

definition hub_Append :: "string \<Rightarrow> string \<Rightarrow> u64 \<Rightarrow> bytes \<Rightarrow> hub \<times> clients \<Rightarrow> hub \<times> clients" where
  "hub_Append docID source offset data = (\<lambda>(h, cs).
     case hub_sessions h docID of
       None \<Rightarrow> (h, cs)
     | Some sess \<Rightarrow>
         (if \<not> isRemoteID source then swarm_notify (NotifyAppend docID offset data) h else h,
          each_client (unless_id source (enqueueAppend data offset)) (sess_clients sess) cs))"

definition hub_Broadcast :: "string \<Rightarrow> string \<Rightarrow> bytes \<Rightarrow> hub \<times> clients \<Rightarrow> hub \<times> clients" where
  "hub_Broadcast docID sourceID data = (\<lambda>(h, cs).
     case hub_sessions h docID of
       None \<Rightarrow> (h, cs)
     | Some sess \<Rightarrow>
         (if \<not> isRemoteID sourceID then swarm_notify (NotifyBroadcast docID data) h else h,
          each_client (unless_id sourceID (enqueueBroadcast data)) (sess_clients sess) cs))"

definition SetSessionKey :: "string \<Rightarrow> string \<Rightarrow> Key \<Rightarrow> hub \<times> clients \<Rightarrow> hub \<times> clients" where
  "SetSessionKey docID sourceID key = (\<lambda>(h, cs).
     case hub_sessions h docID of
       None \<Rightarrow> (h, cs)
     | Some sess \<Rightarrow>
         (if \<not> isRemoteID sourceID
          then swarm_notify (NotifyKeyUpdated docID sourceID (key_Name key) (key_Value key) True) h
          else h,
          each_client (unless_id sourceID (notifyKeysUpdated [key])) (sess_clients sess) cs))"

text \<open>
  The loop of \<open>SetClientKey\<close> over the keys: the first key of that name is replaced if its
  version is the old one (\<open>Some (Inr keys)\<close>), or the call is rejected (\<open>Some (Inl ())\<close>).
  \<open>None\<close>: there is no such key.
\<close>

fun replace_key :: "string \<Rightarrow> int \<Rightarrow> clientKey \<Rightarrow> clientKey list \<Rightarrow> (unit + clientKey list) option" where
  "replace_key name oldVersion newKey [] = None"
| "replace_key name oldVersion newKey (k # ks) =
     (if key_Name (ck_Key k) = name
      then if key_Version (ck_Key k) = oldVersion then Some (Inr (newKey # ks)) else Some (Inl ())
      else map_option (map_sum id (\<lambda>ks'. k # ks')) (replace_key name oldVersion newKey ks))"

definition SetClientKey ::
    "string \<Rightarrow> string \<Rightarrow> int \<Rightarrow> int \<Rightarrow> string \<Rightarrow> string \<Rightarrow> hub \<times> clients \<Rightarrow> (hub \<times> clients) \<times> bool" where
  "SetClientKey docID sourceID oldVersion newVersion name val = (\<lambda>(h, cs).
     let newKey = \<lparr>ck_Key = \<lparr>key_Version = newVersion, key_Name = name, key_Value = val\<rparr>,
                   ck_owner = sourceID\<rparr>
     in case hub_sessions h docID of
          None \<Rightarrow> ((h, cs), False)
        | Some sess \<Rightarrow>
            (case replace_key name oldVersion newKey (sess_keys sess) of
               Some (Inl _) \<Rightarrow> ((h, cs), False)
             | r \<Rightarrow>
                 let keys' = (case r of
                       Some (Inr ks) \<Rightarrow> Some ks
                     | _ \<Rightarrow> if oldVersion = 0 then Some (sess_keys sess @ [newKey]) else None);
                     h1 = (case keys' of
                         None \<Rightarrow> h
                       | Some ks \<Rightarrow> h\<lparr>hub_sessions := (hub_sessions h)(docID \<mapsto> sess\<lparr>sess_keys := ks\<rparr>)\<rparr>);
                     cs1 = (if keys' \<noteq> None
                            then each_client (unless_id sourceID (notifyKeysUpdated [ck_Key newKey]))
                                   (sess_clients sess) cs
                            else cs);
                     h2 = (if \<not> isRemoteID sourceID
                           then swarm_notify (NotifyKeyUpdated docID sourceID name val False) h1
                           else h1)
                 in ((h2, cs1), keys' \<noteq> None)))"

text \<open>
  A document without a session is a nil pointer, on which the loop over its keys panics. It
  would be the goroutine of the hub that panics, and the whole process that ends. It does not
  happen: the only call comes after \<open>addClient\<close> for the same document, so that the session is
  there (lemma \<open>join_session_eq\<close>).
\<close>

definition getClientKeys :: "string \<Rightarrow> hub \<Rightarrow> Key list outcome" where
  "getClientKeys docID h =
     (case hub_sessions h docID of
        None \<Rightarrow> Panic
      | Some sess \<Rightarrow> Ok (map ck_Key (sess_keys sess)))"

section \<open>Operations on every session\<close>

text \<open>
  Go visits a map in an order it chooses: \<open>order\<close> is the order in which a loop visits the
  sessions.
\<close>

definition signalDocumentDeleted :: "string \<Rightarrow> hub \<times> clients \<Rightarrow> hub \<times> clients" where
  "signalDocumentDeleted docID = (\<lambda>(h, cs).
     case hub_sessions h docID of
       None \<Rightarrow> (h, cs)
     | Some sess \<Rightarrow> (h, each_client (notifyLostAccess errorDoesNotExist) (sess_clients sess) cs))"

definition change_permissions :: "string \<Rightarrow> string \<Rightarrow> client \<Rightarrow> client" where
  "change_permissions userid permissions c =
     (if cl_userID c = userid then notifyPermissionChange permissions c else c)"

definition updatePermissions ::
    "string list \<Rightarrow> string \<Rightarrow> string \<Rightarrow> hub \<times> clients \<Rightarrow> hub \<times> clients" where
  "updatePermissions order userid permissions = (\<lambda>(h, cs).
     (h, fold (\<lambda>docID cs'. case hub_sessions h docID of
             None \<Rightarrow> cs'
           | Some sess \<Rightarrow> each_client (change_permissions userid permissions) (sess_clients sess) cs')
           order cs))"

text \<open>\<open>EachKey\<close> and \<open>EachClient\<close>: the calls made of the function passed to them.\<close>

definition EachKey :: "string list \<Rightarrow> hub \<Rightarrow> (string \<times> string \<times> string \<times> string \<times> bool) list" where
  "EachKey order h = concat (map (\<lambda>docID. case hub_sessions h docID of
       None \<Rightarrow> []
     | Some sess \<Rightarrow> map (\<lambda>k. (docID, ck_owner k, key_Name (ck_Key k), key_Value (ck_Key k), False))
                     (sess_keys sess)) order)"

definition EachClient :: "string list \<Rightarrow> hub \<times> clients \<Rightarrow> (string \<times> string \<times> u64) list" where
  "EachClient order = (\<lambda>(h, cs). concat (map (\<lambda>docID. case hub_sessions h docID of
       None \<Rightarrow> []
     | Some sess \<Rightarrow> List.map_filter (\<lambda>r. map_option (\<lambda>c. (docID, cl_id c, cl_lastEnd c)) (cs r))
                     (sess_clients sess)) order))"

definition countClients :: "string list \<Rightarrow> hub \<Rightarrow> nat" where
  "countClients order h = sum_list (map (\<lambda>docID. case hub_sessions h docID of
       None \<Rightarrow> 0 | Some sess \<Rightarrow> length (sess_clients sess)) order)"

definition CheckMissedUpdate :: "string \<Rightarrow> bytes \<Rightarrow> Key list \<Rightarrow> hub \<times> clients \<Rightarrow> hub \<times> clients" where
  "CheckMissedUpdate docid doc keys = (\<lambda>(h, cs).
     case hub_sessions h docid of
       None \<Rightarrow> (h, cs)
     | Some sess \<Rightarrow>
         (h, each_client (\<lambda>c. notifyKeysUpdated keys (if doc \<noteq> [] then enqueueAppend doc 0 c else c))
               (sess_clients sess) cs))"

section \<open>The store\<close>

lemma each_client_Nil [simp]: "each_client f [] cs = cs"
  by (simp add: each_client_def)

lemma upd_client_apply: "upd_client f r cs q = (if q = r then map_option f (cs r) else cs q)"
  by (simp add: upd_client_def split: option.splits)

lemma each_client_apply:
  "distinct rs \<Longrightarrow> each_client f rs cs q = (if q \<in> set rs then map_option f (cs q) else cs q)"
  unfolding each_client_def
  by (induction rs arbitrary: cs) (auto simp: upd_client_apply)

lemma each_client_None [simp]: "each_client f rs cs q = None \<longleftrightarrow> cs q = None"
  unfolding each_client_def
  by (induction rs arbitrary: cs) (auto simp: upd_client_apply)

text \<open>Methods that keep a client's identity and document.\<close>

definition keeps_identity :: "(client \<Rightarrow> client) \<Rightarrow> bool" where
  "keeps_identity f \<longleftrightarrow> (\<forall>c. cl_id (f c) = cl_id c \<and> cl_docID (f c) = cl_docID c)"

lemma each_client_identity:
  assumes "keeps_identity f" and "each_client f rs cs q = Some c'"
  shows "\<exists>c. cs q = Some c \<and> cl_id c = cl_id c' \<and> cl_docID c = cl_docID c'"
  using assms unfolding each_client_def
  by (induction rs arbitrary: cs) (fastforce simp: upd_client_apply keeps_identity_def split: if_splits)+

lemma each_client_identity':
  assumes "keeps_identity f" and "cs q = Some c"
  shows "\<exists>c'. each_client f rs cs q = Some c' \<and> cl_id c' = cl_id c \<and> cl_docID c' = cl_docID c"
  using each_client_identity [OF assms(1), of rs cs q] assms(2)
  by (cases "each_client f rs cs q") auto

lemma id_of_each_client [simp]: "keeps_identity f \<Longrightarrow> id_of (each_client f rs cs) q = id_of cs q"
  using each_client_identity [of f rs cs q]
  by (cases "each_client f rs cs q"; cases "cs q") (auto simp: id_of_def)

lemma keeps_identity_methods [simp, intro]:
  "keeps_identity (enqueueAppend d n)" "keeps_identity (enqueueBroadcast d)"
  "keeps_identity (notifyKeysUpdated ks)" "keeps_identity (notifyLostAccess e)"
  "keeps_identity (notifyPermissionChange p)"
  by (simp_all add: keeps_identity_def frame_simps)

lemma keeps_identity_unless [simp, intro]: "keeps_identity f \<Longrightarrow> keeps_identity (unless_id s f)"
  by (simp add: keeps_identity_def unless_id_def)

lemma keeps_identity_change [simp, intro]: "keeps_identity (change_permissions u p)"
  by (simp add: keeps_identity_def change_permissions_def frame_simps)

end
