(* ===== verification/Sessions.thy ===== *)
theory Sessions
  imports Hub "HOL-Library.Multiset"
begin

text \<open>
  What the hub promises. The abstract state of a hub is, for each document, the set of the
  clients connected to it (\<open>members\<close>) and a map from the names of the clients' keys to the
  keys (\<open>shared\<close>). The invariant \<open>hub_ok\<close> ties the lists of the sessions to it, every
  operation of the hub keeps it, and each operation is the plain operation on the abstract
  state. \<open>fan_out\<close> is the contract of the operations that pass something on to the other
  clients of a document.
\<close>

section \<open>Abstract state and invariant\<close>

definition members :: "hub \<Rightarrow> string \<Rightarrow> nat set" where
  "members h d = (case hub_sessions h d of None \<Rightarrow> {} | Some s \<Rightarrow> set (sess_clients s))"

definition key_in :: "string \<Rightarrow> clientKey list \<Rightarrow> clientKey option" where
  "key_in n ks = find (\<lambda>k. key_Name (ck_Key k) = n) ks"

definition shared :: "hub \<Rightarrow> string \<Rightarrow> string \<rightharpoonup> clientKey" where
  "shared h d n = (case hub_sessions h d of None \<Rightarrow> None | Some s \<Rightarrow> key_in n (sess_keys s))"

definition keys_ok :: "nat list \<Rightarrow> clientKey list \<Rightarrow> bool" where
  "keys_ok rs ks \<longleftrightarrow> distinct (map (\<lambda>k. key_Name (ck_Key k)) ks)
     \<and> (\<forall>k\<in>set ks. isRemoteID (ck_owner k) \<or> ck_owner k \<in> idstr ` set rs)"

definition session_ok :: "clients \<Rightarrow> string \<Rightarrow> session \<Rightarrow> bool" where
  "session_ok cs d s \<longleftrightarrow> sess_clients s \<noteq> [] \<and> distinct (sess_clients s)
     \<and> (\<forall>r\<in>set (sess_clients s). \<exists>c. cs r = Some c \<and> cl_docID c = d)
     \<and> keys_ok (sess_clients s) (sess_keys s)"

definition ids_ok :: "clients \<Rightarrow> bool" where
  "ids_ok cs \<longleftrightarrow> (\<forall>r c. cs r = Some c \<longrightarrow> cl_id c = idstr r)"

fun hub_ok :: "hub \<times> clients \<Rightarrow> bool" where
  "hub_ok (h, cs) \<longleftrightarrow> ids_ok cs \<and> (\<forall>d s. hub_sessions h d = Some s \<longrightarrow> session_ok cs d s)"

lemma hub_ok_session: "hub_ok (h, cs) \<Longrightarrow> hub_sessions h d = Some s \<Longrightarrow> session_ok cs d s"
  by simp

lemma hub_ok_newHub: "ids_ok cs \<Longrightarrow> hub_ok (newHub, cs)"
  by (simp add: newHub_def)

lemma idstr_local [simp]: "\<not> isRemoteID (idstr n)"
  using idstr_set [of n] by (auto simp: isRemoteID_def)

lemma idstr_eq [simp]: "idstr n = idstr m \<longleftrightarrow> n = m"
  using idstr_inj by blast

lemma key_in_Some: "key_in n ks = Some k \<Longrightarrow> k \<in> set ks \<and> key_Name (ck_Key k) = n"
  by (auto simp: key_in_def find_Some_iff)

lemma key_in_None: "key_in n ks = None \<longleftrightarrow> n \<notin> (\<lambda>k. key_Name (ck_Key k)) ` set ks"
  by (auto simp: key_in_def find_None_iff)

lemma swarm_sessions [simp]:
  "hub_sessions (swarm_notify x h) = hub_sessions h"
  "hub_hooks (swarm_notify x h) = hub_hooks h"
  "hub_webhookURL (swarm_notify x h) = hub_webhookURL h"
  by (simp_all add: swarm_notify_def)

lemma members_swarm [simp]: "members (swarm_notify x h) = members h"
  by (simp add: members_def fun_eq_iff)

lemma shared_swarm [simp]: "shared (swarm_notify x h) = shared h"
  by (simp add: shared_def fun_eq_iff)

section \<open>The store of clients under the invariant\<close>

lemma ids_ok_each: "ids_ok cs \<Longrightarrow> keeps_identity f \<Longrightarrow> ids_ok (each_client f rs cs)"
  unfolding ids_ok_def using each_client_identity [of f rs cs] by metis

lemma session_ok_each:
  "session_ok cs d s \<Longrightarrow> keeps_identity f \<Longrightarrow> session_ok (each_client f rs cs) d s"
  unfolding session_ok_def using each_client_identity' [of f cs _ _ rs] by metis

lemma hub_ok_each:
  "hub_ok (h, cs) \<Longrightarrow> keeps_identity f \<Longrightarrow> hub_ok (h, each_client f rs cs)"
  by (simp add: ids_ok_each session_ok_each)

lemma hub_ok_cong: "hub_sessions h' = hub_sessions h \<Longrightarrow> hub_ok (h', cs) = hub_ok (h, cs)"
  by simp

lemma hub_ok_upd:
  "hub_ok (h, cs) \<Longrightarrow> hub_sessions h' = (hub_sessions h)(d := so) \<Longrightarrow>
   (\<And>s. so = Some s \<Longrightarrow> session_ok cs d s) \<Longrightarrow> hub_ok (h', cs)"
  by (auto split: if_splits)

section \<open>Passing something on to the other clients\<close>

locale fan_out =
  fixes run :: "hub \<times> clients \<Rightarrow> hub \<times> clients"
    and docID source :: string
    and f :: "client \<Rightarrow> client"
  assumes f_identity: "keeps_identity f"
    and run_sessions: "hub_sessions (fst (run (h, cs))) = hub_sessions h"
    and run_clients: "snd (run (h, cs)) =
      (case hub_sessions h docID of
         None \<Rightarrow> cs
       | Some s \<Rightarrow> each_client (unless_id source f) (sess_clients s) cs)"
begin

lemma ok: "hub_ok (h, cs) \<Longrightarrow> hub_ok (run (h, cs))"
  using run_sessions [of h cs] run_clients [of h cs] f_identity
  by (cases "run (h, cs)"; cases "hub_sessions h docID")
    (simp_all add: ids_ok_each session_ok_each)

lemma members_same: "members (fst (run (h, cs))) = members h"
  by (simp add: members_def run_sessions fun_eq_iff)

lemma shared_same: "shared (fst (run (h, cs))) = shared h"
  by (simp add: shared_def run_sessions fun_eq_iff)

text \<open>Exactly the members other than the source are reached, each once.\<close>

lemma client_after:
  assumes "hub_ok (h, cs)" and "cs r = Some c"
  shows "snd (run (h, cs)) r =
    Some (if r \<in> members h docID \<and> idstr r \<noteq> source then f c else c)"
proof (cases "hub_sessions h docID")
  case None
  then show ?thesis by (simp add: run_clients members_def assms(2))
next
  case (Some s)
  have "distinct (sess_clients s)" "cl_id c = idstr r"
    using assms Some by (auto simp: session_ok_def ids_ok_def)
  then show ?thesis
    by (simp add: run_clients members_def Some each_client_apply unless_id_def assms(2))
qed

lemma absent_after: "cs r = None \<Longrightarrow> snd (run (h, cs)) r = None"
  by (simp add: run_clients split: option.splits)

end

interpretation append: fan_out "hub_Append d s n data" d s "enqueueAppend data n" for d s n data
  by unfold_locales (auto simp: hub_Append_def split: option.splits)

interpretation broadcast: fan_out "hub_Broadcast d s data" d s "enqueueBroadcast data" for d s data
  by unfold_locales (auto simp: hub_Broadcast_def split: option.splits)

interpretation session_key: fan_out "SetSessionKey d s key" d s "notifyKeysUpdated [key]" for d s key
  by unfold_locales (auto simp: SetSessionKey_def split: option.splits)

section \<open>Joining\<close>

lemma addClient_sessions:
  "hub_sessions (fst (addClient d r (h, cs))) = (hub_sessions h)(d \<mapsto>
     (case hub_sessions h d of
        None \<Rightarrow> \<lparr>sess_clients = [r], sess_keys = []\<rparr>
      | Some s \<Rightarrow> s\<lparr>sess_clients := sess_clients s @ [r]\<rparr>))"
  "snd (addClient d r (h, cs)) = cs"
  by (auto simp: addClient_def Let_def split: option.splits)

lemma addClient_members:
  "members (fst (addClient d r (h, cs))) = (members h)(d := insert r (members h d))"
  by (auto simp: members_def addClient_sessions fun_eq_iff split: option.splits)

lemma addClient_shared: "shared (fst (addClient d r (h, cs))) = shared h"
  by (auto simp: shared_def addClient_sessions key_in_def fun_eq_iff split: option.splits)

lemma addClient_ok:
  assumes "hub_ok (h, cs)" and "cs r = Some c" and "cl_docID c = d" and "r \<notin> members h d"
  shows "hub_ok (addClient d r (h, cs))"
proof -
  obtain h' where h': "addClient d r (h, cs) = (h', cs)"
    using addClient_sessions(2) [of d r h cs] by (cases "addClient d r (h, cs)") auto
  let ?s = "case hub_sessions h d of None \<Rightarrow> \<lparr>sess_clients = [r], sess_keys = []\<rparr>
      | Some s \<Rightarrow> s\<lparr>sess_clients := sess_clients s @ [r]\<rparr>"
  have "session_ok cs d ?s"
    using assms by (auto simp: session_ok_def keys_ok_def members_def split: option.splits)
  then show ?thesis
    using addClient_sessions(1) [of d r h cs] assms(1) by (auto simp: h' intro!: hub_ok_upd)
qed

section \<open>Leaving\<close>

lemma find_client_ids:
  assumes "ids_ok cs" and "\<forall>q\<in>set rs. cs q \<noteq> None"
  shows "find_client cs (idstr r) rs = index_of r rs"
  using assms(2)
proof (induction rs)
  case (Cons q rs)
  from Cons.prems obtain c where c: "cs q = Some c" by auto
  with assms(1) have "id_of cs q = Some (idstr q)"
    by (simp add: id_of_def ids_ok_def)
  with Cons show ?case by simp
qed simp

text \<open>Moving the last element into the place of the removed one.\<close>

lemma swap_remove_mset:
  assumes "i < length xs"
  shows "mset (swap_remove i xs) = mset xs - {#xs ! i#}"
proof -
  let ?n = "length xs - 1"
  let ?ys = "xs[i := xs ! ?n]"
  have n: "?n < length ?ys" and last: "?ys ! ?n = xs ! ?n"
    using assms by (auto simp: nth_list_update)
  have "?ys = take ?n ?ys @ [?ys ! ?n]"
    using take_Suc_conv_app_nth [OF n] n assms by (metis Suc_diff_1 length_list_update
        length_pos_if_in_set nth_mem take_all_iff order_refl)
  from arg_cong [OF this, of mset, unfolded last]
  have "mset ?ys = add_mset (xs ! ?n) (mset (swap_remove i xs))"
    by (simp only: swap_remove_def mset_append mset.simps union_mset_add_mset_right add_0_right)
  moreover have "mset ?ys = add_mset (xs ! ?n) (mset xs - {#xs ! i#})"
    using assms by (rule mset_update)
  ultimately show ?thesis by simp
qed

lemma swap_remove_distinct:
  assumes "distinct xs" and "i < length xs"
  shows "distinct (swap_remove i xs)" and "set (swap_remove i xs) = set xs - {xs ! i}"
proof -
  have eq: "mset (swap_remove i xs) = mset (remove1 (xs ! i) xs)"
    using swap_remove_mset [OF assms(2)] by simp
  show "distinct (swap_remove i xs)"
    using mset_eq_imp_distinct_iff [OF eq] assms(1) by (simp add: distinct_remove1)
  show "set (swap_remove i xs) = set xs - {xs ! i}"
    using mset_eq_setD [OF eq] assms(1) by simp
qed

text \<open>What \<open>RemoveClient\<close> does to the session, whether or not it has the client.\<close>

lemma RemoveClient_session:
  assumes ok: "hub_ok (h, cs)" and s: "hub_sessions h d = Some s"
  obtains h' list where
    "RemoveClient now d (idstr r) (h, cs) =
       (h', if removed_keys (idstr r) (sess_keys s) \<noteq> []
            then each_client (notifyKeysUpdated (removed_keys (idstr r) (sess_keys s))) list cs else cs)"
    and "distinct list" and "set list = set (sess_clients s) - {r}"
    and "list = [] \<longleftrightarrow> members h d - {r} = {}"
    and "hub_sessions h' = (hub_sessions h)(d := if list = [] then None
           else Some \<lparr>sess_clients = list, sess_keys = kept_keys (idstr r) (sess_keys s)\<rparr>)"
    and "hub_hooks h' = (if list = [] \<and> hub_webhookURL h \<noteq> []
           then add_event (idle_event now d h) (hub_hooks h) else hub_hooks h)"
proof -
  have m: "members h d = set (sess_clients s)" by (simp add: members_def s)
  have so: "session_ok cs d s" using ok s by (rule hub_ok_session)
  then have found: "find_client cs (idstr r) (sess_clients s) = index_of r (sess_clients s)"
    using ok by (intro find_client_ids) (auto simp: session_ok_def)
  show thesis
  proof (cases "index_of r (sess_clients s)")
    case None
    then have "r \<notin> set (sess_clients s)" by (simp add: index_of_None)
    with that [of _ "sess_clients s"] None so show thesis
      by (simp add: RemoveClient_def s found Let_def session_ok_def m flip: set_empty)
  next
    case (Some i)
    let ?list = "swap_remove i (sess_clients s)"
    have "distinct ?list" "set ?list = set (sess_clients s) - {r}"
      using swap_remove_distinct [of "sess_clients s" i] index_of_nth [OF Some] so
      by (simp_all add: session_ok_def)
    moreover from this(2) have "?list = [] \<longleftrightarrow> members h d - {r} = {}"
      by (metis m set_empty)
    ultimately show thesis
      using that [of _ ?list] Some by (simp add: RemoveClient_def s found Let_def split: if_splits)
  qed
qed

lemma RemoveClient_no_session:
  "hub_sessions h d = None \<Longrightarrow> RemoveClient now d i (h, cs) = (h, cs)"
  by (simp add: RemoveClient_def)

lemma kept_keys_ok:
  "keys_ok rs ks \<Longrightarrow> set list = set rs - {r} \<Longrightarrow> keys_ok list (kept_keys (idstr r) ks)"
  by (auto simp: keys_ok_def kept_keys_def distinct_map_filter)

lemma RemoveClient_ok:
  assumes ok: "hub_ok (h, cs)"
  shows "hub_ok (RemoveClient now d (idstr r) (h, cs))"
proof (cases "hub_sessions h d")
  case None
  then show ?thesis using ok by (simp only: RemoveClient_no_session)
next
  case (Some s)
  show ?thesis
  proof (rule RemoveClient_session [OF ok Some, of now r])
    fix h' list
    let ?rem = "removed_keys (idstr r) (sess_keys s)"
    assume e: "RemoveClient now d (idstr r) (h, cs) =
         (h', if ?rem \<noteq> [] then each_client (notifyKeysUpdated ?rem) list cs else cs)"
      and l: "distinct list" "set list = set (sess_clients s) - {r}"
      and h': "hub_sessions h' = (hub_sessions h)(d := if list = [] then None
           else Some \<lparr>sess_clients = list, sess_keys = kept_keys (idstr r) (sess_keys s)\<rparr>)"
    have so: "session_ok cs d s" using ok Some by (rule hub_ok_session)
    have "hub_ok (h', cs)"
      using so l kept_keys_ok [of "sess_clients s" "sess_keys s" list r]
      by (intro hub_ok_upd [OF ok h']) (auto simp: session_ok_def split: if_splits)
    then show ?thesis
      using hub_ok_each [of h' cs "notifyKeysUpdated ?rem" list] by (auto simp only: e keeps_identity_methods split: if_split)
  qed
qed

lemma key_in_filter:
  "distinct (map (\<lambda>k. key_Name (ck_Key k)) ks) \<Longrightarrow>
   key_in n (filter P ks) = (case key_in n ks of None \<Rightarrow> None | Some k \<Rightarrow> if P k then Some k else None)"
proof (induction ks)
  case (Cons a ks)
  then have "key_in (key_Name (ck_Key a)) ks = None"
    by (auto simp: key_in_None)
  with Cons show ?case by (auto simp: key_in_def split: option.splits)
qed (simp add: key_in_def)

lemma RemoveClient_members:
  assumes "hub_ok (h, cs)"
  shows "members (fst (RemoveClient now d (idstr r) (h, cs))) = (members h)(d := members h d - {r})"
proof (cases "hub_sessions h d")
  case None
  then show ?thesis by (simp add: RemoveClient_no_session members_def fun_eq_iff)
next
  case (Some s)
  show ?thesis
    by (rule RemoveClient_session [OF assms Some, of now r])
      (use Some in \<open>auto simp: members_def fun_eq_iff\<close>)
qed

lemma RemoveClient_shared:
  assumes "hub_ok (h, cs)"
  shows "shared (fst (RemoveClient now d (idstr r) (h, cs))) = (shared h)(d :=
    (\<lambda>n. if members h d - {r} = {} then None
         else case shared h d n of
           None \<Rightarrow> None | Some k \<Rightarrow> if ck_owner k = idstr r then None else Some k))"
proof (cases "hub_sessions h d")
  case None
  then show ?thesis by (simp add: RemoveClient_no_session members_def shared_def fun_eq_iff)
next
  case (Some s)
  have d: "distinct (map (\<lambda>k. key_Name (ck_Key k)) (sess_keys s))"
    using hub_ok_session [OF assms Some] by (simp add: session_ok_def keys_ok_def)
  show ?thesis
    by (rule RemoveClient_session [OF assms Some, of now r])
      (use Some in \<open>auto simp: members_def shared_def kept_keys_def key_in_filter [OF d] fun_eq_iff
         split: option.splits\<close>)
qed

section \<open>Setting a client key\<close>

lemma map_sum_eq:
  "map_sum f g z = Inr y \<longleftrightarrow> (\<exists>x. z = Inr x \<and> y = g x)"
  "map_sum f g z = Inl u \<longleftrightarrow> (\<exists>x. z = Inl x \<and> u = f x)"
  by (cases z; auto)+

lemma key_in_append:
  "key_in m (ks @ [k]) = (case key_in m ks of
     None \<Rightarrow> if key_Name (ck_Key k) = m then Some k else None | Some x \<Rightarrow> Some x)"
  by (induction ks) (auto simp: key_in_def)

lemma replace_key_Inr:
  assumes "replace_key n v new ks = Some (Inr ks')" and "key_Name (ck_Key new) = n"
  shows "map (\<lambda>k. key_Name (ck_Key k)) ks' = map (\<lambda>k. key_Name (ck_Key k)) ks
    \<and> set ks' \<subseteq> insert new (set ks) \<and> (\<forall>m. key_in m ks' = (if m = n then Some new else key_in m ks))
    \<and> (\<exists>k. key_in n ks = Some k \<and> key_Version (ck_Key k) = v)"
  using assms
proof (induction ks arbitrary: ks')
  case (Cons k ks)
  show ?case
  proof (cases "key_Name (ck_Key k) = n")
    case True
    with Cons.prems show ?thesis by (auto simp: key_in_def split: if_splits)
  next
    case False
    with Cons.prems obtain ks1 where ks1: "replace_key n v new ks = Some (Inr ks1)" "ks' = k # ks1"
      by (auto simp: map_sum_eq)
    with Cons.IH [OF ks1(1) Cons.prems(2)] False Cons.prems(2) show ?thesis
      by (auto simp: key_in_def)
  qed
qed simp

lemma replace_key_Inl:
  "replace_key n v new ks = Some (Inl u) \<Longrightarrow> \<exists>k. key_in n ks = Some k \<and> key_Version (ck_Key k) \<noteq> v"
  by (induction ks) (auto simp: key_in_def map_sum_eq split: if_splits)

lemma replace_key_None: "replace_key n v new ks = None \<longleftrightarrow> key_in n ks = None"
  by (induction ks) (auto simp: key_in_def)

text \<open>The key that \<open>SetClientKey\<close> stores, and the test that decides.\<close>

definition client_key :: "string \<Rightarrow> int \<Rightarrow> string \<Rightarrow> string \<Rightarrow> clientKey" where
  "client_key src newVersion n v =
     \<lparr>ck_Key = \<lparr>key_Version = newVersion, key_Name = n, key_Value = v\<rparr>, ck_owner = src\<rparr>"

definition key_accepted :: "hub \<Rightarrow> string \<Rightarrow> int \<Rightarrow> string \<Rightarrow> bool" where
  "key_accepted h d oldVersion n \<longleftrightarrow> hub_sessions h d \<noteq> None \<and>
     (case shared h d n of None \<Rightarrow> oldVersion = 0 | Some k \<Rightarrow> key_Version (ck_Key k) = oldVersion)"

lemma SetClientKey_rejected:
  assumes "\<not> key_accepted h d old n"
  shows "\<exists>h'. SetClientKey d src old new n v (h, cs) = ((h', cs), False)
    \<and> hub_sessions h' = hub_sessions h \<and> hub_hooks h' = hub_hooks h"
proof (cases "hub_sessions h d")
  case None
  then show ?thesis by (simp add: SetClientKey_def)
next
  case (Some s)
  then show ?thesis
    using assms replace_key_None [of n old "client_key src new n v" "sess_keys s"]
      replace_key_Inr [of n old "client_key src new n v" "sess_keys s"]
    by (auto simp: SetClientKey_def key_accepted_def shared_def Let_def client_key_def
        split: option.splits sum.splits)
qed

lemma SetClientKey_accepted:
  assumes ok: "hub_ok (h, cs)" and acc: "key_accepted h d old n" and s: "hub_sessions h d = Some s"
  obtains h' ks where
    "SetClientKey d src old new n v (h, cs) = ((h', each_client
       (unless_id src (notifyKeysUpdated [ck_Key (client_key src new n v)])) (sess_clients s) cs), True)"
    and "hub_sessions h' = (hub_sessions h)(d \<mapsto> s\<lparr>sess_keys := ks\<rparr>)" and "hub_hooks h' = hub_hooks h"
    and "\<forall>m. key_in m ks = (if m = n then Some (client_key src new n v) else key_in m (sess_keys s))"
    and "set ks \<subseteq> insert (client_key src new n v) (set (sess_keys s))"
    and "distinct (map (\<lambda>k. key_Name (ck_Key k)) ks)"
proof -
  let ?new = "client_key src new n v"
  have d: "distinct (map (\<lambda>k. key_Name (ck_Key k)) (sess_keys s))"
    using hub_ok_session [OF ok s] by (simp add: session_ok_def keys_ok_def)
  show thesis
  proof (cases "replace_key n old ?new (sess_keys s)")
    case None
    then have none: "key_in n (sess_keys s) = None" by (simp add: replace_key_None)
    then have "\<forall>m. key_in m (sess_keys s @ [?new]) = (if m = n then Some ?new else key_in m (sess_keys s))"
      by (simp add: key_in_append client_key_def split: option.splits)
    moreover have "distinct (map (\<lambda>k. key_Name (ck_Key k)) (sess_keys s @ [?new]))"
      using d none by (simp add: key_in_None client_key_def)
    ultimately show thesis
      using that [of _ "sess_keys s @ [?new]"] None acc s none
      by (simp add: SetClientKey_def key_accepted_def shared_def Let_def flip: client_key_def)
  next
    case (Some res)
    then obtain ks where ks: "replace_key n old ?new (sess_keys s) = Some (Inr ks)"
      using acc s replace_key_Inl [of n old ?new "sess_keys s"]
      by (cases res) (auto simp: key_accepted_def shared_def)
    have "key_Name (ck_Key ?new) = n" by (simp add: client_key_def)
    from replace_key_Inr [OF ks this] d show thesis
      using that [of _ ks] ks s by (simp add: SetClientKey_def Let_def flip: client_key_def)
  qed
qed

lemma SetClientKey_ok:
  assumes ok: "hub_ok (h, cs)" and src: "isRemoteID src \<or> (\<exists>r\<in>members h d. src = idstr r)"
  shows "hub_ok (fst (SetClientKey d src old new n v (h, cs)))"
proof (cases "key_accepted h d old n")
  case False
  then show ?thesis
    using SetClientKey_rejected [of h d old n src new v cs] ok by auto
next
  case True
  then obtain s where s: "hub_sessions h d = Some s" by (auto simp: key_accepted_def)
  have so: "session_ok cs d s" using ok s by (rule hub_ok_session)
  show ?thesis
  proof (rule SetClientKey_accepted [OF ok True s, of src new v])
    fix h' ks
    let ?f = "unless_id src (notifyKeysUpdated [ck_Key (client_key src new n v)])"
    assume e: "SetClientKey d src old new n v (h, cs) = ((h', each_client ?f (sess_clients s) cs), True)"
      and h': "hub_sessions h' = (hub_sessions h)(d \<mapsto> s\<lparr>sess_keys := ks\<rparr>)"
      and ks: "set ks \<subseteq> insert (client_key src new n v) (set (sess_keys s))"
        "distinct (map (\<lambda>k. key_Name (ck_Key k)) ks)"
    have "keys_ok (sess_clients s) ks"
      using so ks src s by (auto simp: session_ok_def keys_ok_def client_key_def members_def)
    then have "hub_ok (h', cs)"
      using so by (intro hub_ok_upd [OF ok h']) (auto simp: session_ok_def)
    then have "hub_ok (h', each_client ?f (sess_clients s) cs)"
      by (rule hub_ok_each) simp
    then show ?thesis by (simp only: e fst_conv)
  qed
qed

section \<open>The other operations\<close>

lemma fold_each_ok:
  "hub_ok (h, cs) \<Longrightarrow> keeps_identity f \<Longrightarrow>
   hub_ok (h, fold (\<lambda>d cs'. case hub_sessions h d of None \<Rightarrow> cs'
      | Some s \<Rightarrow> each_client f (sess_clients s) cs') order cs)"
proof (induction order arbitrary: cs)
  case (Cons d order)
  have "hub_ok (h, case hub_sessions h d of None \<Rightarrow> cs | Some s \<Rightarrow> each_client f (sess_clients s) cs)"
    using hub_ok_each [OF Cons.prems(1,2)] Cons.prems(1) by (auto split: option.splits)
  from Cons.IH [OF this Cons.prems(2)] show ?case by simp
qed simp

lemma updatePermissions_ok: "hub_ok (h, cs) \<Longrightarrow> hub_ok (updatePermissions order u p (h, cs))"
  using fold_each_ok [of h cs "change_permissions u p" order] by (simp add: updatePermissions_def)

lemma signalDocumentDeleted_ok: "hub_ok (h, cs) \<Longrightarrow> hub_ok (signalDocumentDeleted d (h, cs))"
  using hub_ok_each [of h cs "notifyLostAccess errorDoesNotExist"]
  by (auto simp: signalDocumentDeleted_def split: option.splits)

lemma keeps_identity_missed:
  "keeps_identity (\<lambda>c. notifyKeysUpdated keys (if doc \<noteq> [] then enqueueAppend doc 0 c else c))"
  by (simp add: keeps_identity_def frame_simps)

lemma CheckMissedUpdate_ok: "hub_ok (h, cs) \<Longrightarrow> hub_ok (CheckMissedUpdate d doc keys (h, cs))"
  using hub_ok_each [OF _ keeps_identity_missed, of h cs]
  by (auto simp: CheckMissedUpdate_def split: option.splits)

lemma RemoveClient_remote:
  assumes ok: "hub_ok (h, cs)" and i: "isRemoteID i"
  shows "hub_ok (RemoveClient now d i (h, cs)) \<and> members (fst (RemoveClient now d i (h, cs))) = members h
    \<and> hub_hooks (fst (RemoveClient now d i (h, cs))) = hub_hooks h"
proof (cases "hub_sessions h d")
  case None
  then show ?thesis using ok by (simp only: RemoveClient_no_session) simp
next
  case (Some s)
  have so: "session_ok cs d s" using ok Some by (rule hub_ok_session)
  have "find_client cs i rs = None" for rs
    using ok i by (induction rs) (auto simp: id_of_def ids_ok_def)
  then obtain h' where h': "RemoveClient now d i (h, cs) =
      (h', if removed_keys i (sess_keys s) \<noteq> []
           then each_client (notifyKeysUpdated (removed_keys i (sess_keys s))) (sess_clients s) cs else cs)"
    and s': "hub_sessions h' = (hub_sessions h)(d \<mapsto>
      \<lparr>sess_clients = sess_clients s, sess_keys = kept_keys i (sess_keys s)\<rparr>)"
    and "hub_hooks h' = hub_hooks h"
    by (simp add: RemoveClient_def Some Let_def i)
  moreover have "hub_ok (h', cs)"
    using so by (intro hub_ok_upd [OF ok s'])
      (auto simp: session_ok_def keys_ok_def kept_keys_def distinct_map_filter)
  moreover have "members h' = members h"
    by (auto simp: members_def s' Some fun_eq_iff)
  ultimately show ?thesis
    using hub_ok_each [of h' cs "notifyKeysUpdated (removed_keys i (sess_keys s))" "sess_clients s"]
    by simp
qed

section \<open>Reachable states\<close>

text \<open>
  The states of the hub and of the clients under any sequence of calls. A client joins the
  session of its document once, and leaves; its goroutine sets its document before that
  (\<open>Prepare\<close>), and may change its other fields at any time (\<open>Act\<close>). Ids with a dash are of
  clients of other servers. \<open>Hooks\<close> is an iteration of the webhook goroutine.
\<close>

inductive hub_reach :: "hub \<times> clients \<Rightarrow> bool" where
  Start: "hub_reach (newHub, Map.empty)"
| Configure: "hub_reach (h, cs) \<Longrightarrow> hub_reach (setWebhook url user password h, cs)"
| Connect: "hub_reach (h, cs) \<Longrightarrow> cs r = None \<Longrightarrow> hub_reach (h, cs(r \<mapsto> new_client r))"
| Prepare: "hub_reach (h, cs) \<Longrightarrow> cs r = Some c \<Longrightarrow> cl_id c' = cl_id c \<Longrightarrow> \<forall>d. r \<notin> members h d \<Longrightarrow>
    hub_reach (h, cs(r \<mapsto> c'))"
| Act: "hub_reach (h, cs) \<Longrightarrow> keeps_identity f \<Longrightarrow> hub_reach (h, upd_client f r cs)"
| Join: "hub_reach (h, cs) \<Longrightarrow> cs r = Some c \<Longrightarrow> \<forall>d. r \<notin> members h d \<Longrightarrow>
    hub_reach (addClient (cl_docID c) r (h, cs))"
| Leave: "hub_reach (h, cs) \<Longrightarrow> hub_reach (RemoveClient now d (idstr r) (h, cs))"
| Leave_remote: "hub_reach (h, cs) \<Longrightarrow> isRemoteID i \<Longrightarrow> hub_reach (RemoveClient now d i (h, cs))"
| Append: "hub_reach (h, cs) \<Longrightarrow> hub_reach (hub_Append d src offset data (h, cs))"
| Broadcast: "hub_reach (h, cs) \<Longrightarrow> hub_reach (hub_Broadcast d src data (h, cs))"
| Session_key: "hub_reach (h, cs) \<Longrightarrow> hub_reach (SetSessionKey d src key (h, cs))"
| Client_key: "hub_reach (h, cs) \<Longrightarrow> isRemoteID src \<or> (\<exists>r\<in>members h d. src = idstr r) \<Longrightarrow>
    hub_reach (fst (SetClientKey d src old new n v (h, cs)))"
| Deleted: "hub_reach (h, cs) \<Longrightarrow> hub_reach (signalDocumentDeleted d (h, cs))"
| Permissions: "hub_reach (h, cs) \<Longrightarrow> hub_reach (updatePermissions order u p (h, cs))"
| Missed: "hub_reach (h, cs) \<Longrightarrow> hub_reach (CheckMissedUpdate d doc keys (h, cs))"
| Hooks: "hub_reach (h, cs) \<Longrightarrow> hub_reach (h\<lparr>hub_hooks := queue_iteration now (hub_hooks h)\<rparr>, cs)"

lemma members_docID:
  "hub_ok (h, cs) \<Longrightarrow> r \<in> members h d \<Longrightarrow> \<exists>c. cs r = Some c \<and> cl_docID c = d"
  by (auto simp: members_def session_ok_def split: option.splits)

lemma hub_ok_new_client:
  assumes ok: "hub_ok (h, cs)" and c: "cl_id c = idstr r" and r: "\<forall>d. r \<notin> members h d"
  shows "hub_ok (h, cs(r \<mapsto> c))"
proof -
  have "session_ok (cs(r \<mapsto> c)) d s" if "hub_sessions h d = Some s" for d s
    using hub_ok_session [OF ok that] r [rule_format, of d] that
    by (auto simp: session_ok_def members_def)
  with ok c show ?thesis by (auto simp: ids_ok_def)
qed

lemma upd_client_each: "upd_client f r cs = each_client f [r] cs"
  by (simp add: each_client_def)

lemma hub_reach_ok: "hub_reach hc \<Longrightarrow> hub_ok hc"
proof (induction rule: hub_reach.induct)
  case Start
  then show ?case by (intro hub_ok_newHub) (simp add: ids_ok_def)
next
  case (Configure h cs url user password)
  then show ?case by (simp add: setWebhook_def)
next
  case (Connect h cs r)
  then show ?case
    using members_docID [of h cs r] by (intro hub_ok_new_client) (auto simp: new_client_def)
next
  case (Prepare h cs r c c')
  then show ?case by (intro hub_ok_new_client) (auto simp: ids_ok_def)
next
  case (Act h cs f r)
  then show ?case using hub_ok_each [of h cs f "[r]"] by (simp add: upd_client_each)
next
  case (Hooks h cs now)
  then show ?case by simp
qed (blast intro: addClient_ok RemoveClient_ok RemoveClient_remote [THEN conjunct1] append.ok
    broadcast.ok session_key.ok SetClientKey_ok signalDocumentDeleted_ok updatePermissions_ok
    CheckMissedUpdate_ok)+

subsection \<open>Idle sessions\<close>

definition no_idle :: "hub \<Rightarrow> bool" where
  "no_idle h \<longleftrightarrow> (\<forall>e\<in>set (whq_events (hub_hooks h)).
     wh_name e = ''idle-session'' \<longrightarrow> members h (wh_documentID e) = {})"

lemma no_idle_cong:
  "hub_hooks h' = hub_hooks h \<Longrightarrow> members h' = members h \<Longrightarrow> no_idle h \<Longrightarrow> no_idle h'"
  by (simp add: no_idle_def)

lemma hooks_same [simp]:
  "hub_hooks (fst (hub_Append d src offset data (h, cs))) = hub_hooks h"
  "hub_hooks (fst (hub_Broadcast d src data (h, cs))) = hub_hooks h"
  "hub_hooks (fst (SetSessionKey d src key (h, cs))) = hub_hooks h"
  "fst (signalDocumentDeleted d (h, cs)) = h"
  "fst (updatePermissions order u p (h, cs)) = h"
  "fst (CheckMissedUpdate d doc keys (h, cs)) = h"
  by (auto simp: hub_Append_def hub_Broadcast_def SetSessionKey_def signalDocumentDeleted_def
      updatePermissions_def CheckMissedUpdate_def split: option.splits)

lemma SetClientKey_members:
  assumes "hub_ok (h, cs)"
  shows "hub_hooks (fst (fst (SetClientKey d src old new n v (h, cs)))) = hub_hooks h
    \<and> members (fst (fst (SetClientKey d src old new n v (h, cs)))) = members h"
proof (cases "key_accepted h d old n")
  case False
  then show ?thesis
    using SetClientKey_rejected [of h d old n src new v cs] by (auto simp: members_def fun_eq_iff)
next
  case True
  then obtain s where s: "hub_sessions h d = Some s" by (auto simp: key_accepted_def)
  show ?thesis
    by (rule SetClientKey_accepted [OF assms True s, of src new v])
      (use s in \<open>auto simp: members_def fun_eq_iff\<close>)
qed

lemma addClient_no_idle:
  assumes "no_idle h" and ok: "hub_ok (h, cs)"
  shows "no_idle (fst (addClient d r (h, cs)))"
proof (cases "hub_sessions h d")
  case None
  then have "whq_events (hub_hooks (fst (addClient d r (h, cs))))
      = filter (\<lambda>e. \<not> (wh_name e = ''idle-session'' \<and> wh_documentID e = d)) (whq_events (hub_hooks h))"
    by (auto simp: addClient_def Let_def removeIf_filter split: option.splits)
  then show ?thesis
    using assms by (auto simp: no_idle_def addClient_members)
next
  case (Some s)
  then have "hub_hooks (fst (addClient d r (h, cs))) = hub_hooks h"
    by (auto simp: addClient_def Let_def split: option.splits)
  moreover have "members h d \<noteq> {}"
    using hub_ok_session [OF ok Some] Some by (simp add: session_ok_def members_def)
  ultimately show ?thesis
    using assms(1) by (auto simp: no_idle_def addClient_members)
qed

lemma RemoveClient_no_idle:
  assumes "no_idle h" and ok: "hub_ok (h, cs)"
  shows "no_idle (fst (RemoveClient now d (idstr r) (h, cs)))"
proof (cases "hub_sessions h d")
  case None
  then show ?thesis using assms(1) by (simp add: RemoveClient_no_session)
next
  case (Some s)
  note m = RemoveClient_members [OF ok, of now d r]
  show ?thesis
    by (rule RemoveClient_session [OF ok Some, of now r])
      (use assms(1) m in \<open>auto simp: no_idle_def add_event_def idle_event_def split: if_splits\<close>)
qed

lemma hub_reach_no_idle: "hub_reach (h, cs) \<Longrightarrow> no_idle h"
proof (induction "(h, cs)" arbitrary: h cs rule: hub_reach.induct)
  case Start
  then show ?case by (simp add: no_idle_def newHub_def createWebhookQueue_def)
next
  case (Configure h cs url user password)
  then show ?case by (simp add: no_idle_def setWebhook_def members_def)
next
  case (Join h0 cs0 r c)
  then show ?case using addClient_no_idle [of h0 cs0] hub_reach_ok by (metis fst_conv)
next
  case (Leave h0 cs0 now d r)
  then show ?case using RemoveClient_no_idle [of h0 cs0] hub_reach_ok by (metis fst_conv)
next
  case (Leave_remote h0 cs0 i now d)
  then show ?case
    using RemoveClient_remote [OF hub_reach_ok] no_idle_cong by (metis fst_conv)
next
  case (Append h0 cs0 d src offset data)
  then show ?case using append.members_same hooks_same(1) no_idle_cong by (metis fst_conv)
next
  case (Broadcast h0 cs0 d src data)
  then show ?case using broadcast.members_same hooks_same(2) no_idle_cong by (metis fst_conv)
next
  case (Session_key h0 cs0 d src key)
  then show ?case using session_key.members_same hooks_same(3) no_idle_cong by (metis fst_conv)
next
  case (Client_key h0 cs0 src d old new n v)
  then show ?case using SetClientKey_members [OF hub_reach_ok] no_idle_cong by (metis fst_conv)
next
  case (Deleted h0 cs0 d)
  then show ?case using hooks_same(4) by (metis fst_conv)
next
  case (Permissions h0 cs0 order u p)
  then show ?case using hooks_same(5) by (metis fst_conv)
next
  case (Missed h0 cs0 d doc keys)
  then show ?case using hooks_same(6) by (metis fst_conv)
next
  case (Hooks h0 cs0 now)
  then show ?case by (auto simp: no_idle_def members_def queue_iteration_filter)
qed

section \<open>Properties of the hub\<close>

text \<open>
  C11: In every reachable state, a session has at least one client and lists each once; each
  is a client of that document, so no client is in two sessions; the keys of a session have
  distinct names, and each belongs to a client of the session or to another server.
\<close>

theorem hub_sessions_sound:
  assumes "hub_reach (h, cs)" and "hub_sessions h d = Some s"
  shows "sess_clients s \<noteq> [] \<and> distinct (sess_clients s)
    \<and> (\<forall>r\<in>set (sess_clients s). \<exists>c. cs r = Some c \<and> cl_docID c = d \<and> cl_id c = idstr r)
    \<and> distinct (map (\<lambda>k. key_Name (ck_Key k)) (sess_keys s))
    \<and> (\<forall>k\<in>set (sess_keys s). isRemoteID (ck_owner k)
         \<or> (\<exists>r\<in>set (sess_clients s). ck_owner k = idstr r))"
proof -
  have ok: "hub_ok (h, cs)" using assms(1) by (rule hub_reach_ok)
  then have "ids_ok cs" by simp
  with hub_ok_session [OF ok assms(2)] show ?thesis
    by (auto simp: session_ok_def keys_ok_def ids_ok_def)
qed

text \<open>
  C18: An ``idle-session'' event is never sent for a document that has a client: joining
  removes the event, and only the last client to leave queues one.
\<close>

theorem idle_webhook_only_when_idle:
  assumes "hub_reach (h, cs)" and "whq_sent (queue_iteration now (hub_hooks h)) = whq_sent (hub_hooks h) @ sent"
    and "e \<in> set sent" and "wh_name e = ''idle-session''"
  shows "hub_sessions h (wh_documentID e) = None"
proof -
  have "e \<in> set (whq_events (hub_hooks h))"
    using assms(2,3) by (auto simp: queue_iteration_filter)
  with hub_reach_no_idle [OF assms(1)] assms(4) have "members h (wh_documentID e) = {}"
    by (simp add: no_idle_def)
  with hub_reach_ok [OF assms(1)] show ?thesis
    by (auto simp: members_def session_ok_def split: option.splits)
qed

text \<open>
  C17: Removing a client takes exactly that client out of its document's session and drops
  exactly the keys it owned (all keys, when nobody is left); the other sessions stay as they
  are. The clients that stay are told of each dropped key, as a newer version without value;
  no other client is touched. The last client to leave queues the idle webhook, if one is
  configured.
\<close>

theorem RemoveClient_correct:
  assumes "hub_ok (h, cs)" and "hub_sessions h d = Some s"
    and "RemoveClient now d (idstr r) (h, cs) = (h', cs')"
  shows "members h' = (members h)(d := members h d - {r})
    \<and> shared h' = (shared h)(d := (\<lambda>n. if members h d \<subseteq> {r} then None
         else case shared h d n of
           None \<Rightarrow> None | Some k \<Rightarrow> if ck_owner k = idstr r then None else Some k))
    \<and> (\<forall>q c. cs q = Some c \<longrightarrow>
         cs' q = Some (if q \<in> members h d \<and> q \<noteq> r
                       then notifyKeysUpdated (removed_keys (idstr r) (sess_keys s)) c else c))
    \<and> hub_hooks h' = (if members h d \<subseteq> {r} \<and> hub_webhookURL h \<noteq> []
         then add_event (idle_event now d h) (hub_hooks h) else hub_hooks h)"
proof -
  let ?rem = "removed_keys (idstr r) (sess_keys s)"
  obtain h1 list where e: "RemoveClient now d (idstr r) (h, cs) = (h1, if ?rem \<noteq> []
         then each_client (notifyKeysUpdated ?rem) list cs else cs)"
    and l: "distinct list" "set list = set (sess_clients s) - {r}"
      "list = [] \<longleftrightarrow> members h d - {r} = {}"
    and hooks: "hub_hooks h1 = (if list = [] \<and> hub_webhookURL h \<noteq> []
         then add_event (idle_event now d h) (hub_hooks h) else hub_hooks h)"
    by (rule RemoveClient_session [OF assms(1,2), of now r]) blast
  have h1: "h1 = h'" and cs': "cs' = (if ?rem \<noteq> [] then each_client (notifyKeysUpdated ?rem) list cs else cs)"
    using e assms(3) by simp_all
  have m: "members h d = set (sess_clients s)" by (simp add: members_def assms(2))
  have "notifyKeysUpdated [] c = c" for c by (simp add: notifyKeysUpdated_def)
  then have "cs' q = Some (if q \<in> members h d \<and> q \<noteq> r then notifyKeysUpdated ?rem c else c)"
    if "cs q = Some c" for q c
    using that l(1,2) m by (auto simp: cs' each_client_apply)
  moreover have "members h d - {r} = {} \<longleftrightarrow> members h d \<subseteq> {r}" by auto
  ultimately show ?thesis
    using RemoveClient_members [OF assms(1), of now d r] RemoveClient_shared [OF assms(1), of now d r]
      hooks l(3) assms(3) by (simp add: h1)
qed

text \<open>
  C12: A client key is set with optimistic concurrency: the call succeeds exactly if the
  session has a key of that name with the old version, or no such key and the old version is
  0. Then the key is the shared one of its name, the source is its owner, and every other
  client of the document (only those) is notified; otherwise no key and no client changes.
\<close>

theorem SetClientKey_correct:
  assumes "hub_ok (h, cs)" and "SetClientKey d (idstr r) old new n v (h, cs) = ((h', cs'), acked)"
  shows "acked = key_accepted h d old n
    \<and> members h' = members h
    \<and> shared h' = (if acked then (shared h)(d := (shared h d)(n \<mapsto> client_key (idstr r) new n v))
                   else shared h)
    \<and> (\<forall>q c. cs q = Some c \<longrightarrow> cs' q = Some (if acked \<and> q \<in> members h d \<and> q \<noteq> r
          then notifyKeysUpdated [\<lparr>key_Version = new, key_Name = n, key_Value = v\<rparr>] c else c))"
proof (cases "key_accepted h d old n")
  case False
  then show ?thesis
    using SetClientKey_rejected [of h d old n "idstr r" new v cs] assms(2)
    by (auto simp: members_def shared_def fun_eq_iff)
next
  case True
  then obtain s where s: "hub_sessions h d = Some s" by (auto simp: key_accepted_def)
  have so: "session_ok cs d s" using assms(1) s by (rule hub_ok_session)
  have ids: "ids_ok cs" using assms(1) by simp
  let ?new = "client_key (idstr r) new n v"
  obtain ks where
    e: "cs' = each_client (unless_id (idstr r) (notifyKeysUpdated [ck_Key ?new])) (sess_clients s) cs" "acked"
    and h': "hub_sessions h' = (hub_sessions h)(d \<mapsto> s\<lparr>sess_keys := ks\<rparr>)"
    and ks: "\<forall>m. key_in m ks = (if m = n then Some ?new else key_in m (sess_keys s))"
    by (rule SetClientKey_accepted [OF assms(1) True s, of "idstr r" new v]) (use assms(2) in auto)
  have "cs' q = Some (if q \<in> members h d \<and> q \<noteq> r then notifyKeysUpdated [ck_Key ?new] c else c)"
    if q: "cs q = Some c" for q c
  proof -
    have "distinct (sess_clients s)" "cl_id c = idstr q"
      using so ids q by (auto simp: session_ok_def ids_ok_def)
    then show ?thesis
      by (simp add: e(1) each_client_apply q unless_id_def members_def s)
  qed
  moreover have "members h' = members h" by (auto simp: members_def h' s fun_eq_iff)
  moreover have "shared h' = (shared h)(d := (shared h d)(n \<mapsto> ?new))"
    using ks by (auto simp: shared_def h' s fun_eq_iff)
  ultimately show ?thesis using True e(2) by (simp add: client_key_def)
qed

lemma hub_Append_others:
  assumes "hub_ok (h, cs)" and "hub_Append d (idstr r) offset data (h, cs) = (h', cs')"
  shows "cs' q = map_option (\<lambda>c. if q \<in> members h d \<and> q \<noteq> r
                                  then enqueueAppend data offset c else c) (cs q)"
  using append.client_after [OF assms(1), of q _ d "idstr r" offset data]
    append.absent_after [of cs q d "idstr r" offset data h] assms(2)
  by (cases "cs q") simp_all

text \<open>
  An append is passed on to every other client of the document, once, and to no one
  else: not to its source and not to the clients of another document. No session and no
  webhook changes.
\<close>

theorem hub_Append_fan_out:
  assumes "hub_ok (h, cs)" and "hub_Append d (idstr r) offset data (h, cs) = (h', cs')"
  shows "hub_sessions h' = hub_sessions h \<and> hub_hooks h' = hub_hooks h
    \<and> (\<forall>q. cs' q = map_option (\<lambda>c. if q \<in> members h d \<and> q \<noteq> r
                                   then enqueueAppend data offset c else c) (cs q))"
  using append.run_sessions [of d "idstr r" offset data h cs] hooks_same(1) [of d "idstr r" offset data h cs]
    hub_Append_others [OF assms] assms(2) by simp

subsection \<open>Permissions\<close>

lemma updatePermissions_apply:
  assumes "hub_ok (h, cs)" and "distinct order"
  shows "snd (updatePermissions order u p (h, cs)) q =
    map_option (\<lambda>c. if \<exists>d\<in>set order. q \<in> members h d then change_permissions u p c else c) (cs q)"
  using assms
proof (induction order arbitrary: cs)
  case Nil
  then show ?case by (simp add: updatePermissions_def option.map_ident)
next
  case (Cons d order)
  let ?cs = "case hub_sessions h d of None \<Rightarrow> cs
     | Some s \<Rightarrow> each_client (change_permissions u p) (sess_clients s) cs"
  have step: "snd (updatePermissions (d # order) u p (h, cs)) = snd (updatePermissions order u p (h, ?cs))"
    by (simp add: updatePermissions_def split: option.splits)
  have ok: "hub_ok (h, ?cs)"
    using hub_ok_each [OF Cons.prems(1), of "change_permissions u p"] Cons.prems(1)
    by (auto split: option.splits)
  have q: "?cs q = map_option (\<lambda>c. if q \<in> members h d then change_permissions u p c else c) (cs q)"
  proof (cases "hub_sessions h d")
    case None
    then show ?thesis by (simp add: members_def option.map_ident)
  next
    case (Some s)
    then have "distinct (sess_clients s)"
      using hub_ok_session [OF Cons.prems(1) Some] by (simp add: session_ok_def)
    then show ?thesis by (cases "cs q") (simp_all add: Some members_def each_client_apply)
  qed
  have once: "\<not> (\<exists>e\<in>set order. q \<in> members h e)" if "q \<in> members h d"
    using members_docID [OF Cons.prems(1) that] members_docID [OF Cons.prems(1), of q] Cons.prems(2)
    by fastforce
  show ?case
    unfolding step Cons.IH [OF ok distinct.simps(2) [THEN iffD1, OF Cons.prems(2), THEN conjunct2]] q
    using once by (auto simp: option.map_comp comp_def intro!: option.map_cong)
qed

lemma updatePermissions_after:
  assumes "hub_ok (h, cs)" and "distinct order" and "set order = dom (hub_sessions h)"
  shows "snd (updatePermissions order u p (h, cs)) q = map_option (\<lambda>c.
    if cl_userID c = u \<and> (\<exists>d. q \<in> members h d) then notifyPermissionChange p c else c) (cs q)"
proof -
  have "(\<exists>d\<in>set order. q \<in> members h d) \<longleftrightarrow> (\<exists>d. q \<in> members h d)"
    by (auto simp: assms(3) members_def dom_def split: option.splits)
  then show ?thesis
    using updatePermissions_apply [OF assms(1,2), of u p q]
    by (auto simp: change_permissions_def intro!: option.map_cong)
qed

text \<open>
  A change of a user's permissions reaches every connected client of that user, in every
  document, once, and no other client; the order in which Go visits the sessions makes no
  difference. A client that may no longer read is told so and marked closed.
\<close>

theorem updatePermissions_correct:
  assumes "hub_ok (h, cs)" and "distinct order" and "set order = dom (hub_sessions h)"
    and "updatePermissions order u p (h, cs) = (h', cs')"
  shows "h' = h \<and> (\<forall>q. cs' q = map_option (\<lambda>c.
      if cl_userID c = u \<and> (\<exists>d. q \<in> members h d) then notifyPermissionChange p c else c) (cs q))
    \<and> (CHR ''r'' \<notin> set p \<longrightarrow>
        (\<forall>q c. cs' q = Some c \<and> cl_userID c = u \<and> (\<exists>d. q \<in> members h d) \<longrightarrow> cl_closed c))"
proof -
  have after: "cs' q = map_option (\<lambda>c.
      if cl_userID c = u \<and> (\<exists>d. q \<in> members h d) then notifyPermissionChange p c else c) (cs q)" for q
    using updatePermissions_after [OF assms(1-3), of u p q] assms(4) by simp
  have closed: "cl_userID (notifyPermissionChange p c) = cl_userID c
      \<and> (CHR ''r'' \<notin> set p \<longrightarrow> cl_closed (notifyPermissionChange p c))" for c
    by (simp add: frame_simps) (simp add: notifyPermissionChange_def notifyLostAccess_def Let_def)
  have access: "cl_closed c" if p: "CHR ''r'' \<notin> set p" and c: "cs' q = Some c" "cl_userID c = u"
      and q: "q \<in> members h d" for q c d
  proof -
    from c(1) after [of q] obtain c0 where c0: "cs q = Some c0"
      "c = (if cl_userID c0 = u \<and> (\<exists>d. q \<in> members h d) then notifyPermissionChange p c0 else c0)"
      by auto
    then have "cl_userID c0 = u"
      using c(2) closed [of c0] by (auto split: if_splits)
    with c0(2) q closed [of c0] p show ?thesis by auto
  qed
  have "h' = h" using assms(4) by (simp add: updatePermissions_def)
  then show ?thesis
    using after access by (intro conjI allI impI) (assumption, rule after, blast)
qed

text \<open>
  A client key that is rejected because the session has no key of that name, and the old
  version is not 0, is still announced to the other servers.
\<close>

theorem SetClientKey_announces_rejected_key:
  assumes "hub_sessions h d = Some s" and "shared h d n = None" and "old \<noteq> 0"
  shows "SetClientKey d (idstr r) old new n v (h, cs) =
    ((swarm_notify (NotifyKeyUpdated d (idstr r) n v False) h, cs), False)"
  using assms replace_key_None [of n old "client_key (idstr r) new n v" "sess_keys s"]
  by (simp add: SetClientKey_def shared_def Let_def client_key_def)

section \<open>Witnesses\<close>

text \<open>Two clients of one document, of which the second has set a key, and one of another.\<close>

definition demo_clients :: clients where
  "demo_clients = Map.empty(5 \<mapsto> (new_client 5)\<lparr>cl_docID := ''d'', cl_userID := ''u''\<rparr>,
     6 \<mapsto> (new_client 6)\<lparr>cl_docID := ''d''\<rparr>, 7 \<mapsto> (new_client 7)\<lparr>cl_docID := ''e''\<rparr>)"

definition demo_key :: clientKey where
  "demo_key = client_key (idstr 6) 1 ''k'' ''v''"

definition demo :: hub where
  "demo = newHub\<lparr>hub_sessions := [''d'' \<mapsto> \<lparr>sess_clients = [5, 6], sess_keys = [demo_key]\<rparr>,
     ''e'' \<mapsto> \<lparr>sess_clients = [7], sess_keys = []\<rparr>], hub_webhookURL := ''url''\<rparr>"

lemma demo_ok: "hub_ok (demo, demo_clients)"
  by (simp add: demo_def demo_clients_def ids_ok_def session_ok_def keys_ok_def new_client_def
      demo_key_def client_key_def)

lemma demo_members:
  "members demo ''d'' = {5, 6}" "members demo ''e'' = {7}" "hub_sessions demo ''d'' =
     Some \<lparr>sess_clients = [5, 6], sess_keys = [demo_key]\<rparr>"
  "shared demo ''d'' ''x'' = None"
  "dom (hub_sessions demo) = {''d'', ''e''}"
  by (auto simp: demo_def members_def shared_def key_in_def demo_key_def client_key_def)

lemma demo_client: "demo_clients 5 = Some ((new_client 5)\<lparr>cl_docID := ''d'', cl_userID := ''u''\<rparr>)"
  by (simp add: demo_clients_def)

theorem hub_sessions_sound_witness:
  "hub_reach (newHub, Map.empty(1 \<mapsto> new_client 1)) \<and>
   (\<exists>h s. hub_reach (h, Map.empty(1 \<mapsto> new_client 1)) \<and> hub_sessions h [] = Some s
      \<and> sess_clients s \<noteq> [] \<and> distinct (sess_clients s))"
proof -
  have start: "hub_reach (newHub, Map.empty(1 \<mapsto> new_client 1))"
    using hub_reach.Connect [OF hub_reach.Start, of 1] by simp
  let ?cs = "Map.empty(1 \<mapsto> new_client 1) :: clients"
  have "hub_reach (addClient [] 1 (newHub, ?cs))"
    using hub_reach.Join [OF start, of 1 "new_client 1"]
    by (simp add: members_def newHub_def new_client_def)
  moreover obtain h where h: "addClient [] 1 (newHub, ?cs) = (h, ?cs)"
    using addClient_sessions(2) [of "[]" 1 newHub ?cs] by (cases "addClient [] 1 (newHub, ?cs)") auto
  moreover have "hub_sessions h [] = Some \<lparr>sess_clients = [1], sess_keys = []\<rparr>"
    using addClient_sessions(1) [of "[]" 1 newHub ?cs] h by (simp add: newHub_def)
  ultimately show ?thesis
    using hub_sessions_sound [of h ?cs "[]"] start by auto
qed

theorem idle_webhook_only_when_idle_witness:
  "\<exists>h sent e. hub_reach (h, Map.empty(1 \<mapsto> new_client 1)) \<and> e \<in> set sent
     \<and> whq_sent (queue_iteration (Time (20 * second)) (hub_hooks h)) = sent
     \<and> wh_documentID e = [] \<and> hub_sessions h [] = None"
proof -
  let ?cs = "Map.empty(1 \<mapsto> new_client 1) :: clients"
  let ?h0 = "setWebhook ''u'' [] [] newHub"
  have "hub_reach (?h0, ?cs)"
    using hub_reach.Configure [OF hub_reach.Connect [OF hub_reach.Start, of 1]] by simp
  then have join: "hub_reach (addClient [] 1 (?h0, ?cs))"
    using hub_reach.Join [of ?h0 ?cs 1 "new_client 1"]
    by (simp add: members_def newHub_def new_client_def setWebhook_def)
  obtain h1 where "addClient [] 1 (?h0, ?cs) = (h1, ?cs)"
    using addClient_sessions(2) [of "[]" 1 ?h0 ?cs] by (cases "addClient [] 1 (?h0, ?cs)") auto
  with join have h1: "addClient [] 1 (?h0, ?cs) = (h1, ?cs)" "hub_reach (h1, ?cs)" by simp_all
  have h1e: "hub_sessions h1 = [[] \<mapsto> \<lparr>sess_clients = [1], sess_keys = []\<rparr>]" "hub_webhookURL h1 = ''u''"
      "hub_hooks h1 = createWebhookQueue"
    using h1(1) by (auto simp: addClient_def newHub_def setWebhook_def Let_def removeIf_filter
        createWebhookQueue_def)
  let ?e = "idle_event (Time 0) [] h1"
  obtain h2 where h2: "RemoveClient (Time 0) [] (idstr 1) (h1, ?cs) = (h2, ?cs)"
      "hub_hooks h2 = add_event ?e createWebhookQueue"
    by (simp add: RemoveClient_def h1e Let_def id_of_def new_client_def swap_remove_def removed_keys_def)
  have reach: "hub_reach (h2, ?cs)"
    using hub_reach.Leave [OF h1(2), of "Time 0" "[]" 1] h2(1) by simp
  have sent: "whq_sent (queue_iteration (Time (20 * second)) (hub_hooks h2)) = whq_sent (hub_hooks h2) @ [?e]"
    by (simp add: h2(2) queue_iteration_filter add_event_def createWebhookQueue_def idle_event_def
        time_add_def less_gotime_def second_def)
  have "hub_sessions h2 (wh_documentID ?e) = None"
    by (rule idle_webhook_only_when_idle [OF reach sent]) (simp_all add: idle_event_def)
  moreover have "wh_documentID ?e = []" by (simp add: idle_event_def)
  ultimately show ?thesis
    using reach sent by (auto simp: h2(2) add_event_def createWebhookQueue_def)
qed

theorem RemoveClient_correct_witness:
  "members (fst (RemoveClient (Time 0) ''d'' (idstr 6) (demo, demo_clients))) ''d'' = {5}
   \<and> shared (fst (RemoveClient (Time 0) ''d'' (idstr 6) (demo, demo_clients))) ''d'' ''k'' = None"
proof -
  obtain h' cs' where e: "RemoveClient (Time 0) ''d'' (idstr 6) (demo, demo_clients) = (h', cs')"
    by (cases "RemoveClient (Time 0) ''d'' (idstr 6) (demo, demo_clients)")
  have k: "shared demo ''d'' ''k'' = Some demo_key" "ck_owner demo_key = idstr 6"
    by (simp_all add: shared_def demo_members key_in_def) (simp_all add: demo_key_def client_key_def)
  from RemoveClient_correct [OF demo_ok demo_members(3) e] show ?thesis
    by (auto simp: e demo_members k)
qed

theorem SetClientKey_correct_witness:
  "snd (SetClientKey ''d'' (idstr 5) 0 5 ''x'' ''y'' (demo, demo_clients))
   \<and> \<not> snd (SetClientKey ''d'' (idstr 5) 3 5 ''k'' ''y'' (demo, demo_clients))"
proof -
  obtain h' cs' a where e: "SetClientKey ''d'' (idstr 5) 0 5 ''x'' ''y'' (demo, demo_clients) = ((h', cs'), a)"
    by (metis surj_pair)
  obtain h2 cs2 b where f: "SetClientKey ''d'' (idstr 5) 3 5 ''k'' ''y'' (demo, demo_clients) = ((h2, cs2), b)"
    by (metis surj_pair)
  have "shared demo ''d'' ''k'' = Some demo_key" "key_Version (ck_Key demo_key) = 1"
    by (simp_all add: shared_def demo_members key_in_def) (simp_all add: demo_key_def client_key_def)
  with SetClientKey_correct [OF demo_ok e] SetClientKey_correct [OF demo_ok f] show ?thesis
    by (simp add: e f key_accepted_def demo_members)
qed

theorem hub_Append_fan_out_witness:
  "snd (hub_Append ''d'' (idstr 6) 0 [7] (demo, demo_clients)) 7 = demo_clients 7
   \<and> snd (hub_Append ''d'' (idstr 6) 0 [7] (demo, demo_clients)) 5 \<noteq> demo_clients 5"
proof -
  obtain h' cs' where e: "hub_Append ''d'' (idstr 6) 0 [7] (demo, demo_clients) = (h', cs')"
    by (metis surj_pair)
  from hub_Append_fan_out [OF demo_ok e] show ?thesis
    by (simp add: e demo_members demo_client option.map_ident)
      (simp add: enqueueAppend_def new_client_def)
qed

theorem updatePermissions_correct_witness:
  "\<exists>c. snd (updatePermissions [''e'', ''d''] ''u'' ''w'' (demo, demo_clients)) 5 = Some c \<and> cl_closed c"
proof -
  obtain h' cs' where e: "updatePermissions [''e'', ''d''] ''u'' ''w'' (demo, demo_clients) = (h', cs')"
    by (metis surj_pair)
  have "set [''e'', ''d''] = dom (hub_sessions demo)" by (auto simp: demo_members)
  note spec = updatePermissions_correct [OF demo_ok _ this e]
  have m: "\<exists>d. 5 \<in> members demo d" using demo_members(1) by (intro exI [of _ "''d''"]) simp
  from spec have after: "cs' 5 = Some (notifyPermissionChange ''w''
      ((new_client 5)\<lparr>cl_docID := ''d'', cl_userID := ''u''\<rparr>))"
    by (simp add: demo_client m)
  have "cl_userID (notifyPermissionChange ''w''
      ((new_client 5)\<lparr>cl_docID := ''d'', cl_userID := ''u''\<rparr>)) = ''u''"
    by (simp add: frame_simps)
  moreover have "distinct [''e'', ''d'']" "CHR ''r'' \<notin> set ''w''" by simp_all
  ultimately have "cl_closed (notifyPermissionChange ''w''
      ((new_client 5)\<lparr>cl_docID := ''d'', cl_userID := ''u''\<rparr>))"
    using spec m after by blast
  with after show ?thesis by (simp only: e snd_conv) blast
qed

theorem SetClientKey_announces_rejected_key_witness:
  "hub_swarm (fst (fst (SetClientKey ''d'' (idstr 5) 1 2 ''x'' ''y'' (demo, demo_clients)))) =
     [NotifyKeyUpdated ''d'' (idstr 5) ''x'' ''y'' False]"
  using SetClientKey_announces_rejected_key [OF demo_members(3,4), of 1 5 2 "''y''" demo_clients]
  by (simp add: swarm_notify_def) (simp add: demo_def newHub_def)

end
