(* ===== verification/MemoryDB.thy ===== *)
theory MemoryDB
  imports DocumentDB
begin

text \<open>
  \<open>MemoryDocumentDB\<close> of \<open>memorydb.go\<close>: documents, keys and tokens in Go maps behind one
  mutex, so that every operation is one step. The lemmas: the interpretation of the
  interface's document laws, the life of documents (expiration) and tokens, and where the
  implementation departs from the interface's comments.
\<close>

section \<open>State\<close>

record document =
  doc_data :: bytes
  doc_lastAccess :: gotime

record token =
  tok_docID :: string
  tok_userID :: string
  tok_permissions :: string
  tok_expiration :: int

record memoryDB =
  mem_docs :: "string \<rightharpoonup> document"
  mem_keys :: "string \<rightharpoonup> Key list"
  mem_tokens :: "string \<rightharpoonup> token"
  mem_lastClean :: gotime
  mem_expiration :: int

definition NewMemoryDB :: memoryDB where
  "NewMemoryDB = \<lparr>mem_docs = Map.empty, mem_keys = Map.empty, mem_tokens = Map.empty,
     mem_lastClean = zero_time, mem_expiration = 0\<rparr>"

text \<open>Reading an absent entry of the map of keys gives the nil slice.\<close>

definition keys_of :: "memoryDB \<Rightarrow> string \<Rightarrow> Key list" where
  "keys_of db docID = (case mem_keys db docID of None \<Rightarrow> [] | Some ks \<Rightarrow> ks)"

section \<open>Operations\<close>

text \<open>
  Every operation reads the clock as \<open>now\<close>. \<open>expired\<close> is the test of the loop over the
  documents in \<open>clean\<close>. The loops over Go maps delete only the entry they are at, so their
  order does not matter and each map is filtered point by point.
\<close>

definition expired :: "gotime \<Rightarrow> int \<Rightarrow> document \<Rightarrow> bool" where
  "expired now seconds doc \<longleftrightarrow> duration_seconds (time_sub now (doc_lastAccess doc)) > seconds"

definition clean :: "gotime \<Rightarrow> memoryDB \<Rightarrow> memoryDB" where
  "clean now db =
     (let seconds = mem_expiration db in
      if seconds = 0 \<or> seconds = NoExpiration then db
      else if time_sub now (mem_lastClean db) < 60 * 60 * second then db
      else db\<lparr>
        mem_docs := (\<lambda>docid. case mem_docs db docid of
            None \<Rightarrow> None
          | Some doc \<Rightarrow> if expired now seconds doc then None else Some doc),
        mem_keys := (\<lambda>docid. case mem_docs db docid of
            None \<Rightarrow> mem_keys db docid
          | Some doc \<Rightarrow> if expired now seconds doc then None else mem_keys db docid),
        mem_tokens := (\<lambda>tokenid. case mem_tokens db tokenid of
            None \<Rightarrow> None
          | Some tok \<Rightarrow> if tok_expiration tok > unix_sec now then None else Some tok),
        mem_lastClean := now\<rparr>)"

definition mem_GetDocument ::
    "gotime \<Rightarrow> memoryDB \<Rightarrow> string \<Rightarrow> int \<Rightarrow> bytes \<Rightarrow> memoryDB \<times> (goerror + bytes \<times> bool)" where
  "mem_GetDocument now db0 docID mode initialData =
     (let db = clean now db0 in
      case mem_docs db docID of
        None \<Rightarrow>
          if mode = NeverCreate then (db, Inl ErrMissing)
          else (db\<lparr>mem_docs := (mem_docs db)(docID \<mapsto>
                  \<lparr>doc_data = initialData, doc_lastAccess = now\<rparr>)\<rparr>,
                Inr (initialData, True))
      | Some doc \<Rightarrow>
          if mode = AlwaysCreate then (db, Inl ErrExists)
          else (db\<lparr>mem_docs := (mem_docs db)(docID \<mapsto> doc\<lparr>doc_lastAccess := now\<rparr>)\<rparr>,
                Inr (doc_data doc, False)))"

definition mem_AppendDocument ::
    "gotime \<Rightarrow> memoryDB \<Rightarrow> string \<Rightarrow> u64 \<Rightarrow> bytes \<Rightarrow> memoryDB \<times> u64 \<times> goerror option" where
  "mem_AppendDocument now db0 docID oldLength newData =
     (let db = clean now db0 in
      case mem_docs db docID of
        None \<Rightarrow> (db, 0, Some ErrMissing)
      | Some doc \<Rightarrow>
          if u64_len (doc_data doc) \<noteq> oldLength
          then (db, u64_len (doc_data doc), Some ErrConflict)
          else
            let doc' = \<lparr>doc_data = doc_data doc @ newData, doc_lastAccess = now\<rparr>
            in (db\<lparr>mem_docs := (mem_docs db)(docID \<mapsto> doc')\<rparr>, u64_len (doc_data doc'), None))"

text \<open>The first key of that name is the existing one; the new one goes at the end.\<close>

definition mem_SetDocumentKey ::
    "memoryDB \<Rightarrow> string \<Rightarrow> int \<Rightarrow> Key \<Rightarrow> memoryDB \<times> goerror option" where
  "mem_SetDocumentKey db docID oldVersion key =
     (let existing = find (\<lambda>k. key_Name k = key_Name key) (keys_of db docID) in
      if (case existing of None \<Rightarrow> True | Some k \<Rightarrow> key_Version k = oldVersion)
      then (db\<lparr>mem_keys := (mem_keys db)(docID \<mapsto> keys_of db docID @ [key])\<rparr>, None)
      else (db, Some ErrConflict))"

definition mem_GetDocumentKeys :: "memoryDB \<Rightarrow> string \<Rightarrow> memoryDB \<times> (goerror + Key list)" where
  "mem_GetDocumentKeys db docID = (db, Inr (keys_of db docID))"

definition mem_SetExpiration :: "memoryDB \<Rightarrow> int \<Rightarrow> memoryDB" where
  "mem_SetExpiration db seconds = db\<lparr>mem_expiration := seconds\<rparr>"

definition mem_DeleteDocument :: "memoryDB \<Rightarrow> string \<Rightarrow> memoryDB \<times> goerror option" where
  "mem_DeleteDocument db docID =
     (db\<lparr>mem_docs := (mem_docs db)(docID := None), mem_keys := (mem_keys db)(docID := None)\<rparr>, None)"

definition mem_AddToken ::
    "gotime \<Rightarrow> memoryDB \<Rightarrow> string \<Rightarrow> string \<Rightarrow> string \<Rightarrow> string \<Rightarrow> int \<Rightarrow> bytes \<Rightarrow>
     memoryDB \<times> goerror option" where
  "mem_AddToken now db tokenIn docID userID permissions expirationSeconds contents =
     (if mem_tokens db tokenIn \<noteq> None then (db, Some ErrExists)
      else if mem_docs db docID \<noteq> None \<and> contents \<noteq> [] then (db, Some ErrConflict)
      else
        let db1 = db\<lparr>mem_tokens := (mem_tokens db)(tokenIn \<mapsto>
              \<lparr>tok_docID = docID, tok_userID = userID, tok_permissions = permissions,
               tok_expiration = expirationSeconds\<rparr>)\<rparr>;
            db2 = (if docID \<noteq> [] then db1\<lparr>mem_docs := (mem_docs db1)(docID \<mapsto>
                     \<lparr>doc_data = contents, doc_lastAccess = now\<rparr>)\<rparr>
                   else db1)
        in (db2, None))"

definition mem_GetToken ::
    "gotime \<Rightarrow> memoryDB \<Rightarrow> string \<Rightarrow> memoryDB \<times> (goerror + string \<times> string \<times> string)" where
  "mem_GetToken now db tokenID =
     (db,
      case mem_tokens db tokenID of
        None \<Rightarrow> Inl ErrMissing
      | Some tok \<Rightarrow>
          if unix_sec now > tok_expiration tok then Inl ErrMissing
          else Inr (tok_docID tok, tok_userID tok, tok_permissions tok))"

definition mem_UpdateUser :: "memoryDB \<Rightarrow> string \<Rightarrow> string \<Rightarrow> memoryDB \<times> goerror option" where
  "mem_UpdateUser db userid permissions =
     (db\<lparr>mem_tokens := (\<lambda>t. case mem_tokens db t of
          None \<Rightarrow> None
        | Some tok \<Rightarrow> Some (if tok_userID tok = userid then tok\<lparr>tok_permissions := permissions\<rparr>
                           else tok))\<rparr>, None)"

definition mem_CheckHealth :: "memoryDB \<Rightarrow> goerror option" where
  "mem_CheckHealth db = None"

definition memory_ops :: "gotime \<Rightarrow> memoryDB documentDB" where
  "memory_ops now =
     \<lparr>GetDocument = mem_GetDocument now, AppendDocument = mem_AppendDocument now,
      SetDocumentKey = (\<lambda>db d v k. apsnd Ok (mem_SetDocumentKey db d v k)),
      GetDocumentKeys = mem_GetDocumentKeys,
      SetExpiration = mem_SetExpiration, DeleteDocument = mem_DeleteDocument,
      AddToken = mem_AddToken now, GetToken = mem_GetToken now, UpdateUser = mem_UpdateUser,
      CheckHealth = mem_CheckHealth\<rparr>"

section \<open>Cleaning\<close>

text \<open>The documents that a call at \<open>now\<close> will find.\<close>

definition mem_live :: "gotime \<Rightarrow> memoryDB \<Rightarrow> string \<Rightarrow> bytes option" where
  "mem_live now db d = map_option doc_data (mem_docs (clean now db) d)"

definition clean_due :: "gotime \<Rightarrow> memoryDB \<Rightarrow> bool" where
  "clean_due now db \<longleftrightarrow> mem_expiration db \<noteq> 0 \<and> mem_expiration db \<noteq> NoExpiration
     \<and> 60 * 60 * second \<le> time_sub now (mem_lastClean db)"

lemma time_sub_self [simp]: "time_sub t t = 0"
  by (simp add: time_sub_def max_duration_def)

lemma clean_not_due: "\<not> clean_due now db \<Longrightarrow> clean now db = db"
  by (auto simp: clean_def clean_due_def Let_def)

lemma clean_expiration [frame_simps]: "mem_expiration (clean now db) = mem_expiration db"
  by (simp add: clean_def Let_def)

lemma clean_idem: "clean now (clean now db) = clean now db"
proof (cases "clean_due now db")
  case True
  then have "mem_lastClean (clean now db) = now"
    by (auto simp: clean_def clean_due_def Let_def)
  then have "\<not> clean_due now (clean now db)"
    by (simp add: clean_due_def second_def)
  then show ?thesis by (rule clean_not_due)
qed (simp add: clean_not_due)

lemma clean_cleaned: "\<not> clean_due now (clean now db)"
proof (cases "clean_due now db")
  case True
  then have "mem_lastClean (clean now db) = now"
    by (auto simp: clean_def clean_due_def Let_def)
  then show ?thesis
    by (simp add: clean_due_def second_def)
qed (simp add: clean_not_due)

lemma clean_due_simps [simp]:
  "clean_due now (db\<lparr>mem_docs := D\<rparr>) = clean_due now db"
  "clean_due now (db\<lparr>mem_keys := K\<rparr>) = clean_due now db"
  "clean_due now (db\<lparr>mem_tokens := T\<rparr>) = clean_due now db"
  by (simp_all add: clean_due_def)

text \<open>After the operations that clean first, a further call at the same time finds what they left.\<close>

lemma live_update:
  "mem_live now ((clean now db)\<lparr>mem_docs := (mem_docs (clean now db))(d \<mapsto> v)\<rparr>)
     = (mem_live now db)(d \<mapsto> doc_data v)"
  by (simp add: mem_live_def clean_not_due clean_cleaned fun_eq_iff)

lemma live_clean: "mem_live now (clean now db) = mem_live now db"
  by (simp add: mem_live_def clean_idem fun_eq_iff)

text \<open>Deleting a document and touching its keys commute with cleaning.\<close>

lemma live_keys_upd [frame_simps]: "mem_live now (db\<lparr>mem_keys := K\<rparr>) = mem_live now db"
  by (simp add: mem_live_def clean_def Let_def fun_eq_iff)

lemma live_tokens_upd [frame_simps]: "mem_live now (db\<lparr>mem_tokens := T\<rparr>) = mem_live now db"
  by (simp add: mem_live_def clean_def Let_def fun_eq_iff)

lemma live_delete: "mem_live now (db\<lparr>mem_docs := (mem_docs db)(d := None)\<rparr>) = (mem_live now db)(d := None)"
  by (simp add: mem_live_def clean_def Let_def fun_eq_iff)

section \<open>The document laws of the interface\<close>

lemma mem_live_cases:
  obtains (none) "mem_live now db d = None" "mem_docs (clean now db) d = None"
    | (some) doc where "mem_live now db d = Some (doc_data doc)" "mem_docs (clean now db) d = Some doc"
  by (cases "mem_docs (clean now db) d") (auto simp: mem_live_def)

interpretation mem: document_store "memory_ops now" "mem_live now" "\<lambda>_. True" False for now
proof (unfold_locales, goal_cases)
  case (1 db d doc mode init)
  then show ?case
    by (cases rule: mem_live_cases [of now db d])
      (auto simp: memory_ops_def mem_GetDocument_def Let_def go_defs live_update fun_upd_idem)
next
  case (2 db d doc init)
  then show ?case
    by (cases rule: mem_live_cases [of now db d])
      (auto simp: memory_ops_def mem_GetDocument_def Let_def live_clean)
next
  case (3 db d init)
  then show ?case
    by (cases rule: mem_live_cases [of now db d])
      (auto simp: memory_ops_def mem_GetDocument_def Let_def live_clean)
next
  case (4 db d mode init)
  then show ?case
    by (cases rule: mem_live_cases [of now db d])
      (auto simp: memory_ops_def mem_GetDocument_def Let_def go_defs live_update fun_upd_idem)
next
  case (6 db d old new)
  then show ?case
    by (cases rule: mem_live_cases [of now db d])
      (auto simp: memory_ops_def mem_AppendDocument_def Let_def live_clean)
next
  case (7 db d doc old new)
  then show ?case
    by (cases rule: mem_live_cases [of now db d])
      (auto simp: memory_ops_def mem_AppendDocument_def Let_def live_clean)
next
  case (8 db d doc new)
  then show ?case
    by (cases rule: mem_live_cases [of now db d])
      (auto simp: memory_ops_def mem_AppendDocument_def Let_def live_update)
next
  case (10 db d v k)
  then show ?case
    by (simp add: memory_ops_def mem_SetDocumentKey_def Let_def frame_simps)
qed (auto simp: memory_ops_def mem_GetDocument_def mem_GetDocumentKeys_def mem_GetToken_def Let_def split: option.splits if_splits)

interpretation mem_contents: document_contents "GetDocument (memory_ops now)" "mem_live now" "\<lambda>_. True"
  "AppendDocument (memory_ops now)" mem_DeleteDocument for now
  by unfold_locales (simp_all add: mem_DeleteDocument_def live_delete frame_simps)

section \<open>Without expiration the clock does not matter to documents\<close>

lemma mem_live_no_expiry: "mem_expiration db = 0 \<Longrightarrow> mem_live now db = map_option doc_data \<circ> mem_docs db"
  by (simp add: mem_live_def clean_def fun_eq_iff)

lemma clean_no_expiry: "mem_expiration db = 0 \<Longrightarrow> clean now db = db"
  by (simp add: clean_def)

lemma mem_ops_expiration:
  "mem_expiration (fst (GetDocument (memory_ops now) db d mode init)) = mem_expiration db"
  "mem_expiration (fst (AppendDocument (memory_ops now) db d old new)) = mem_expiration db"
  "mem_expiration (fst (mem_DeleteDocument db d)) = mem_expiration db"
  "mem_expiration (fst (SetDocumentKey (memory_ops now) db d v k)) = mem_expiration db"
  "mem_expiration (fst (GetDocumentKeys (memory_ops now) db d)) = mem_expiration db"
  "mem_expiration (fst (GetToken (memory_ops now) db t)) = mem_expiration db"
  by (auto simp: memory_ops_def mem_GetDocument_def mem_AppendDocument_def mem_DeleteDocument_def
      mem_SetDocumentKey_def mem_GetDocumentKeys_def mem_GetToken_def Let_def clean_expiration
      split: option.splits)

interpretation kept: document_store "memory_ops now" "mem_live now" "\<lambda>db. mem_expiration db = 0" False for now
  by (rule mem.store_on) (simp_all add: mem_ops_expiration)

section \<open>Tokens\<close>

lemma AddToken_ok:
  assumes "mem_AddToken now db t d u p e contents = (db', None)"
  shows "mem_tokens db' t = Some \<lparr>tok_docID = d, tok_userID = u, tok_permissions = p, tok_expiration = e\<rparr>"
    and "mem_tokens db t = None"
  using assms by (auto simp: mem_AddToken_def Let_def split: if_splits)

lemma GetToken_result:
  "snd (mem_GetToken now db t) =
     (case mem_tokens db t of
        None \<Rightarrow> Inl ErrMissing
      | Some tok \<Rightarrow> if unix_sec now > tok_expiration tok then Inl ErrMissing
                    else Inr (tok_docID tok, tok_userID tok, tok_permissions tok))"
  by (simp add: mem_GetToken_def)

lemma UpdateUser_tokens:
  "mem_tokens (fst (mem_UpdateUser db u p)) t =
     map_option (\<lambda>tok. if tok_userID tok = u then tok\<lparr>tok_permissions := p\<rparr> else tok) (mem_tokens db t)"
  by (simp add: mem_UpdateUser_def split: option.splits)

lemma clean_tokens:
  "clean_due now db \<Longrightarrow> mem_tokens (clean now db) t =
     (case mem_tokens db t of
        None \<Rightarrow> None
      | Some tok \<Rightarrow> if tok_expiration tok > unix_sec now then None else Some tok)"
  by (auto simp: clean_def clean_due_def Let_def)

text \<open>
  A token added to the memory database can be used with the document, user and
  permissions it was added with until its expiration, and from then on is missing; adding
  it a second time fails. An update of its user's permissions shows in the token, and an
  update of another user does not.
\<close>

theorem mem_token_life:
  assumes "mem_AddToken now db t d u p e contents = (db', None)"
  shows "snd (mem_GetToken now' db' t) = (if unix_sec now' \<le> e then Inr (d, u, p) else Inl ErrMissing)
    \<and> snd (mem_AddToken now' db' t d2 u2 p2 e2 contents2) = Some ErrExists
    \<and> snd (mem_GetToken now' (fst (mem_UpdateUser db' v q)) t)
      = (if unix_sec now' \<le> e then Inr (d, u, if u = v then q else p) else Inl ErrMissing)"
  using AddToken_ok [OF assms]
  by (auto simp: GetToken_result UpdateUser_tokens mem_AddToken_def)

theorem mem_token_life_witness:
  "snd (mem_GetToken (Time 0) (fst (mem_AddToken (Time 0) NewMemoryDB ''t'' ''d'' ''u'' ''rw'' 10 [])) ''t'')
     = Inr (''d'', ''u'', ''rw'')"
proof -
  have "mem_AddToken (Time 0) NewMemoryDB ''t'' ''d'' ''u'' ''rw'' 10 []
      = (fst (mem_AddToken (Time 0) NewMemoryDB ''t'' ''d'' ''u'' ''rw'' 10 []), None)"
    by (simp add: mem_AddToken_def NewMemoryDB_def Let_def)
  from mem_token_life [OF this, of "Time 0"] show ?thesis
    by (simp add: unix_sec_def)
qed

text \<open>
  C36: The periodic cleaning has the test on tokens the wrong way round: it removes
  exactly the tokens that are still valid for a second or more, and keeps the expired ones.
\<close>

theorem mem_clean_drops_valid_tokens:
  assumes "clean_due now db" and "mem_tokens db t = Some tok"
  shows "mem_tokens (clean now db) t = (if tok_expiration tok > unix_sec now then None else Some tok)
    \<and> (tok_expiration tok > unix_sec now \<longrightarrow>
        snd (mem_GetToken now db t) = Inr (tok_docID tok, tok_userID tok, tok_permissions tok)
        \<and> snd (mem_GetToken now (clean now db) t) = Inl ErrMissing)"
  using assms by (auto simp: clean_tokens GetToken_result)

theorem mem_clean_drops_valid_tokens_witness:
  "let db = NewMemoryDB\<lparr>mem_expiration := 60, mem_tokens := [''t'' \<mapsto> \<lparr>tok_docID = ''d'',
       tok_userID = ''u'', tok_permissions = ''rw'', tok_expiration = 100\<rparr>]\<rparr>
   in snd (mem_GetToken (Time 0) db ''t'') = Inr (''d'', ''u'', ''rw'')
    \<and> snd (mem_GetToken (Time 0) (clean (Time 0) db) ''t'') = Inl ErrMissing"
proof -
  let ?tok = "\<lparr>tok_docID = ''d'', tok_userID = ''u'', tok_permissions = ''rw'', tok_expiration = 100\<rparr>"
  let ?db = "NewMemoryDB\<lparr>mem_expiration := 60, mem_tokens := [''t'' \<mapsto> ?tok]\<rparr>"
  have "clean_due (Time 0) ?db"
    by (simp add: clean_due_def NewMemoryDB_def NoExpiration_def time_sub_def zero_time_def
        max_duration_def second_def)
  from mem_clean_drops_valid_tokens [OF this, of "''t''" ?tok] show ?thesis
    by (simp add: unix_sec_def GetToken_result)
qed

text \<open>
  Adding a token without contents for a document that exists empties the document.
\<close>

theorem mem_AddToken_empties_document:
  assumes "mem_tokens db t = None" and "d \<noteq> []"
  shows "\<exists>db'. mem_AddToken now db t d u p e [] = (db', None)
     \<and> mem_docs db' d = Some \<lparr>doc_data = [], doc_lastAccess = now\<rparr>"
  using assms by (simp add: mem_AddToken_def Let_def)

theorem mem_AddToken_empties_document_witness:
  "let db = NewMemoryDB\<lparr>mem_docs := [''d'' \<mapsto> \<lparr>doc_data = [1, 2, 3], doc_lastAccess = Time 0\<rparr>]\<rparr>
   in map_option doc_data (mem_docs db ''d'') = Some [1, 2, 3]
    \<and> map_option doc_data (mem_docs (fst (mem_AddToken (Time 0) db ''t'' ''d'' ''u'' ''r'' 10 [])) ''d'')
        = Some []"
  using mem_AddToken_empties_document [of
      "NewMemoryDB\<lparr>mem_docs := [''d'' \<mapsto> \<lparr>doc_data = [1, 2, 3], doc_lastAccess = Time 0\<rparr>]\<rparr>"
      "''t''" "''d''" "Time 0" "''u''" "''r''" 10]
  by (auto simp: NewMemoryDB_def)

section \<open>Keys\<close>

lemma find_append_Some: "find P xs = Some x \<Longrightarrow> find P (xs @ ys) = Some x"
  by (induction xs) (auto split: if_splits)

text \<open>
  \<open>SetDocumentKey\<close> appends the new key instead of replacing the old one, and checks
  the version of the oldest one. After a key has been updated, further updates must still
  name the version it was created with: naming the current version is a conflict.
\<close>

theorem mem_SetDocumentKey_first_version:
  assumes "find (\<lambda>k. key_Name k = key_Name key) (keys_of db d) = Some k0"
    and "mem_SetDocumentKey db d old key = (db', None)"
    and "key_Name key2 = key_Name key"
  shows "old = key_Version k0
    \<and> snd (mem_SetDocumentKey db' d v key2) = (if v = key_Version k0 then None else Some ErrConflict)
    \<and> (key_Version key \<noteq> key_Version k0 \<longrightarrow>
        snd (mem_SetDocumentKey db' d (key_Version key) key2) = Some ErrConflict)"
proof -
  from assms(1,2) have "old = key_Version k0"
    by (simp add: mem_SetDocumentKey_def Let_def split: if_splits)
  have "keys_of db' d = keys_of db d @ [key]"
    using assms(2) by (auto simp: mem_SetDocumentKey_def Let_def keys_of_def split: if_splits)
  then have "find (\<lambda>k. key_Name k = key_Name key2) (keys_of db' d) = Some k0"
    using assms(1,3) by (simp add: find_append_Some)
  with \<open>old = key_Version k0\<close> show ?thesis
    by (simp add: mem_SetDocumentKey_def)
qed

theorem mem_SetDocumentKey_first_version_witness:
  "let k = (\<lambda>v. \<lparr>key_Version = v, key_Name = ''n'', key_Value = ''x''\<rparr>);
       db1 = fst (mem_SetDocumentKey NewMemoryDB ''d'' 0 (k 1));
       db2 = fst (mem_SetDocumentKey db1 ''d'' 1 (k 2))
   in snd (mem_SetDocumentKey db2 ''d'' 2 (k 3)) = Some ErrConflict"
proof -
  define k where "k = (\<lambda>v. \<lparr>key_Version = v, key_Name = ''n'', key_Value = ''x''\<rparr>)"
  let ?db1 = "fst (mem_SetDocumentKey NewMemoryDB ''d'' 0 (k 1))"
  have 1: "find (\<lambda>j. key_Name j = key_Name (k 2)) (keys_of ?db1 ''d'') = Some (k 1)"
    by (simp add: mem_SetDocumentKey_def NewMemoryDB_def keys_of_def Let_def k_def)
  then have 2: "mem_SetDocumentKey ?db1 ''d'' 1 (k 2) = (fst (mem_SetDocumentKey ?db1 ''d'' 1 (k 2)), None)"
    by (simp add: mem_SetDocumentKey_def [of ?db1] Let_def) (simp add: k_def)
  from mem_SetDocumentKey_first_version [OF 1 2, of "k 3"] show ?thesis
    by (simp add: k_def)
qed

end
