(* ===== verification/Client.thy ===== *)
theory Client
  imports Sessions MemoryDB
begin

text \<open>
  The goroutine that \<open>client.go\<close> runs for each connection: \<open>processInitMessage\<close> with its
  check of tokens, the handlers of the messages of a connected client, and \<open>runClient\<close>,
  which reads messages and calls them. The handlers reach the documents through the
  operations of a \<open>documentDB\<close>, and the other clients through the hub. The JWT library is a
  parameter, the record \<open>jwt_lib\<close>. The lemmas on a client's effect on the documents hold for
  every \<open>document_store\<close>; the properties state them of the memory and the SQL database.
\<close>

section \<open>State\<close>

record 'db world =
  w_db :: 'db
  w_hub :: hub
  w_clients :: clients

text \<open>
  How a handler ends: the loop goes on, the handler returned false so that the connection is
  closed, it panicked, or it does not return.
\<close>

datatype verdict = Go_on | Hang_up | Panics | Hangs

definition upd_world :: "(client \<Rightarrow> client) \<Rightarrow> nat \<Rightarrow> 'db world \<Rightarrow> 'db world" where
  "upd_world f r w = w\<lparr>w_clients := upd_client f r (w_clients w)\<rparr>"

section \<open>JSON web tokens\<close>

text \<open>
  \<open>base64.StdEncoding.DecodeString\<close> of the Go library: line breaks are skipped, and the rest
  is groups of four characters, of which the last may end in padding. The bits that padding
  leaves over are not checked.
\<close>

definition base64_alphabet :: string where
  "base64_alphabet =
     ''ABCDEFGHIJKLMNOPQRSTUVWXYZabcdefghijklmnopqrstuvwxyz0123456789+/''"

definition sextet :: "char \<Rightarrow> nat option" where
  "sextet c = index_of c base64_alphabet"

fun base64_groups :: "string \<Rightarrow> bytes option" where
  "base64_groups [] = Some []"
| "base64_groups (a # b # c # d # rest) =
     (case (sextet a, sextet b) of
        (Some x, Some y) \<Rightarrow>
          (case sextet c of
             None \<Rightarrow>
               if c = CHR ''='' \<and> d = CHR ''='' \<and> rest = []
               then Some [word_of_nat (x * 4 + y div 16)] else None
           | Some z \<Rightarrow>
               (case sextet d of
                  None \<Rightarrow>
                    if d = CHR ''='' \<and> rest = []
                    then Some [word_of_nat (x * 4 + y div 16), word_of_nat (y mod 16 * 16 + z div 4)]
                    else None
                | Some u \<Rightarrow>
                    map_option (\<lambda>bs. [word_of_nat (x * 4 + y div 16),
                        word_of_nat (y mod 16 * 16 + z div 4), word_of_nat (z mod 4 * 64 + u)] @ bs)
                      (base64_groups rest)))
      | _ \<Rightarrow> None)"
| "base64_groups _ = None"

definition base64_decode :: "string \<Rightarrow> goerror + bytes" where
  "base64_decode s =
     (case base64_groups (filter (\<lambda>c. c \<noteq> CHR 0x0A \<and> c \<noteq> CHR 0x0D) s) of
        None \<Rightarrow> Inl (OtherError ''illegal base64 data'')
      | Some bs \<Rightarrow> Inr bs)"

record claims =
  cm_ExpiresAt :: int
  cm_Subject :: string
  cm_UserID :: string
  cm_Permissions :: string

text \<open>
  \<open>jwt.ParseWithClaims\<close> takes the token and the function that gives the key, here of whether
  the signing method is HMAC. It fails with the bits of a \<open>ValidationError\<close> and its text.
\<close>

record jwt_lib =
  ParseWithClaims :: "string \<Rightarrow> (bool \<Rightarrow> goerror + bytes) \<Rightarrow> (u32 \<times> string) + claims"
  ValidationErrorExpired :: u32
  ValidationErrorSignatureInvalid :: u32

definition jwt_key :: "string \<Rightarrow> bool \<Rightarrow> bool \<Rightarrow> goerror + bytes" where
  "jwt_key jwtKey keyIsBase64 is_hmac =
     (if \<not> is_hmac then Inl (OtherError ''unexpected signing method'')
      else if keyIsBase64 then base64_decode jwtKey
      else Inr (str_bytes jwtKey))"

definition decodeJWT ::
    "jwt_lib \<Rightarrow> gotime \<Rightarrow> string \<Rightarrow> bool \<Rightarrow> string \<Rightarrow> goerror + string \<times> string \<times> string" where
  "decodeJWT jwt now jwtKey keyIsBase64 tokenString =
     (case ParseWithClaims jwt tokenString (jwt_key jwtKey keyIsBase64) of
        Inr cm \<Rightarrow>
          if cm_ExpiresAt cm \<le> unix_sec now then Inl ErrMissing
          else Inr (cm_Subject cm, cm_UserID cm, cm_Permissions cm)
      | Inl (bits, text0) \<Rightarrow>
          if and bits (ValidationErrorExpired jwt) \<noteq> 0 then Inl errTokenExpired
          else if and bits (ValidationErrorSignatureInvalid jwt) \<noteq> 0 then Inl errSignatureInvalid
          else Inl (OtherError text0))"

section \<open>The init message\<close>

text \<open>The lookup of the document ID of an init message as a token.\<close>

definition look_up_token ::
    "'db documentDB \<Rightarrow> jwt_lib \<Rightarrow> gotime \<Rightarrow> hub \<Rightarrow> 'db \<Rightarrow> string \<Rightarrow>
     'db \<times> (goerror + string \<times> string \<times> string)" where
  "look_up_token ops jwt now h db docid =
     (case GetToken ops db docid of (db', res) \<Rightarrow>
       (db', if res = Inl ErrMissing \<and> hub_jwtKey h \<noteq> []
             then decodeJWT jwt now (hub_jwtKey h) (hub_keyIsBase64 h) docid else res))"

text \<open>
  What the result gives the client: its document, user and permissions, and either the
  creation mode and the error code for a missing document, or (\<open>None\<close>) the client is
  turned away.
\<close>

definition init_access ::
    "hub \<Rightarrow> string \<Rightarrow> int \<Rightarrow> goerror + string \<times> string \<times> string \<Rightarrow> client \<Rightarrow>
     client \<times> (int \<times> u16) option" where
  "init_access h docid mode res c =
     (case res of
        Inr (realDocID, userID, permissions) \<Rightarrow>
          let c1 = c\<lparr>cl_docID := realDocID,
                     cl_writePermission := str_contains permissions ''w'',
                     cl_adminPermission := str_contains permissions ''a'',
                     cl_userID := userID\<rparr>
          in if \<not> str_contains permissions ''r''
                \<or> mode = AlwaysCreate \<and> \<not> cl_writePermission c1
             then (enqueueError errorAccessDenied [] c1, None)
             else if \<not> cl_writePermission c1 \<and> mode = PossiblyCreate
             then (c1, Some (NeverCreate, errorAccessDenied))
             else (c1, Some (mode, errorDoesNotExist))
      | Inl err \<Rightarrow>
          if err = ErrMissing \<and> hub_jwtKey h = []
          then (c\<lparr>cl_docID := docid, cl_writePermission := True\<rparr>, Some (mode, errorDoesNotExist))
          else if (err = ErrMissing \<or> err = errTokenExpired \<or> err = errSignatureInvalid)
                  \<and> hub_jwtKey h \<noteq> []
          then (enqueueError 4 ''access denied'' c, None)
          else (enqueueError 0 (error_text err) c, None))"

text \<open>
  The document is sent from the offset on. The offset is converted to a signed integer; a
  slice that starts at a negative index panics.
\<close>

definition init_document ::
    "'db documentDB \<Rightarrow> 'db \<Rightarrow> int \<Rightarrow> u16 \<Rightarrow> u64 \<Rightarrow> bytes \<Rightarrow> client \<Rightarrow> 'db \<times> client \<times> verdict" where
  "init_document ops db mode errorCodeOnMissing m_offset initialData c =
     (case GetDocument ops db (cl_docID c) mode initialData of
        (db', Inl ErrExists) \<Rightarrow> (db', enqueueError 2 ''already exists'' c, Hang_up)
      | (db', Inl ErrMissing) \<Rightarrow> (db', enqueueError errorCodeOnMissing [] c, Hang_up)
      | (db', Inl (Panicked _)) \<Rightarrow> (db', c, Panics)
      | (db', Inl err) \<Rightarrow> (db', enqueueError 0 (error_text err) c, Hang_up)
      | (db', Inr (doc, created)) \<Rightarrow>
          let offset = (if created then int (length doc) else int_of_u64 m_offset)
          in if int (length doc) < offset then (db', enqueueError 3 ''invalid offset'' c, Hang_up)
             else if offset < 0 then (db', c, Panics)
             else (db', enqueueAppend (drop (nat offset) doc) (word_of_int offset) c, Go_on))"

definition processInitMessage ::
    "'db documentDB \<Rightarrow> jwt_lib \<Rightarrow> gotime \<Rightarrow> hub \<Rightarrow> bytes \<Rightarrow> 'db \<times> client \<Rightarrow> 'db \<times> client \<times> verdict" where
  "processInitMessage ops jwt now h data = (\<lambda>(db, c).
     case decodeInitMessage data of
       Err _ \<Rightarrow> (db, c, Hang_up)
     | Panic \<Rightarrow> (db, c, Panics)
     | Diverge \<Rightarrow> (db, c, Hangs)
     | Ok m \<Rightarrow>
         if im_MessageType m \<noteq> 0x01 then (db, c, Hang_up)
         else if im_ProtocolVersion m \<noteq> 2 \<and> im_ProtocolVersion m \<noteq> 3 then (db, c, Hang_up)
         else
           let c1 = c\<lparr>cl_protocolVersion := im_ProtocolVersion m\<rparr>;
               c2 = (if im_MaxMessageSize m \<noteq> 0
                     then c1\<lparr>cl_maxSize := uint (im_MaxMessageSize m)\<rparr> else c1)
           in (case look_up_token ops jwt now h db (im_DocID m) of (db1, res) \<Rightarrow>
                case init_access h (im_DocID m) (uint (im_CreationMode m)) res c2 of
                  (c3, None) \<Rightarrow> (db1, c3, Hang_up)
                | (c3, Some (mode, errorCodeOnMissing)) \<Rightarrow>
                    init_document ops db1 mode errorCodeOnMissing (im_Offset m) (im_Data m) c3))"

section \<open>Messages of a connected client\<close>

text \<open>
  A handler runs for the client at reference \<open>r\<close>. \<open>set_lastEnd\<close> is the assignment to the
  client's field after an append.
\<close>

definition set_lastEnd :: "u64 \<Rightarrow> client \<Rightarrow> client" where
  "set_lastEnd n c = c\<lparr>cl_lastEnd := n\<rparr>"

definition hub_do :: "(hub \<times> clients \<Rightarrow> hub \<times> clients) \<Rightarrow> 'db world \<Rightarrow> 'db world" where
  "hub_do f w = (case f (w_hub w, w_clients w) of (h, cs) \<Rightarrow> w\<lparr>w_hub := h, w_clients := cs\<rparr>)"

definition processAppend ::
    "'db documentDB \<Rightarrow> nat \<Rightarrow> client \<Rightarrow> bytes \<Rightarrow> 'db world \<Rightarrow> 'db world \<times> verdict" where
  "processAppend ops r c data w =
     (case decodeAppendMessage data of
        Err _ \<Rightarrow> (w, Hang_up)
      | Panic \<Rightarrow> (w, Panics)
      | Diverge \<Rightarrow> (w, Hangs)
      | Ok m \<Rightarrow>
          let m_Data = (if cl_writePermission c then ap_Data m else [])
          in (case AppendDocument ops (w_db w) (cl_docID c) (ap_Offset m) m_Data of
                (db', newLength, err) \<Rightarrow>
                  let w1 = w\<lparr>w_db := db'\<rparr> in
                  if err = None \<and> cl_writePermission c
                  then (hub_do (hub_Append (cl_docID c) (cl_id c) (ap_Offset m) m_Data)
                          (upd_world (set_lastEnd newLength)  r
                            (upd_world (enqueueAckNack 1 newLength) r w1)), Go_on)
                  else if err = None then (upd_world (enqueueAckNack 2 newLength) r w1, Go_on)
                  else if err = Some ErrConflict
                  then (upd_world (enqueueAckNack 0 newLength) r w1, Go_on)
                  else if err = Some ErrMissing
                  then (upd_world (enqueueError 1 ''does not exist'') r w1, Go_on)
                  else (w1, Panics)))"

text \<open>
  The part of \<open>processSetKey\<close> that decides on \<open>ack\<close>, unless the database panics or hangs.
\<close>

definition set_key ::
    "'db documentDB \<Rightarrow> client \<Rightarrow> setKeyMessage \<Rightarrow> 'db world \<Rightarrow> 'db world \<times> (bool + verdict)" where
  "set_key ops c m w =
     (if has_prefix (sk_Name m) ''admin:'' \<and> \<not> cl_adminPermission c then (w, Inl False)
      else if sk_Lifetime m = 0
      then (case SetClientKey (cl_docID c) (cl_id c) (uint (sk_OldVersion m)) (uint (sk_NewVersion m))
                   (sk_Name m) (sk_Value m) (w_hub w, w_clients w) of
              ((h, cs), ack) \<Rightarrow> (w\<lparr>w_hub := h, w_clients := cs\<rparr>, Inl ack))
      else
        let key = \<lparr>key_Version = uint (sk_NewVersion m), key_Name = sk_Name m,
                   key_Value = sk_Value m\<rparr>
        in (case SetDocumentKey ops (w_db w) (cl_docID c) (uint (sk_OldVersion m)) key of
              (db', Ok None) \<Rightarrow>
                (hub_do (SetSessionKey (cl_docID c) (cl_id c) key) (w\<lparr>w_db := db'\<rparr>), Inl True)
            | (db', Panic) \<Rightarrow> (w\<lparr>w_db := db'\<rparr>, Inr Panics)
            | (db', Diverge) \<Rightarrow> (w\<lparr>w_db := db'\<rparr>, Inr Hangs)
            | (db', _) \<Rightarrow> (w\<lparr>w_db := db'\<rparr>, Inl False)))"

definition processSetKey ::
    "'db documentDB \<Rightarrow> nat \<Rightarrow> client \<Rightarrow> bytes \<Rightarrow> 'db world \<Rightarrow> 'db world \<times> verdict" where
  "processSetKey ops r c data w =
     (case decode_setKeyMessage data of
        Err _ \<Rightarrow> (w, Hang_up)
      | Panic \<Rightarrow> (w, Panics)
      | Diverge \<Rightarrow> (w, Hangs)
      | Ok m \<Rightarrow>
          (case set_key ops c m w of
             (w1, Inr v) \<Rightarrow> (w1, v)
           | (w1, Inl ack) \<Rightarrow>
               (if \<not> ack \<or> sk_OldVersion m \<noteq> sk_NewVersion m
                then upd_world (enqueueSetKeyAckNack ack (sk_RequestID m)) r w1 else w1, Go_on)))"

definition processBroadcast ::
    "nat \<Rightarrow> client \<Rightarrow> bytes \<Rightarrow> 'db world \<Rightarrow> 'db world \<times> verdict" where
  "processBroadcast r c data w =
     (case decode_broadcastMessage data of
        Err _ \<Rightarrow> (w, Hang_up)
      | Panic \<Rightarrow> (w, Panics)
      | Diverge \<Rightarrow> (w, Hangs)
      | Ok m \<Rightarrow> (hub_do (hub_Broadcast (cl_docID c) (cl_id c) (bm_Data m)) w, Go_on))"

section \<open>The connection\<close>

text \<open>
  \<open>runClient\<close> in four parts: the client it creates, what it does with the first message, the
  loop over the messages that follow, and the deferred calls. A message of another type is
  ignored. Indexing an empty message panics; \<open>readMessage\<close> never returns one.
\<close>

definition handle_message ::
    "'db documentDB \<Rightarrow> nat \<Rightarrow> bytes \<Rightarrow> 'db world \<Rightarrow> 'db world \<times> verdict" where
  "handle_message ops r message w =
     (case (message, w_clients w r) of
        (t # _, Some c) \<Rightarrow>
          if t = 0x02 \<or> t = 0x05 then processAppend ops r c message w
          else if t = 0x03 then processSetKey ops r c message w
          else if t = 0x04 then processBroadcast r c message w
          else (w, Go_on)
      | _ \<Rightarrow> (w, Panics))"

text \<open>A read takes place at some time and ends in a message, an error or a panic.\<close>

fun client_loop ::
    "(gotime \<Rightarrow> 'db documentDB) \<Rightarrow> nat \<Rightarrow> (gotime \<times> bytes outcome) list \<Rightarrow> 'db world \<Rightarrow>
     'db world \<times> verdict" where
  "client_loop ops r [] w = (w, Go_on)"
| "client_loop ops r ((now, Ok message) # reads) w =
     (case handle_message (ops now) r message w of
        (w', Go_on) \<Rightarrow> client_loop ops r reads w'
      | res \<Rightarrow> res)"
| "client_loop ops r ((now, Err _) # reads) w = (w, Hang_up)"
| "client_loop ops r ((now, Panic) # reads) w = (w, Panics)"
| "client_loop ops r ((now, Diverge) # reads) w = (w, Hangs)"

text \<open>
  What follows a successful init message: the client joins the session of its document and
  gets the keys of the other clients and of the document. A failed read of the keys is
  ignored, unless it panics.
\<close>

definition join_session :: "'db documentDB \<Rightarrow> nat \<Rightarrow> client \<Rightarrow> 'db world \<Rightarrow> 'db world \<times> verdict" where
  "join_session ops r c w =
     (let w1 = hub_do (addClient (cl_docID c) r) w;
          (db', res) = GetDocumentKeys ops (w_db w1) (cl_docID c);
          sessionKeys = (case res of Inl _ \<Rightarrow> [] | Inr ks \<Rightarrow> ks);
          w2 = w1\<lparr>w_db := db'\<rparr>
      in if (case res of Inl (Panicked _) \<Rightarrow> True | _ \<Rightarrow> False) then (w2, Panics)
         else (case getClientKeys (cl_docID c) (w_hub w2) of
                 Ok keys \<Rightarrow> (upd_world (notifyKeysUpdated sessionKeys) r
                               (upd_world (notifyKeysUpdated keys) r w2), Go_on)
               | _ \<Rightarrow> (w2, Panics)))"

definition set_closed :: "client \<Rightarrow> client" where
  "set_closed c = c\<lparr>cl_closed := True\<rparr>"

text \<open>
  The deferred calls run when the function returns or panics, the last one deferred first.
\<close>

definition leave :: "gotime \<Rightarrow> nat \<Rightarrow> client \<Rightarrow> 'db world \<Rightarrow> 'db world" where
  "leave now r c w = upd_world set_closed r (hub_do (RemoveClient now (cl_docID c) (cl_id c)) w)"

text \<open>
  The first message, once it is read. From the time the client has joined its session, a panic
  makes it leave. The connection of another server goes to the swarm,
  which does nothing with it in this build. The client at \<open>r\<close> was created by
  \<open>new_client\<close> and is updated in place.
\<close>

definition first_message ::
    "'db documentDB \<Rightarrow> jwt_lib \<Rightarrow> gotime \<Rightarrow> nat \<Rightarrow> bytes \<Rightarrow> 'db world \<Rightarrow> 'db world \<times> verdict" where
  "first_message ops jwt now r message w =
     (case w_clients w r of
        None \<Rightarrow> (w, Panics)
      | Some c0 \<Rightarrow>
          if length message < 2 then (w, Hang_up)
          else if message ! 0 = serverIdentificationMessageType then
            (w\<lparr>w_hub := swarm_notify (HandleIncomingConnection message) (w_hub w)\<rparr>, Hang_up)
          else (case processInitMessage ops jwt now (w_hub w) message (w_db w, c0) of
                  (db', c, Go_on) \<Rightarrow>
                    (case join_session ops r c (w\<lparr>w_db := db', w_clients := (w_clients w)(r \<mapsto> c)\<rparr>) of
                       (w', Panics) \<Rightarrow> (leave now r c w', Panics)
                     | joined \<Rightarrow> joined)
                | (db', c, Hangs) \<Rightarrow>
                    (w\<lparr>w_db := db', w_clients := (w_clients w)(r \<mapsto> c)\<rparr>, Hangs)
                | (db', c, v) \<Rightarrow>
                    (w\<lparr>w_db := db', w_clients := (w_clients w)(r \<mapsto> set_closed c)\<rparr>, v)))"

text \<open>The loop and the deferred calls, which do not run if a handler never returns.\<close>

definition serve_client ::
    "(gotime \<Rightarrow> 'db documentDB) \<Rightarrow> nat \<Rightarrow> (gotime \<times> bytes outcome) list \<Rightarrow> gotime \<Rightarrow> 'db world \<Rightarrow>
     'db world \<times> verdict" where
  "serve_client ops r reads end_time w =
     (case (client_loop ops r reads w, w_clients w r) of
        ((w', Panics), Some c) \<Rightarrow> (leave end_time r c w', Panics)
      | ((w', Hang_up), Some c) \<Rightarrow> (leave end_time r c w', Hang_up)
      | (res, _) \<Rightarrow> res)"

text \<open>The connection numbered \<open>r\<close>, from the time it is accepted to \<open>reads\<close>'s last read.\<close>

definition runClient ::
    "(gotime \<Rightarrow> 'db documentDB) \<Rightarrow> jwt_lib \<Rightarrow> nat \<Rightarrow> (gotime \<times> bytes outcome) list \<Rightarrow> gotime \<Rightarrow>
     'db world \<Rightarrow> 'db world \<times> verdict" where
  "runClient ops jwt r reads end_time w =
     (let w0 = w\<lparr>w_clients := (w_clients w)(r \<mapsto> new_client r)\<rparr>
      in case reads of
           [] \<Rightarrow> (w0, Go_on)
         | (now, Ok message) # rest \<Rightarrow>
             (case first_message (ops now) jwt now r message w0 of
                (w1, Go_on) \<Rightarrow> serve_client ops r rest end_time w1
              | res \<Rightarrow> res)
         | (now, Err _) # _ \<Rightarrow> (w0, Hang_up)
         | (now, Panic) # _ \<Rightarrow> (w0, Panics)
         | (now, Diverge) # _ \<Rightarrow> (w0, Hangs))"

end
