(* ===== verification/Handlers.thy ===== *)
theory Handlers
  imports Client
begin

text \<open>
  What the handlers of \<open>Client\<close> do to the documents, the hub and the other clients. The
  lemmas on documents are proved once for every \<open>document_store\<close>, in its context; the
  properties are stated for the memory database, which interprets it.
\<close>

section \<open>Worlds\<close>

definition world_ok :: "'db world \<Rightarrow> bool" where
  "world_ok w \<longleftrightarrow> hub_ok (w_hub w, w_clients w)"

lemma upd_world_simps [simp]:
  "w_db (upd_world f r w) = w_db w" "w_hub (upd_world f r w) = w_hub w"
  "w_clients (upd_world f r w) q = (if q = r then map_option f (w_clients w q) else w_clients w q)"
  by (simp_all add: upd_world_def upd_client_apply)

lemma hub_do_simps [simp]:
  "w_db (hub_do f w) = w_db w" "w_hub (hub_do f w) = fst (f (w_hub w, w_clients w))"
  "w_clients (hub_do f w) = snd (f (w_hub w, w_clients w))"
  by (simp_all add: hub_do_def split: prod.splits)

lemma world_ok_upd: "world_ok w \<Longrightarrow> keeps_identity f \<Longrightarrow> world_ok (upd_world f r w)"
  using hub_ok_each [of "w_hub w" "w_clients w" f "[r]"]
  by (simp add: world_ok_def upd_world_def upd_client_each)

lemma world_ok_db [simp]: "world_ok (w\<lparr>w_db := db\<rparr>) = world_ok w"
  by (simp add: world_ok_def)

lemma world_ok_hub_do:
  "(\<And>h cs. hub_ok (h, cs) \<Longrightarrow> hub_ok (f (h, cs))) \<Longrightarrow> world_ok w \<Longrightarrow> world_ok (hub_do f w)"
  by (simp add: world_ok_def)

lemma keeps_identity_acks [simp, intro]:
  "keeps_identity (enqueueAckNack a n)" "keeps_identity (enqueueSetKeyAckNack b i)"
  "keeps_identity (enqueueError e t)" "keeps_identity (set_lastEnd n)" "keeps_identity set_closed"
  by (simp_all add: keeps_identity_def enqueueAckNack_def enqueueSetKeyAckNack_def enqueueError_def
      set_lastEnd_def set_closed_def frame_simps)

lemma world_ok_id: "world_ok w \<Longrightarrow> w_clients w r = Some c \<Longrightarrow> cl_id c = idstr r"
  by (auto simp: world_ok_def ids_ok_def)

text \<open>The clients after something was done to \<open>r\<close> and passed on to the others of its document.\<close>

definition others_get :: "(client \<Rightarrow> client) \<Rightarrow> (client \<Rightarrow> client) \<Rightarrow> nat \<Rightarrow> nat set \<Rightarrow> clients \<Rightarrow> clients" where
  "others_get own f r ms cs = (\<lambda>q. map_option (\<lambda>c.
     if q = r then own c else if q \<in> ms then f c else c) (cs q))"

lemma others_get_only: "others_get own (\<lambda>c. c) r ms cs = cs(r := map_option own (cs r))"
  by (auto simp: others_get_def fun_eq_iff option.map_ident)

lemma append_others:
  assumes "world_ok w" and "keeps_identity own"
  shows "w_clients (hub_do (hub_Append d (idstr r) n data) (upd_world own r w)) =
    others_get own (enqueueAppend data n) r (members (w_hub w) d) (w_clients w)"
proof (rule ext)
  fix q
  have ok: "hub_ok (w_hub w, w_clients (upd_world own r w))"
    using world_ok_upd [OF assms] by (simp add: world_ok_def)
  show "w_clients (hub_do (hub_Append d (idstr r) n data) (upd_world own r w)) q =
    others_get own (enqueueAppend data n) r (members (w_hub w) d) (w_clients w) q"
    using append.client_after [OF ok, of q _ d "idstr r" n data]
      append.absent_after [of "w_clients (upd_world own r w)" q d "idstr r" n data "w_hub w"]
    by (cases "w_clients w q"; cases "q = r") (auto simp: others_get_def)
qed

section \<open>Appending\<close>

context document_store
begin

text \<open>The three ways an append message ends.\<close>

lemma processAppend_cases:
  assumes w: "world_ok w" "ok (w_db w)" "w_clients w r = Some c"
    and m: "decodeAppendMessage data = Ok m"
  obtains
    (missing) w' where "processAppend ops r c data w = (w', Go_on)"
      "live (w_db w) (cl_docID c) = None" "\<not> creates" "live (w_db w') = live (w_db w)" "w_hub w' = w_hub w"
      "w_clients w' = (w_clients w)(r \<mapsto> enqueueError 1 ''does not exist'' c)"
  | (refused) w' doc where "processAppend ops r c data w = (w', Go_on)"
      "finds creates (live (w_db w) (cl_docID c)) doc" "w_hub w' = w_hub w"
      "live (w_db w') = live (w_db w) \<or> creates \<and> live (w_db w) (cl_docID c) = None"
      "ap_Offset m \<noteq> u64_len doc \<or> \<not> cl_writePermission c"
      "w_clients w' = (w_clients w)(r \<mapsto>
         enqueueAckNack (if ap_Offset m \<noteq> u64_len doc then 0 else 2) (u64_len doc) c)"
  | (accepted) w' doc where "processAppend ops r c data w = (w', Go_on)"
      "finds creates (live (w_db w) (cl_docID c)) doc" "ap_Offset m = u64_len doc" "cl_writePermission c"
      "live (w_db w') = (live (w_db w))(cl_docID c \<mapsto> doc @ ap_Data m)"
      "w_hub w' = swarm_notify (NotifyAppend (cl_docID c) (ap_Offset m) (ap_Data m)) (w_hub w)
         \<or> w_hub w' = w_hub w"
      "w_clients w' = others_get
         (\<lambda>c. set_lastEnd (u64_len (doc @ ap_Data m)) (enqueueAckNack 1 (u64_len (doc @ ap_Data m)) c))
         (enqueueAppend (ap_Data m) (u64_len doc)) r (members (w_hub w) (cl_docID c)) (w_clients w)"
proof -
  define payload where "payload = (if cl_writePermission c then ap_Data m else [])"
  have id: "cl_id c = idstr r" using world_ok_id [OF w(1,3)] .
  show thesis
  proof (cases rule: append_cases [OF w(2), of "cl_docID c" "ap_Offset m" payload])
    case (1 db')
    have "w_clients (upd_world (enqueueError 1 ''does not exist'') r (w\<lparr>w_db := db'\<rparr>))
        = (w_clients w)(r \<mapsto> enqueueError 1 ''does not exist'' c)"
      by (auto simp: w(3) fun_eq_iff)
    with 1 missing [of "upd_world (enqueueError 1 ''does not exist'') r (w\<lparr>w_db := db'\<rparr>)"] show thesis
      by (simp add: processAppend_def m payload_def [symmetric])
  next
    case (2 db' doc)
    have "w_clients (upd_world (enqueueAckNack 0 (u64_len doc)) r (w\<lparr>w_db := db'\<rparr>))
        = (w_clients w)(r \<mapsto> enqueueAckNack 0 (u64_len doc) c)"
      by (auto simp: w(3) fun_eq_iff)
    with 2 refused [of "upd_world (enqueueAckNack 0 (u64_len doc)) r (w\<lparr>w_db := db'\<rparr>)" doc] show thesis
      by (simp add: processAppend_def m payload_def [symmetric])
  next
    case (3 db' doc)
    show thesis
    proof (cases "cl_writePermission c")
      case False
      have "w_clients (upd_world (enqueueAckNack 2 (u64_len doc)) r (w\<lparr>w_db := db'\<rparr>))
          = (w_clients w)(r \<mapsto> enqueueAckNack 2 (u64_len doc) c)"
        by (auto simp: w(3) fun_eq_iff)
      with 3 False refused [of "upd_world (enqueueAckNack 2 (u64_len doc)) r (w\<lparr>w_db := db'\<rparr>)" doc]
      show thesis
        by (simp add: processAppend_def m payload_def [symmetric])
          (auto simp: payload_def finds_def fun_upd_idem)
    next
      case True
      let ?n = "u64_len (doc @ ap_Data m)"
      let ?own = "\<lambda>c. set_lastEnd ?n (enqueueAckNack 1 ?n c)"
      have two: "upd_world (set_lastEnd ?n) r (upd_world (enqueueAckNack 1 ?n) r v) = upd_world ?own r v" for v
        by (simp add: upd_world_def upd_client_def fun_eq_iff split: option.splits)
      let ?w' = "hub_do (hub_Append (cl_docID c) (idstr r) (ap_Offset m) (ap_Data m))
        (upd_world ?own r (w\<lparr>w_db := db'\<rparr>))"
      have own: "keeps_identity ?own"
        using keeps_identity_acks by (simp add: keeps_identity_def)
      have "processAppend ops r c data w = (?w', Go_on)"
        using 3 True by (simp add: processAppend_def m payload_def two id Let_def)
      moreover have "w_clients ?w' = others_get ?own (enqueueAppend (ap_Data m) (u64_len doc)) r
          (members (w_hub w) (cl_docID c)) (w_clients w)"
        using append_others [of "w\<lparr>w_db := db'\<rparr>" ?own "cl_docID c" r "ap_Offset m" "ap_Data m"] w(1) own 3
        by simp
      moreover have "w_hub ?w' = swarm_notify (NotifyAppend (cl_docID c) (ap_Offset m) (ap_Data m)) (w_hub w)
          \<or> w_hub ?w' = w_hub w"
        by (auto simp: hub_Append_def split: option.splits)
      ultimately show thesis
        using accepted [of ?w' doc] 3 True by (simp add: payload_def)
    qed
  qed
qed

end

section \<open>Any message\<close>

text \<open>The two ways a key is set, and what they leave alone.\<close>

lemma set_key_cases:
  obtains
    (admin) "set_key ops c m w = (w, Inl False)"
      "has_prefix (sk_Name m) ''admin:''" "\<not> cl_adminPermission c"
  | (client) h cs ack where
      "SetClientKey (cl_docID c) (cl_id c) (uint (sk_OldVersion m)) (uint (sk_NewVersion m))
         (sk_Name m) (sk_Value m) (w_hub w, w_clients w) = ((h, cs), ack)"
      "set_key ops c m w = (w\<lparr>w_hub := h, w_clients := cs\<rparr>, Inl ack)"
      "\<not> (has_prefix (sk_Name m) ''admin:'' \<and> \<not> cl_adminPermission c)" "sk_Lifetime m = 0"
  | (session) key db' res where
      "key = \<lparr>key_Version = uint (sk_NewVersion m), key_Name = sk_Name m, key_Value = sk_Value m\<rparr>"
      "SetDocumentKey ops (w_db w) (cl_docID c) (uint (sk_OldVersion m)) key = (db', res)"
      "set_key ops c m w = (case res of
           Ok None \<Rightarrow> (hub_do (SetSessionKey (cl_docID c) (cl_id c) key) (w\<lparr>w_db := db'\<rparr>), Inl True)
         | Panic \<Rightarrow> (w\<lparr>w_db := db'\<rparr>, Inr Panics) | Diverge \<Rightarrow> (w\<lparr>w_db := db'\<rparr>, Inr Hangs)
         | _ \<Rightarrow> (w\<lparr>w_db := db'\<rparr>, Inl False))"
      "\<not> (has_prefix (sk_Name m) ''admin:'' \<and> \<not> cl_adminPermission c)" "sk_Lifetime m \<noteq> 0"
proof -
  let ?key = "\<lparr>key_Version = uint (sk_NewVersion m), key_Name = sk_Name m, key_Value = sk_Value m\<rparr>"
  obtain h cs ack where a: "SetClientKey (cl_docID c) (cl_id c) (uint (sk_OldVersion m))
      (uint (sk_NewVersion m)) (sk_Name m) (sk_Value m) (w_hub w, w_clients w) = ((h, cs), ack)"
    by (metis surj_pair)
  obtain db' res where b: "SetDocumentKey ops (w_db w) (cl_docID c) (uint (sk_OldVersion m)) ?key = (db', res)"
    by (metis surj_pair)
  consider "has_prefix (sk_Name m) ''admin:'' \<and> \<not> cl_adminPermission c"
    | "\<not> (has_prefix (sk_Name m) ''admin:'' \<and> \<not> cl_adminPermission c)" "sk_Lifetime m = 0"
    | "\<not> (has_prefix (sk_Name m) ''admin:'' \<and> \<not> cl_adminPermission c)" "sk_Lifetime m \<noteq> 0"
    by blast
  then show thesis
  proof cases
    case 1
    with admin show thesis by (simp add: set_key_def)
  next
    case 2
    with client [OF a] a show thesis by (simp add: set_key_def)
  next
    case 3
    with session [OF refl b] b show thesis
      by (auto simp: set_key_def Let_def split: outcome.splits option.splits)
  qed
qed

lemma set_key_world_ok:
  assumes w: "world_ok w" and r: "r \<in> members (w_hub w) (cl_docID c)" and i: "cl_id c = idstr r"
  shows "world_ok (fst (set_key ops c m w))"
proof (cases rule: set_key_cases [of ops c m w])
  case admin
  then show ?thesis using w by simp
next
  case (client h cs ack)
  have "hub_ok (h, cs)"
    using SetClientKey_ok [of "w_hub w" "w_clients w" "cl_id c" "cl_docID c"] client(1) w r i
    by (metis fst_conv world_ok_def)
  then show ?thesis by (simp add: client(2) world_ok_def)
next
  case (session key db' res)
  have "world_ok (hub_do (SetSessionKey (cl_docID c) (cl_id c) key) (w\<lparr>w_db := db'\<rparr>))"
    using w by (intro world_ok_hub_do session_key.ok) simp_all
  then show ?thesis using w by (auto simp: session(3) split: outcome.splits option.splits)
qed

lemma processSetKey_world_ok:
  assumes "world_ok w" and "r \<in> members (w_hub w) (cl_docID c)" and "cl_id c = idstr r"
  shows "world_ok (fst (processSetKey ops r c data w))"
  using set_key_world_ok [OF assms] assms(1)
  by (auto simp: processSetKey_def world_ok_upd split: outcome.splits prod.splits sum.splits) (metis fst_conv world_ok_upd keeps_identity_acks(2))+

section \<open>Members stay members\<close>

text \<open>A handler keeps the invariant, and the client it runs for stays in its session.\<close>

definition joined :: "'db world \<Rightarrow> nat \<Rightarrow> bool" where
  "joined w r \<longleftrightarrow> (\<exists>c. w_clients w r = Some c \<and> r \<in> members (w_hub w) (cl_docID c))"

definition same_place :: "'db world \<Rightarrow> 'db world \<Rightarrow> bool" where
  "same_place w w' \<longleftrightarrow> members (w_hub w') = members (w_hub w)
     \<and> (\<forall>q c. w_clients w q = Some c \<longrightarrow>
          (\<exists>c'. w_clients w' q = Some c' \<and> cl_id c' = cl_id c \<and> cl_docID c' = cl_docID c))"

lemma same_place_refl: "same_place w w"
  by (simp add: same_place_def)

lemma same_place_trans: "same_place w1 w2 \<Longrightarrow> same_place w2 w3 \<Longrightarrow> same_place w1 w3"
  by (fastforce simp: same_place_def)

lemma same_place_joined: "same_place w w' \<Longrightarrow> joined w r \<Longrightarrow> joined w' r"
  by (fastforce simp: same_place_def joined_def)

lemma same_place_upd: "keeps_identity f \<Longrightarrow> same_place w (upd_world f r w)"
  by (auto simp: same_place_def keeps_identity_def)

lemma same_place_db: "same_place w (w\<lparr>w_db := db\<rparr>)"
  by (simp add: same_place_def)

lemma same_place_each:
  assumes "members h = members (w_hub w)" and "keeps_identity f"
    and "cs = w_clients w \<or> cs = each_client f rs (w_clients w)"
  shows "same_place w (w\<lparr>w_hub := h, w_clients := cs\<rparr>)"
  using assms each_client_identity' [OF assms(2), of "w_clients w"] by (auto simp: same_place_def)

context fan_out
begin

lemma same_place: "same_place w (hub_do run w)"
proof (cases "hub_sessions (w_hub w) docID")
  case None
  then show ?thesis by (simp add: same_place_def members_same run_clients)
next
  case (Some s)
  then show ?thesis
    using each_client_identity' [OF keeps_identity_unless [OF f_identity, of source], of "w_clients w"]
    by (auto simp: same_place_def members_same run_clients)
qed

end

lemma SetClientKey_same_place:
  assumes "world_ok w" and "SetClientKey d src old new n v (w_hub w, w_clients w) = ((h, cs), ack)"
  shows "same_place w (w\<lparr>w_hub := h, w_clients := cs\<rparr>)"
proof -
  let ?f = "unless_id src (notifyKeysUpdated [ck_Key (client_key src new n v)])"
  have ok: "hub_ok (w_hub w, w_clients w)" using assms(1) by (simp add: world_ok_def)
  have "members h = members (w_hub w)"
    using SetClientKey_members [OF ok, of d src old new n v] assms(2) by simp
  moreover have "cs = w_clients w \<or> (\<exists>rs. cs = each_client ?f rs (w_clients w))"
  proof (cases "key_accepted (w_hub w) d old n")
    case False
    then show ?thesis using SetClientKey_rejected [of "w_hub w" d old n src new v "w_clients w"] assms(2) by auto
  next
    case True
    then obtain s where s: "hub_sessions (w_hub w) d = Some s" by (auto simp: key_accepted_def)
    show ?thesis
      by (rule SetClientKey_accepted [OF ok True s, of src new v]) (use assms(2) in auto)
  qed
  ultimately show ?thesis
    using same_place_each [of h w ?f cs] by auto
qed

lemma set_key_same_place:
  assumes "world_ok w"
  shows "same_place w (fst (set_key ops c m w))"
proof (cases rule: set_key_cases [of ops c m w])
  case admin
  then show ?thesis by (simp add: same_place_refl)
next
  case (client h cs ack)
  then show ?thesis using SetClientKey_same_place [OF assms client(1)] by simp
next
  case (session key db' res)
  have "same_place w (hub_do (SetSessionKey (cl_docID c) (cl_id c) key) (w\<lparr>w_db := db'\<rparr>))"
    by (rule same_place_trans [OF same_place_db session_key.same_place])
  then show ?thesis by (auto simp: session(3) same_place_db split: outcome.splits option.splits)
qed

lemma processSetKey_same_place:
  assumes "world_ok w"
  shows "same_place w (fst (processSetKey ops r c data w))"
proof (cases "decode_setKeyMessage data")
  case (Ok m)
  obtain w1 res where k: "set_key ops c m w = (w1, res)" by (cases "set_key ops c m w")
  then have "same_place w w1" using set_key_same_place [OF assms, of ops c m] by simp
  moreover from this have "same_place w (upd_world (enqueueSetKeyAckNack ack i) r w1)" for ack i
    by (rule same_place_trans) (simp add: same_place_upd)
  ultimately show ?thesis by (simp add: processSetKey_def Ok k split: sum.splits)
qed (simp_all add: processSetKey_def same_place_refl)

lemma processAppend_same_place: "same_place w (fst (processAppend ops r c data w))"
proof -
  note intros = same_place_refl same_place_trans [OF _ append.same_place]
    same_place_trans [OF _ same_place_upd [OF keeps_identity_acks(1)]]
    same_place_trans [OF _ same_place_upd [OF keeps_identity_acks(3)]]
    same_place_trans [OF _ same_place_upd [OF keeps_identity_acks(4)]] same_place_db
  show ?thesis
    by (auto simp: processAppend_def Let_def split: outcome.splits prod.splits intro!: intros)
qed

lemma processAppend_world_ok: "world_ok w \<Longrightarrow> world_ok (fst (processAppend ops r c data w))"
proof -
  assume w: "world_ok w"
  note intros = world_ok_hub_do append.ok world_ok_upd w
  show ?thesis
    by (auto simp: processAppend_def Let_def split: outcome.splits prod.splits intro!: intros)
qed

lemma processBroadcast_same_place: "same_place w (fst (processBroadcast r c data w))"
  by (auto simp: processBroadcast_def same_place_refl broadcast.same_place split: outcome.splits)

lemma processBroadcast_world_ok: "world_ok w \<Longrightarrow> world_ok (fst (processBroadcast r c data w))"
  by (auto simp: processBroadcast_def split: outcome.splits intro!: world_ok_hub_do broadcast.ok)

lemma handle_message_keeps:
  assumes w: "world_ok w" and j: "joined w r"
  shows "world_ok (fst (handle_message ops r data w)) \<and> same_place w (fst (handle_message ops r data w))"
proof -
  obtain c where c: "w_clients w r = Some c" "r \<in> members (w_hub w) (cl_docID c)" "cl_id c = idstr r"
    using j world_ok_id [OF w] by (auto simp: joined_def)
  show ?thesis
    by (cases data) (simp_all add: handle_message_def c(1) processAppend_world_ok [OF w]
        processAppend_same_place processSetKey_world_ok [OF w c(2,3)] processSetKey_same_place [OF w]
        processBroadcast_world_ok [OF w] processBroadcast_same_place same_place_refl w)
qed

lemma client_loop_keeps:
  assumes "world_ok w" and "joined w r"
  shows "world_ok (fst (client_loop ops r reads w)) \<and> same_place w (fst (client_loop ops r reads w))"
  using assms
proof (induction ops r reads w rule: client_loop.induct)
  case (2 ops r now message reads w)
  obtain w' v where h: "handle_message (ops now) r message w = (w', v)"
    by (cases "handle_message (ops now) r message w")
  have k: "world_ok w'" "same_place w w'"
    using handle_message_keeps [OF "2.prems", of "ops now" message] h by simp_all
  show ?case
  proof (cases v)
    case Go_on
    have "joined w' r" using same_place_joined [OF k(2) "2.prems"(2)] .
    with "2.IH" h Go_on k show ?thesis by (auto intro: same_place_trans)
  qed (use h k in simp_all)
qed (auto simp: same_place_refl)

section \<open>Documents under any message\<close>

definition sets_session_key :: "bytes \<Rightarrow> bool" where
  "sets_session_key data \<longleftrightarrow> data \<noteq> [] \<and> hd data = setKeyMessageType
     \<and> (\<exists>m. decode_setKeyMessage data = Ok m \<and> sk_Lifetime m \<noteq> 0)"

text \<open>Documents only grow at their end, and only those the client may write.\<close>

definition grows :: "(string \<rightharpoonup> bytes) \<Rightarrow> string set \<Rightarrow> (string \<rightharpoonup> bytes) \<Rightarrow> bool" where
  "grows before ds after \<longleftrightarrow> (\<forall>d. case before d of
     None \<Rightarrow> after d = None
   | Some doc \<Rightarrow> \<exists>ext. after d = Some (doc @ ext) \<and> (d \<notin> ds \<longrightarrow> ext = []))"

lemma grows_refl: "grows l ds l"
  by (auto simp: grows_def split: option.splits)

lemma grows_append: "l d = Some doc \<Longrightarrow> d \<in> ds \<Longrightarrow> grows l ds (l(d \<mapsto> doc @ ext))"
  by (auto simp: grows_def split: option.splits)

definition may_write :: "client \<Rightarrow> string set" where
  "may_write c = (if cl_writePermission c then {cl_docID c} else {})"

lemma processBroadcast_db [simp]: "w_db (fst (processBroadcast r c data w)) = w_db w"
  by (simp add: processBroadcast_def split: outcome.splits)

context document_store
begin

lemma processAppend_db:
  assumes "ok (w_db w)"
  shows "ok (w_db (fst (processAppend ops r c data w)))
    \<and> (\<not> creates \<longrightarrow> grows (live (w_db w)) (may_write c) (live (w_db (fst (processAppend ops r c data w)))))"
proof (cases "decodeAppendMessage data")
  case (Ok m)
  define payload where "payload = (if cl_writePermission c then ap_Data m else [])"
  obtain db' n e where a: "AppendDocument ops (w_db w) (cl_docID c) (ap_Offset m) payload = (db', n, e)"
    by (metis surj_pair)
  have db: "w_db (fst (processAppend ops r c data w)) = db'"
    using a by (simp add: processAppend_def Ok payload_def [symmetric] Let_def)
  have "ok db'" using append_ok [OF assms, of "cl_docID c" "ap_Offset m" payload] a by simp
  moreover have "grows (live (w_db w)) (may_write c) (live db')" if "\<not> creates"
  proof (cases rule: append_cases [OF assms, of "cl_docID c" "ap_Offset m" payload])
    case (3 db1 doc)
    then have found: "live (w_db w) (cl_docID c) = Some doc" using that by (simp add: finds_def)
    show ?thesis
    proof (cases "cl_writePermission c")
      case True
      then show ?thesis
        using found 3 a grows_append [of "live (w_db w)" "cl_docID c" doc "{cl_docID c}" payload]
        by (simp add: may_write_def)
    next
      case False
      then show ?thesis using found 3 a by (simp add: payload_def fun_upd_idem grows_refl)
    qed
  qed (use a in \<open>auto simp: grows_refl\<close>)
  ultimately show ?thesis by (simp add: db)
qed (simp_all add: processAppend_def assms grows_refl)

lemma set_key_db:
  assumes "ok (w_db w)"
  shows "ok (w_db (fst (set_key ops c m w))) \<and> live (w_db (fst (set_key ops c m w))) = live (w_db w)"
proof (cases rule: set_key_cases [of ops c m w])
  case (session key db' res)
  then show ?thesis
    using key_ok [OF assms, of "cl_docID c" "uint (sk_OldVersion m)" key]
      key_live [OF assms, of "cl_docID c" "uint (sk_OldVersion m)" key]
    by (auto split: outcome.splits option.splits)
qed (use assms in simp_all)

lemma processSetKey_db:
  assumes "ok (w_db w)"
  shows "ok (w_db (fst (processSetKey ops r c data w)))
    \<and> live (w_db (fst (processSetKey ops r c data w))) = live (w_db w)"
proof (cases "decode_setKeyMessage data")
  case (Ok m)
  obtain w1 ack where k: "set_key ops c m w = (w1, ack)" by (cases "set_key ops c m w")
  with set_key_db [OF assms, of c m] show ?thesis by (simp add: processSetKey_def Ok split: sum.splits)
qed (use assms in \<open>simp_all add: processSetKey_def\<close>)

lemma handle_message_db:
  assumes "ok (w_db w)" and c: "w_clients w r = Some c"
  shows "ok (w_db (fst (handle_message ops r data w)))
    \<and> (\<not> creates \<longrightarrow> grows (live (w_db w)) (may_write c) (live (w_db (fst (handle_message ops r data w)))))"
  using assms processAppend_db [OF assms(1)] processSetKey_db [OF assms(1)] grows_refl
  by (cases data) (simp_all add: handle_message_def)

text \<open>No message of at least two bytes makes a handler panic or hang.\<close>

lemma processAppend_safe:
  assumes "world_ok w" "ok (w_db w)" "w_clients w r = Some c" and "length data < 2 ^ 62" "data \<noteq> []"
  shows "snd (processAppend ops r c data w) \<in> {Go_on, Hang_up}"
proof (cases "decodeAppendMessage data")
  case (Ok m)
  show ?thesis
    by (rule processAppend_cases [OF assms(1-3) Ok]) simp_all
qed (use decodeAppendMessage_safe [OF assms(4,5)] in \<open>simp_all add: processAppend_def\<close>)

text \<open>
  A session key can make the handler panic, with a database in which \<open>SetDocumentKey\<close> can.
\<close>

lemma processSetKey_panics:
  assumes "snd (processSetKey ops r c data w) = Panics" and "length data < 2 ^ 62"
  obtains m v key where "decode_setKeyMessage data = Ok m" "sk_Lifetime m \<noteq> 0"
    "snd (SetDocumentKey ops (w_db w) (cl_docID c) v key) = Panic"
proof (cases "decode_setKeyMessage data")
  case (Ok m)
  show thesis
  proof (cases rule: set_key_cases [of ops c m w])
    case (session key db' res)
    then have "snd (SetDocumentKey ops (w_db w) (cl_docID c) (uint (sk_OldVersion m)) key) = Panic"
      using assms(1) by (auto simp: processSetKey_def Ok split: outcome.splits option.splits)
    with that [OF Ok session(5)] show thesis by blast
  qed (use assms(1) in \<open>auto simp: processSetKey_def Ok\<close>)
qed (use decode_setKeyMessage_safe [OF assms(2)] assms(1) in \<open>simp_all add: processSetKey_def\<close>)

lemma processSetKey_verdict:
  assumes "ok (w_db w)" and "length data < 2 ^ 62"
  shows "snd (processSetKey ops r c data w) \<in> {Go_on, Hang_up, Panics}"
proof (cases "decode_setKeyMessage data")
  case (Ok m)
  show ?thesis
  proof (cases rule: set_key_cases [of ops c m w])
    case (session key db' res)
    moreover have "res \<noteq> Diverge"
      using key_returns [OF assms(1), of "cl_docID c" "uint (sk_OldVersion m)" key] session(2) by auto
    ultimately show ?thesis
      by (auto simp: processSetKey_def Ok split: outcome.splits option.splits)
  qed (auto simp: processSetKey_def Ok)
qed (use decode_setKeyMessage_safe [OF assms(2)] in \<open>simp_all add: processSetKey_def\<close>)

lemma handle_message_verdict:
  assumes "world_ok w" "ok (w_db w)" "w_clients w r = Some c" and "length data < 2 ^ 62" "data \<noteq> []"
  shows "snd (handle_message ops r data w) \<in> {Go_on, Hang_up, Panics}
    \<and> (snd (handle_message ops r data w) = Panics \<longrightarrow> sets_session_key data
        \<and> (\<exists>v key. snd (SetDocumentKey ops (w_db w) (cl_docID c) v key) = Panic))"
proof -
  obtain t rest where data: "data = t # rest" using assms(5) by (cases data) auto
  have eq: "handle_message ops r data w = (if t = 0x02 \<or> t = 0x05 then processAppend ops r c data w
      else if t = 0x03 then processSetKey ops r c data w
      else if t = 0x04 then processBroadcast r c data w else (w, Go_on))"
    by (simp add: handle_message_def data assms(3))
  have bc: "snd (processBroadcast r c data w) \<in> {Go_on, Hang_up}"
    using decode_broadcastMessage_safe [OF assms(4)]
    by (cases "decode_broadcastMessage data") (auto simp: processBroadcast_def)
  show ?thesis
  proof (cases "t = 0x03")
    case True
    have "sets_session_key data \<and> (\<exists>v key. snd (SetDocumentKey ops (w_db w) (cl_docID c) v key) = Panic)"
      if "snd (processSetKey ops r c data w) = Panics"
      by (rule processSetKey_panics [OF that assms(4)])
        (auto simp: sets_session_key_def data True setKeyMessageType_def)
    then show ?thesis
      using processSetKey_verdict [OF assms(2,4), of r c] by (simp add: eq True)
  next
    case False
    have "snd (handle_message ops r data w) \<in> {Go_on, Hang_up}"
      using processAppend_safe [OF assms] bc False by (simp add: eq)
    then show ?thesis by auto
  qed
qed

end

end
