(* ===== verification/Connection.thy ===== *)
theory Connection
  imports Handlers
begin

text \<open>
  The init message and the life of a connection: who gets access to a document, what a
  client is sent first, and that a connection never panics whatever is received, with two
  exceptions: an offset that is negative as a signed integer, and a key at which the database
  panics. A database is a \<open>document_store\<close> at every time at which it is called.
\<close>

section \<open>Access\<close>

lemma init_access_frame:
  assumes "init_access h docid mode res c = (c', r)"
  shows "cl_lastEnd c' = cl_lastEnd c" and "cl_id c' = cl_id c"
    and "cl_protocolVersion c' = cl_protocolVersion c" and "cl_keys c' = cl_keys c"
    and "cl_closed c' = cl_closed c"
    and "r \<noteq> None \<Longrightarrow> cl_queued c' = cl_queued c"
    and "r = None \<Longrightarrow> \<exists>code text0. cl_queued c' = cl_queued c @ [encode [] (errorMessage_refl (error_message code text0))]"
  using assms
  by (auto simp: init_access_def Let_def enqueueError_def enqueue_def
      split: sum.splits prod.splits if_splits) (rule exI, rule exI, rule refl)+

lemma init_access_granted:
  assumes "init_access h docid mode res c = (c', Some (mode', code))"
  shows "(\<exists>u p. res = Inr (cl_docID c', u, p) \<and> CHR ''r'' \<in> set p \<and> cl_userID c' = u
            \<and> cl_writePermission c' = (CHR ''w'' \<in> set p) \<and> cl_adminPermission c' = (CHR ''a'' \<in> set p)
            \<and> mode' = (if CHR ''w'' \<notin> set p \<and> mode = PossiblyCreate then NeverCreate else mode)
            \<and> (CHR ''w'' \<notin> set p \<longrightarrow> mode \<noteq> AlwaysCreate))
       \<or> (res = Inl ErrMissing \<and> hub_jwtKey h = [] \<and> cl_docID c' = docid \<and> cl_writePermission c'
            \<and> cl_adminPermission c' = cl_adminPermission c \<and> mode' = mode)"
  using assms
  by (auto simp: init_access_def Let_def go_defs split: sum.splits prod.splits if_splits)

lemma init_access_denied_jwt:
  "hub_jwtKey h \<noteq> [] \<Longrightarrow> snd (init_access h docid mode (Inl err) c) = None"
  by (simp add: init_access_def)

section \<open>The first append message\<close>

lemma int_of_u64_of_int: "0 \<le> int_of_u64 w \<Longrightarrow> word_of_int (int_of_u64 w) = w"
  by (simp add: int_of_u64_nonneg int_of_u64_small)

lemma int_of_u64_negative: "int_of_u64 w < 0 \<longleftrightarrow> 2 ^ 63 \<le> w"
  using int_of_u64_nonneg [of w] by (auto simp: word_le_def not_less)

text \<open>The document a successful init message has found or created.\<close>

context document_store
begin

lemma get_cases:
  assumes "ok db" and "mode \<in> {PossiblyCreate, NeverCreate, AlwaysCreate}"
  obtains
    (found) db' doc where "GetDocument ops db d mode init = (db', Inr (doc, False))"
      "live db d = Some doc" "live db' = live db" "mode \<noteq> AlwaysCreate"
  | (created) db' where "GetDocument ops db d mode init = (db', Inr (init, True))"
      "live db d = None" "live db' = (live db)(d \<mapsto> init)" "mode \<noteq> NeverCreate"
  | (exists) db' doc where "GetDocument ops db d mode init = (db', Inl ErrExists)"
      "live db d = Some doc" "live db' = live db" "mode = AlwaysCreate"
  | (missing) db' where "GetDocument ops db d mode init = (db', Inl ErrMissing)"
      "live db d = None" "live db' = live db" "mode = NeverCreate"
proof (cases "live db d")
  case None
  show thesis
  proof (cases "mode = NeverCreate")
    case True
    with get_missing [OF assms(1) None, of init] None missing show thesis by blast
  next
    case False
    with get_create [OF assms(1) None, of mode init] assms(2) None created show thesis by blast
  qed
next
  case (Some doc)
  show thesis
  proof (cases "mode = AlwaysCreate")
    case True
    with get_exists [OF assms(1) Some, of init] Some exists show thesis by blast
  next
    case False
    with get_found [OF assms(1) Some, of mode init] assms(2) Some found show thesis by blast
  qed
qed

lemma init_document_cases:
  assumes "ok db" and "mode \<in> {PossiblyCreate, NeverCreate, AlwaysCreate}"
  obtains
    (sent) db' doc n where
      "init_document ops db mode code off init c =
         (db', enqueueAppend (drop n doc) (word_of_nat n) c, Go_on)"
      "n \<le> length doc" "live db' (cl_docID c) = Some doc"
      "live db' = live db \<and> int n = int_of_u64 off
         \<or> live db (cl_docID c) = None \<and> mode \<noteq> NeverCreate \<and> doc = init \<and> n = length init
           \<and> live db' = (live db)(cl_docID c \<mapsto> init)"
  | (refused) db' e t where
      "init_document ops db mode code off init c = (db', enqueueError e t c, Hang_up)"
      "live db' = live db"
  | (panics) db' doc where
      "init_document ops db mode code off init c = (db', c, Panics)"
      "int_of_u64 off < 0" "live db (cl_docID c) = Some doc" "live db' = live db"
proof (cases rule: get_cases [OF assms, of "cl_docID c" init])
  case (1 db' doc)
  note found = 1
  consider "int (length doc) < int_of_u64 off" | "int_of_u64 off < 0"
    | "0 \<le> int_of_u64 off" "int_of_u64 off \<le> int (length doc)" by linarith
  then show thesis
  proof cases
    case 1
    with found refused [of db' 3 "''invalid offset''"] show thesis by (simp add: init_document_def)
  next
    case 2
    with found panics [of db' doc] show thesis by (simp add: init_document_def)
  next
    case 3
    define n where "n = nat (int_of_u64 off)"
    with 3 have "int_of_u64 off = int n" "n \<le> length doc" by simp_all
    with found sent [of db' n doc] show thesis by (simp add: init_document_def)
  qed
next
  case (2 db')
  with sent [of db' "length init" init] show thesis by (simp add: init_document_def)
next
  case (3 db' doc)
  with refused [of db' 2 "''already exists''"] show thesis by (simp add: init_document_def)
next
  case (4 db')
  with refused [of db' code "[]"] show thesis by (simp add: init_document_def)
qed

lemma init_document_ok: "ok db \<Longrightarrow> ok (fst (init_document ops db mode code off init c))"
  using get_ok [of db "cl_docID c" mode init]
  by (auto simp: init_document_def Let_def split: prod.splits sum.splits goerror.splits)

lemma look_up_token_keeps:
  assumes "ok db"
  shows "ok (fst (look_up_token ops jwt now h db d)) \<and> live (fst (look_up_token ops jwt now h db d)) = live db"
  using token_ok [OF assms, of d] token_live [OF assms, of d] 
  by (cases "GetToken ops db d") (simp add: look_up_token_def)

end

section \<open>The init message as a whole\<close>

definition good_init :: "initMessage \<Rightarrow> bool" where
  "good_init m \<longleftrightarrow> im_MessageType m = 1 \<and> im_ProtocolVersion m \<in> {2, 3}
     \<and> uint (im_CreationMode m) \<in> {PossiblyCreate, NeverCreate, AlwaysCreate}"

text \<open>The client after the fields of an accepted init message are set.\<close>

definition init_fields :: "initMessage \<Rightarrow> client \<Rightarrow> client" where
  "init_fields m c = (let c1 = c\<lparr>cl_protocolVersion := im_ProtocolVersion m\<rparr> in
     if im_MaxMessageSize m \<noteq> 0 then c1\<lparr>cl_maxSize := uint (im_MaxMessageSize m)\<rparr> else c1)"

lemma init_fields_frame [simp]:
  "cl_lastEnd (init_fields m c) = cl_lastEnd c" "cl_id (init_fields m c) = cl_id c"
  "cl_queued (init_fields m c) = cl_queued c" "cl_protocolVersion (init_fields m c) = im_ProtocolVersion m"
  "cl_closed (init_fields m c) = cl_closed c" "cl_keys (init_fields m c) = cl_keys c"
  "cl_adminPermission (init_fields m c) = cl_adminPermission c"
  by (simp_all add: init_fields_def Let_def)

lemma processInit_eq:
  assumes "decodeInitMessage data = Ok m" and "good_init m"
    and "look_up_token ops jwt now h db (im_DocID m) = (db1, res)"
  shows "processInitMessage ops jwt now h data (db, c) =
    (case init_access h (im_DocID m) (uint (im_CreationMode m)) res (init_fields m c) of
       (c3, None) \<Rightarrow> (db1, c3, Hang_up)
     | (c3, Some (mode, code)) \<Rightarrow> init_document ops db1 mode code (im_Offset m) (im_Data m) c3)"
proof -
  have "im_MessageType m = 1 \<and> (im_ProtocolVersion m = 2 \<or> im_ProtocolVersion m = 3)"
    using assms(2) by (auto simp: good_init_def)
  then show ?thesis
    using assms(1,3) by (auto simp: processInitMessage_def init_fields_def Let_def)
qed

text \<open>An init message that is not good ends the connection, or has an unknown creation mode.\<close>

lemma processInit_bad:
  assumes "decodeInitMessage data = Ok m" and "im_MessageType m \<noteq> 1 \<or> im_ProtocolVersion m \<notin> {2, 3}"
  shows "processInitMessage ops jwt now h data (db, c) = (db, c, Hang_up)"
  using assms by (auto simp: processInitMessage_def)

lemma init_mode:
  assumes "init_access h docid mode res c = (c', Some (mode', code))"
    and "mode \<in> {PossiblyCreate, NeverCreate, AlwaysCreate}"
  shows "mode' \<in> {PossiblyCreate, NeverCreate, AlwaysCreate}"
  using init_access_granted [OF assms(1)] assms(2) by auto

context document_store
begin

text \<open>How an init message with a known creation mode ends.\<close>

lemma processInit_cases:
  assumes ok: "ok db" and m: "decodeInitMessage data = Ok m" "good_init m"
  obtains
    (granted) db1 db' res c1 c' mode code doc n where
      "processInitMessage ops jwt now h data (db, c) = (db', c', Go_on)"
      "look_up_token ops jwt now h db (im_DocID m) = (db1, res)" "ok db'"
      "init_access h (im_DocID m) (uint (im_CreationMode m)) res (init_fields m c) = (c1, Some (mode, code))"
      "c' = enqueueAppend (drop n doc) (word_of_nat n) c1" "n \<le> length doc"
      "live db' (cl_docID c') = Some doc"
      "live db' = live db \<and> int n = int_of_u64 (im_Offset m)
         \<or> live db (cl_docID c') = None \<and> mode \<noteq> NeverCreate \<and> doc = im_Data m \<and> n = length doc
           \<and> live db' = (live db)(cl_docID c' \<mapsto> im_Data m)"
  | (refused) db' c' where
      "processInitMessage ops jwt now h data (db, c) = (db', c', Hang_up)" "ok db'"
      "live db' = live db" "cl_id c' = cl_id c" "cl_keys c' = cl_keys c"
      "\<exists>e t. cl_queued c' = cl_queued c @ [encode [] (errorMessage_refl (error_message e t))]"
  | (panics) db' c' doc where
      "processInitMessage ops jwt now h data (db, c) = (db', c', Panics)" "ok db'" "cl_id c' = cl_id c"
      "int_of_u64 (im_Offset m) < 0" "live db (cl_docID c') = Some doc" "live db' = live db"
proof -
  obtain db1 res where t: "look_up_token ops jwt now h db (im_DocID m) = (db1, res)"
    by (cases "look_up_token ops jwt now h db (im_DocID m)")
  have ok1: "ok db1" "live db1 = live db"
    using look_up_token_keeps [OF ok, of jwt now h "im_DocID m"] t by simp_all
  obtain c1 r where a: "init_access h (im_DocID m) (uint (im_CreationMode m)) res (init_fields m c) = (c1, r)"
    by (metis surj_pair)
  note eq = processInit_eq [OF m t, of c]
  show thesis
  proof (cases r)
    case None
    then show thesis
      using refused [of db1 c1] eq a ok1 init_access_frame [OF a] by simp
  next
    case (Some mc)
    obtain mode code where mc: "mc = (mode, code)" by (cases mc)
    have eq': "processInitMessage ops jwt now h data (db, c) =
        init_document ops db1 mode code (im_Offset m) (im_Data m) c1"
      using eq a by (simp add: Some mc)
    have mode: "mode \<in> {PossiblyCreate, NeverCreate, AlwaysCreate}"
      using init_mode a m(2) by (simp add: Some mc good_init_def)
    have fr: "cl_id c1 = cl_id c" "cl_keys c1 = cl_keys c" "cl_queued c1 = cl_queued c"
      using init_access_frame [OF a] Some by simp_all
    have ok': "ok (fst (processInitMessage ops jwt now h data (db, c)))"
      unfolding eq' by (rule init_document_ok [OF ok1(1)])
    show thesis
    proof (cases rule: init_document_cases [OF ok1(1) mode, of code "im_Offset m" "im_Data m" c1])
      case (1 db' doc n)
      show thesis
        by (rule granted [of db' "enqueueAppend (drop n doc) (word_of_nat n) c1" db1 res c1 mode code n doc])
          (use 1 t a ok' eq' ok1 in \<open>auto simp: Some mc frame_simps\<close>)
    next
      case (2 db' e t)
      show thesis
        by (rule refused [of db' "enqueueError e t c1"])
          (use 2 eq' ok' ok1 fr in \<open>auto simp: frame_simps enqueueError_def enqueue_def\<close>)
    next
      case (3 db' doc)
      show thesis
        by (rule panics [of db' c1 doc]) (use 3 eq' ok' ok1 fr in auto)
    qed
  qed
qed

end

section \<open>The life of a connection\<close>

lemma leave_db [simp]: "w_db (leave now r c w) = w_db w"
  by (simp add: leave_def)

text \<open>Leaving ends the membership and keeps the invariant.\<close>

lemma leave_ok:
  assumes "world_ok w" and "cl_id c = idstr r"
  shows "world_ok (leave now r c w) \<and> w_db (leave now r c w) = w_db w
    \<and> members (w_hub (leave now r c w)) = (members (w_hub w))(cl_docID c := members (w_hub w) (cl_docID c) - {r})"
proof -
  have "world_ok (hub_do (RemoveClient now (cl_docID c) (idstr r)) w)"
    using assms(1) by (intro world_ok_hub_do RemoveClient_ok)
  then have "world_ok (leave now r c w)"
    by (simp add: leave_def assms(2) world_ok_upd)
  then show ?thesis
    using RemoveClient_members [of "w_hub w" "w_clients w" now "cl_docID c" r] assms
    by (simp add: leave_def world_ok_def)
qed

context document_store
begin

lemma processInit_ok: "ok db \<Longrightarrow> ok (fst (processInitMessage ops jwt now h data (db, c)))"
  using look_up_token_keeps [of db] init_document_ok
  by (auto simp: processInitMessage_def Let_def split: outcome.splits prod.splits option.splits) (metis fst_conv)+

lemma init_document_verdict:
  assumes "ok db" and "init_document ops db mode code off init c = (db', c', v)"
  shows "cl_id c' = cl_id c \<and> (v = Go_on \<or> v = Hang_up \<or> v = Panics \<and> int_of_u64 off < 0)"
  using assms(2) get_returns [OF assms(1), of "cl_docID c" mode init]
  by (auto simp: init_document_def Let_def frame_simps enqueueError_def
      split: prod.splits sum.splits goerror.splits if_splits)

lemma processInit_verdict:
  assumes "ok db" and "length data < 2 ^ 62" and "processInitMessage ops jwt now h data (db, c) = (db', c', v)"
  shows "cl_id c' = cl_id c \<and> (v = Go_on \<or> v = Hang_up
    \<or> v = Panics \<and> (\<exists>m. decodeInitMessage data = Ok m \<and> int_of_u64 (im_Offset m) < 0))"
proof (cases "decodeInitMessage data")
  case (Ok m)
  show ?thesis
  proof (cases "im_MessageType m \<noteq> 1 \<or> im_ProtocolVersion m \<notin> {2, 3}")
    case True
    then show ?thesis using assms(3) processInit_bad [OF Ok True, of ops jwt now h db c] by simp
  next
    case False
    obtain db1 res where t: "look_up_token ops jwt now h db (im_DocID m) = (db1, res)"
      by (cases "look_up_token ops jwt now h db (im_DocID m)")
    obtain c1 r where a: "init_access h (im_DocID m) (uint (im_CreationMode m)) res (init_fields m c) = (c1, r)"
      by (metis surj_pair)
    have ok1: "ok db1"
      using look_up_token_keeps [OF assms(1), of jwt now h "im_DocID m"] t by simp
    have id: "cl_id c1 = cl_id c" using init_access_frame(2) [OF a] by simp
    have eq: "processInitMessage ops jwt now h data (db, c) = (case r of None \<Rightarrow> (db1, c1, Hang_up)
        | Some (mode, code) \<Rightarrow> init_document ops db1 mode code (im_Offset m) (im_Data m) c1)"
      using False Ok t a by (auto simp: processInitMessage_def init_fields_def Let_def)
    show ?thesis
      using assms(3) id init_document_verdict [OF ok1, of _ _ "im_Offset m" "im_Data m" c1 db' c' v]
      by (auto simp: eq Ok split: option.splits prod.splits)
  qed
qed (use assms decodeInitMessage_safe [OF assms(2)] in \<open>auto simp: processInitMessage_def\<close>)

text \<open>The session is there when the keys of the other clients are asked for.\<close>

lemma join_session_eq:
  assumes "ok (w_db w)"
  obtains db' res keys where "GetDocumentKeys ops (w_db w) (cl_docID c) = (db', res)"
    "join_session ops r c w =
      (upd_world (notifyKeysUpdated (case res of Inl _ \<Rightarrow> [] | Inr ks \<Rightarrow> ks)) r
        (upd_world (notifyKeysUpdated keys) r ((hub_do (addClient (cl_docID c) r) w)\<lparr>w_db := db'\<rparr>)), Go_on)"
proof -
  let ?w1 = "hub_do (addClient (cl_docID c) r) w"
  obtain s where s: "hub_sessions (w_hub ?w1) (cl_docID c) = Some s"
    by (simp add: addClient_sessions(1))
  obtain db' res where g: "GetDocumentKeys ops (w_db ?w1) (cl_docID c) = (db', res)"
    by (metis surj_pair)
  have "res \<noteq> Inl (Panicked text0)" for text0
    using keys_return [OF assms, of "cl_docID c" text0] g by simp
  then have "\<not> (case res of Inl (Panicked _) \<Rightarrow> True | _ \<Rightarrow> False)" by (simp split: sum.splits goerror.splits)
  then show ?thesis
    by (intro that [of db' res "map ck_Key (sess_keys s)"])
      (use g s in \<open>simp_all add: join_session_def Let_def getClientKeys_def\<close>)
qed

lemma join_session_member: "ok (w_db w) \<Longrightarrow> r \<in> members (w_hub (fst (join_session ops r c w))) (cl_docID c)"
  by (rule join_session_eq [of w c r]) (simp_all add: addClient_members)

lemma join_session_ok:
  assumes w: "world_ok w" and db: "ok (w_db w)" and c: "w_clients w r = Some c" and new: "\<forall>d. r \<notin> members (w_hub w) d"
  shows "snd (join_session ops r c w) = Go_on \<and> world_ok (fst (join_session ops r c w))
    \<and> joined (fst (join_session ops r c w)) r"
proof (rule join_session_eq [OF db, of c r])
  fix db' res keys
  let ?w1 = "hub_do (addClient (cl_docID c) r) w"
  let ?w2 = "upd_world (notifyKeysUpdated (case res of Inl _ \<Rightarrow> [] | Inr ks \<Rightarrow> ks)) r
      (upd_world (notifyKeysUpdated keys) r (?w1\<lparr>w_db := db'\<rparr>))"
  assume eq: "join_session ops r c w = (?w2, Go_on)"
  have "hub_ok (addClient (cl_docID c) r (w_hub w, w_clients w))"
    using w c new by (intro addClient_ok) (simp_all add: world_ok_def)
  then have "world_ok ?w1" by (simp add: world_ok_def)
  then have "world_ok ?w2" by (intro world_ok_upd) simp_all
  moreover have "joined ?w2 r"
    using c by (simp add: joined_def frame_simps addClient_sessions(2) addClient_members)
  ultimately show ?thesis by (simp add: eq)
qed

lemma join_session_db:
  "ok (w_db w) \<Longrightarrow> ok (w_db (fst (join_session ops r c w)))"
  using keys_ok [of "w_db w" "cl_docID c"]
  by (auto simp: join_session_def Let_def split: prod.splits outcome.splits)

lemma first_message_join:
  assumes "ok (w_db w)" and "w_clients w r = Some c0"
    and "\<not> (length message < 2 \<or> message ! 0 = serverIdentificationMessageType)"
    and p: "processInitMessage ops jwt now (w_hub w) message (w_db w, c0) = (db', c, Go_on)"
  shows "first_message ops jwt now r message w =
    join_session ops r c (w\<lparr>w_db := db', w_clients := (w_clients w)(r \<mapsto> c)\<rparr>)"
proof -
  let ?w1 = "w\<lparr>w_db := db', w_clients := (w_clients w)(r \<mapsto> c)\<rparr>"
  have "ok (w_db ?w1)" using processInit_ok [OF assms(1), of jwt now "w_hub w" message c0] p by simp
  then obtain w2 where "join_session ops r c ?w1 = (w2, Go_on)"
    using join_session_eq [of ?w1 c r] by metis
  with assms show ?thesis by (simp add: first_message_def)
qed

lemma first_message_verdict:
  assumes w: "world_ok w" and db: "ok (w_db w)" and c0: "w_clients w r = Some c0" and new: "\<forall>d. r \<notin> members (w_hub w) d"
    and len: "length message < 2 ^ 62"
    and f: "first_message ops jwt now r message w = (w', v)"
  shows "world_ok w' \<and> v \<in> {Go_on, Hang_up, Panics} \<and> (v = Go_on \<longrightarrow> joined w' r)
    \<and> (v \<noteq> Go_on \<longrightarrow> members (w_hub w') = members (w_hub w))
    \<and> (v = Panics \<longrightarrow> (\<exists>m. decodeInitMessage message = Ok m \<and> int_of_u64 (im_Offset m) < 0))"
proof (cases "length message < 2 \<or> message ! 0 = serverIdentificationMessageType")
  case True
  then have "v = Hang_up \<and> (w' = w \<or> w' = w\<lparr>w_hub := swarm_notify (HandleIncomingConnection message) (w_hub w)\<rparr>)"
    using f by (auto simp: first_message_def c0 split: if_splits)
  then show ?thesis using w by (auto simp: world_ok_def)
next
  case False
  obtain db' c v' where p: "processInitMessage ops jwt now (w_hub w) message (w_db w, c0) = (db', c, v')"
    by (metis surj_pair)
  have id: "cl_id c = idstr r" and v': "v' = Go_on \<or> v' = Hang_up \<or> v' = Panics"
    and pan: "v' = Panics \<longrightarrow> (\<exists>m. decodeInitMessage message = Ok m \<and> int_of_u64 (im_Offset m) < 0)"
    using processInit_verdict [OF db len p] world_ok_id [OF w c0] by auto
  have db': "ok db'"
    using processInit_ok [OF db, of jwt now "w_hub w" message c0] p by simp
  have upd: "world_ok (w\<lparr>w_db := db', w_clients := (w_clients w)(r \<mapsto> k)\<rparr>)" if "cl_id k = idstr r" for k
    using w hub_ok_new_client [of "w_hub w" "w_clients w" k r] that new by (simp add: world_ok_def)
  show ?thesis
  proof (cases "v' = Go_on")
    case True
    let ?w1 = "w\<lparr>w_db := db', w_clients := (w_clients w)(r \<mapsto> c)\<rparr>"
    have js: "snd (join_session ops r c ?w1) = Go_on \<and> world_ok (fst (join_session ops r c ?w1))
        \<and> joined (fst (join_session ops r c ?w1)) r"
      using upd [OF id] new db' by (intro join_session_ok) simp_all
    moreover have "join_session ops r c ?w1 = (w', v)"
      using first_message_join [OF db c0 False] p True f by simp
    ultimately show ?thesis by simp
  next
    case stop: False
    then have "w' = w\<lparr>w_db := db', w_clients := (w_clients w)(r \<mapsto> set_closed c)\<rparr>" "v = v'"
      using False c0 p f v' by (auto simp: first_message_def)
    with upd [of "set_closed c"] id stop v' pan show ?thesis by (auto simp: set_closed_def)
  qed
qed

end

section \<open>A database through a connection\<close>

text \<open>What \<open>readMessage\<close> can return: a message of at least two bytes, or an error.\<close>

definition read_ok :: "gotime \<times> bytes outcome \<Rightarrow> bool" where
  "read_ok x \<longleftrightarrow> (case snd x of
     Ok message \<Rightarrow> 2 \<le> length message \<and> length message < 2 ^ 62 | Err _ \<Rightarrow> True | _ \<Rightarrow> False)"

text \<open>Whether setting a key can panic, in a database in order.\<close>

definition key_panics :: "(gotime \<Rightarrow> 'db documentDB) \<Rightarrow> ('db \<Rightarrow> bool) \<Rightarrow> bool" where
  "key_panics ops_at ok \<longleftrightarrow>
     (\<exists>now db d v key. ok db \<and> snd (SetDocumentKey (ops_at now) db d v key) = Panic)"

lemma key_panicsI: "ok db \<Longrightarrow> snd (SetDocumentKey (ops_at now) db d v key) = Panic \<Longrightarrow> key_panics ops_at ok"
  unfolding key_panics_def by blast

definition session_key_read :: "(gotime \<times> bytes outcome) list \<Rightarrow> bool" where
  "session_key_read reads \<longleftrightarrow> (\<exists>(now, message) \<in> set reads. \<exists>data. message = Ok data \<and> sets_session_key data)"

text \<open>A database that is used at different times, each of which is a \<open>document_store\<close>.\<close>

locale served_store =
  fixes ops_at :: "gotime \<Rightarrow> 'db documentDB"
    and live_at :: "gotime \<Rightarrow> 'db \<Rightarrow> string \<Rightarrow> bytes option"
    and ok :: "'db \<Rightarrow> bool"
    and creates :: bool
  assumes store: "document_store (ops_at now) (live_at now) ok creates"
begin

lemma first_message_db:
  assumes "ok (w_db w)"
  shows "ok (w_db (fst (first_message (ops_at now) jwt now r message w)))"
proof (cases "w_clients w r")
  case (Some c0)
  obtain db' c v where p: "processInitMessage (ops_at now) jwt now (w_hub w) message (w_db w, c0) = (db', c, v)"
    by (metis surj_pair)
  have db': "ok db'"
    using document_store.processInit_ok [OF store assms, of now jwt now "w_hub w" message c0] p by simp
  have "ok (w_db (fst (join_session (ops_at now) r c (w\<lparr>w_db := db', w_clients := (w_clients w)(r \<mapsto> c)\<rparr>))))"
    by (rule document_store.join_session_db [OF store]) (simp add: db')
  then show ?thesis
    using db' assms by (cases v) (auto simp: first_message_def Some p split: prod.splits verdict.splits)
qed (simp add: first_message_def assms)

lemma client_loop_verdict:
  assumes "world_ok w" and "joined w r" and "ok (w_db w)" and "\<forall>x\<in>set reads. read_ok x"
  shows "snd (client_loop ops_at r reads w) \<in> {Go_on, Hang_up, Panics}
    \<and> (snd (client_loop ops_at r reads w) = Panics \<longrightarrow> key_panics ops_at ok \<and> session_key_read reads)
    \<and> ok (w_db (fst (client_loop ops_at r reads w)))"
  using assms
proof (induction reads arbitrary: w)
  case (Cons x reads)
  obtain now res where x: "x = (now, res)" by (cases x)
  show ?case
  proof (cases res)
    case (Ok message)
    obtain c where c: "w_clients w r = Some c" using Cons.prems(2) by (auto simp: joined_def)
    have len: "length message < 2 ^ 62" "message \<noteq> []" using Cons.prems(4) by (auto simp: read_ok_def x Ok)
    obtain w' v where h: "handle_message (ops_at now) r message w = (w', v)"
      by (cases "handle_message (ops_at now) r message w")
    have v: "v \<in> {Go_on, Hang_up, Panics}" "v = Panics \<longrightarrow> key_panics ops_at ok \<and> sets_session_key message"
      using document_store.handle_message_verdict [OF store Cons.prems(1,3) c len, of now] h Cons.prems(3)
      by (auto intro: key_panicsI)
    have db: "ok (w_db w')"
      using document_store.handle_message_db [OF store Cons.prems(3) c, of now message] h by simp
    show ?thesis
    proof (cases "v = Go_on")
      case True
      have "world_ok w'" "same_place w w'"
        using handle_message_keeps [OF Cons.prems(1,2), of "ops_at now" message] h by simp_all
      with Cons.IH [of w'] Cons.prems h True db show ?thesis
        by (auto simp: x Ok session_key_read_def intro: same_place_joined)
    qed (use v h db in \<open>auto simp: x Ok session_key_read_def\<close>)
  qed (use Cons.prems in \<open>auto simp: x read_ok_def\<close>)
qed simp

lemma serve_client_verdict:
  assumes w: "world_ok w" and j: "joined w r" and db: "ok (w_db w)" and reads: "\<forall>x\<in>set reads. read_ok x"
    and run: "serve_client ops_at r reads end_time w = (w', v)"
  shows "v \<in> {Go_on, Hang_up, Panics} \<and> world_ok w' \<and> ok (w_db w')
    \<and> (v = Panics \<longrightarrow> key_panics ops_at ok \<and> session_key_read reads)
    \<and> (v \<noteq> Go_on \<longrightarrow> (\<forall>d. r \<notin> members (w_hub w') d))"
proof -
  obtain c where c: "w_clients w r = Some c" using j by (auto simp: joined_def)
  obtain w2 v2 where l: "client_loop ops_at r reads w = (w2, v2)" by (metis surj_pair)
  have v2: "v2 \<in> {Go_on, Hang_up, Panics}" "v2 = Panics \<longrightarrow> key_panics ops_at ok \<and> session_key_read reads" and db2: "ok (w_db w2)"
    using client_loop_verdict [OF w j db reads] l by simp_all
  have k: "world_ok w2" "same_place w w2"
    using client_loop_keeps [OF w j, of ops_at reads] l by simp_all
  from k(2) c obtain c2 where c2: "w_clients w2 r = Some c2" "cl_docID c2 = cl_docID c"
    by (auto simp: same_place_def)
  have doc: "d = cl_docID c" if "r \<in> members (w_hub w2) d" for d
    using members_docID [of "w_hub w2" "w_clients w2" r d] that k(1) c2 by (simp add: world_ok_def)
  show ?thesis
  proof (cases "v2 = Go_on")
    case True
    then show ?thesis using run l k c db2 by (auto simp: serve_client_def)
  next
    case False
    then have w': "w' = leave end_time r c w2" "v = v2"
      using run l c v2(1) by (auto simp: serve_client_def)
    have "world_ok w' \<and> w_db w' = w_db w2 \<and> members (w_hub w') =
        (members (w_hub w2))(cl_docID c := members (w_hub w2) (cl_docID c) - {r})"
      using leave_ok [OF k(1), of c r end_time] world_ok_id [OF w c] by (simp add: w'(1))
    with doc v2 db2 show ?thesis by (auto simp: w'(2))
  qed
qed

text \<open>
  The whole connection: it never hangs; it panics only at an init message whose offset is
  negative as a signed integer, or if the database panics at a key; and whichever way it
  ends, the client is in no session.
\<close>

lemma runClient_verdict:
  assumes w: "world_ok w" and db: "ok (w_db w)" and new: "w_clients w r = None"
    and reads: "\<forall>x\<in>set reads. read_ok x"
    and run: "runClient ops_at jwt r reads end_time w = (w', v)"
  shows "v \<in> {Go_on, Hang_up, Panics} \<and> world_ok w' \<and> ok (w_db w')
    \<and> (v \<noteq> Go_on \<longrightarrow> (\<forall>d. r \<notin> members (w_hub w') d))
    \<and> (v = Panics \<longrightarrow> key_panics ops_at ok \<and> session_key_read (tl reads) \<or> (\<exists>now message rest m. reads = (now, Ok message) # rest
          \<and> decodeInitMessage message = Ok m \<and> int_of_u64 (im_Offset m) < 0))"
proof -
  let ?w0 = "w\<lparr>w_clients := (w_clients w)(r \<mapsto> new_client r)\<rparr>"
  have out: "\<forall>d. r \<notin> members (w_hub w) d"
    using members_docID [of "w_hub w" "w_clients w" r] w new by (auto simp: world_ok_def)
  have w0: "world_ok ?w0"
    using hub_ok_new_client [of "w_hub w" "w_clients w" "new_client r" r] w out
    by (simp add: world_ok_def new_client_def)
  show ?thesis
  proof (cases reads)
    case Nil
    then show ?thesis using run w0 db by (auto simp: runClient_def)
  next
    case (Cons x rest)
    obtain now res where x: "x = (now, res)" by (cases x)
    have res: "read_ok (now, res)" using reads Cons x by simp
    show ?thesis
    proof (cases res)
      case (Ok message)
      obtain w1 v1 where f: "first_message (ops_at now) jwt now r message ?w0 = (w1, v1)"
        by (metis surj_pair)
      have len: "length message < 2 ^ 62" using res Ok by (simp add: read_ok_def)
      have first: "world_ok w1" "v1 \<in> {Go_on, Hang_up, Panics}" "v1 = Go_on \<longrightarrow> joined w1 r"
          "v1 \<noteq> Go_on \<longrightarrow> members (w_hub w1) = members (w_hub w)"
          "v1 = Panics \<longrightarrow> (\<exists>m. decodeInitMessage message = outcome.Ok m \<and> int_of_u64 (im_Offset m) < 0)"
        using document_store.first_message_verdict [OF store w0 _ _ _ len f] out db by simp_all
      have db1: "ok (w_db w1)"
        using first_message_db [of ?w0 now jwt r message] db f by simp
      show ?thesis
      proof (cases "v1 = Go_on")
        case True
        then show ?thesis
          using serve_client_verdict [OF first(1) _ db1, of r rest end_time w' v] first(3) reads run f
          by (auto simp: runClient_def Cons x Ok)
      qed (use first run f out db1 in \<open>auto simp: runClient_def Cons x Ok\<close>)
    qed (use res run w0 out db Cons x in \<open>auto simp: runClient_def read_ok_def\<close>)
  qed
qed

end

sublocale served_store \<subseteq> at: document_store "ops_at now" "live_at now" ok creates for now
  by (rule store)

text \<open>
  A database that drops no document by itself: what it holds does not depend on the time, and
  a key of a document it holds can be set or is refused, without a panic.
\<close>

locale lasting_store = served_store +
  assumes timeless: "ok db \<Longrightarrow> live_at now db = live_at now' db"
    and key_done: "ok db \<Longrightarrow> live_at now db d \<noteq> None \<Longrightarrow> \<exists>e. snd (SetDocumentKey (ops_at now) db d v k) = Ok e"

interpretation memory: served_store memory_ops mem_live "\<lambda>_. True" False
  by (rule served_store.intro) (rule mem.document_store_axioms)

interpretation lasting: lasting_store memory_ops mem_live "\<lambda>db. mem_expiration db = 0" False
proof (rule lasting_store.intro)
  show "served_store memory_ops mem_live (\<lambda>db. mem_expiration db = 0) False"
    by (rule served_store.intro) (rule kept.document_store_axioms)
  show "lasting_store_axioms memory_ops mem_live (\<lambda>db. mem_expiration db = 0)"
    by unfold_locales (simp_all add: mem_live_no_expiry, simp add: memory_ops_def)
qed

lemma memory_no_key_panics: "\<not> key_panics memory_ops (\<lambda>_. True)"
  by (simp add: key_panics_def memory_ops_def)

section \<open>Properties\<close>

text \<open>
  A connection is safe whatever the client sends: with the memory database, from its
  first message to its end, no message makes the server panic or hang, provided that the
  offset of the init message is less than 2 to the 63. Afterwards the hub is in order, and a
  connection that has ended is in no session.
\<close>

theorem runClient_safe:
  assumes "world_ok w" and "w_clients w r = None" and "\<forall>x\<in>set reads. read_ok x"
    and "\<And>now message rest m. reads = (now, Ok message) # rest \<Longrightarrow>
           decodeInitMessage message = Ok m \<Longrightarrow> im_Offset m < 2 ^ 63"
    and "runClient memory_ops jwt r reads end_time w = (w', v)"
  shows "v \<in> {Go_on, Hang_up} \<and> world_ok w' \<and> (v = Hang_up \<longrightarrow> (\<forall>d. r \<notin> members (w_hub w') d))"
proof -
  have "\<not> int_of_u64 (im_Offset m) < 0"
    if "reads = (now, Ok message) # rest" "decodeInitMessage message = Ok m" for now message rest m
    using assms(4) [OF that] by (simp add: int_of_u64_nonneg word_less_def not_less)
  then show ?thesis
    using memory.runClient_verdict [OF assms(1) _ assms(2,3,5)] memory_no_key_panics by auto
qed

end
