(* ===== verification/Service.thy ===== *)
theory Service
  imports Connection
begin

text \<open>
  The properties of the client handlers with the memory database: appends, access to
  documents, and the first message a client is sent, each with a concrete witness.
\<close>

section \<open>A concrete world\<close>

text \<open>The clients of \<open>demo\<close>, of which client 5 may write, and one document.\<close>

definition demo_world :: "memoryDB world" where
  "demo_world = \<lparr>w_db = NewMemoryDB\<lparr>mem_docs := [''d'' \<mapsto> \<lparr>doc_data = [1, 2], doc_lastAccess = Time 0\<rparr>]\<rparr>,
     w_hub = demo, w_clients = upd_client (\<lambda>c. c\<lparr>cl_writePermission := True\<rparr>) 5 demo_clients\<rparr>"

lemma demo_world_ok: "world_ok demo_world"
proof -
  have "keeps_identity (\<lambda>c. c\<lparr>cl_writePermission := True\<rparr>)" by (simp add: keeps_identity_def)
  from hub_ok_each [OF demo_ok this, of "[5]"] show ?thesis
    by (simp add: world_ok_def demo_world_def upd_client_each)
qed

lemma demo_world_clients:
  "w_clients demo_world 5 = Some ((new_client 5)\<lparr>cl_docID := ''d'', cl_userID := ''u'', cl_writePermission := True\<rparr>)"
  "w_clients demo_world 6 = Some ((new_client 6)\<lparr>cl_docID := ''d''\<rparr>)"
  "w_clients demo_world 9 = None" "w_hub demo_world = demo"
  by (simp_all add: demo_world_def upd_client_apply demo_clients_def)

lemma demo_world_doc: "mem_live now (w_db demo_world) = [''d'' \<mapsto> [1, 2]]"
  by (auto simp: mem_live_def demo_world_def clean_def NewMemoryDB_def fun_eq_iff)

lemma demo_joined: "joined demo_world 5" "joined demo_world 6"
  by (simp_all add: joined_def demo_world_clients demo_members)

definition demo_append :: "u64 \<Rightarrow> bytes" where
  "demo_append n = encode [] (appendMessage_refl
     \<lparr>ap_MessageType = 5, ap_More = 0, ap_Generation = 0, ap_Offset = n, ap_Data = [7]\<rparr>)"

lemma demo_append_decode: "decodeAppendMessage (demo_append n) = Ok
    \<lparr>ap_MessageType = 5, ap_More = 0, ap_Generation = 0, ap_Offset = n, ap_Data = [7]\<rparr>"
  unfolding demo_append_def
  by (rule decodeAppendMessage_V3) (simp_all add: go_defs encode_enc appendMessage_refl_def)

lemma demo_append_cons: "\<exists>bs. demo_append n = 5 # bs \<and> length bs < 100"
  by (simp add: demo_append_def encode_enc appendMessage_refl_def)

definition demo_init :: "u8 \<Rightarrow> u64 \<Rightarrow> string \<Rightarrow> bytes \<Rightarrow> initMessage" where
  "demo_init mode off docid data =
     \<lparr>im_MessageType = 1, im_More = 0, im_ProtocolVersion = 3, im_MaxMessageSize = 0,
      im_CreationMode = mode, im_Generation = 0, im_Offset = off,
      im_DocIDLength = word_of_nat (length docid), im_DocID = docid, im_Data = data\<rparr>"

definition demo_init_bytes :: "u8 \<Rightarrow> u64 \<Rightarrow> string \<Rightarrow> bytes \<Rightarrow> bytes" where
  "demo_init_bytes mode off docid data = encode [] (initMessage_refl (demo_init mode off docid data))"

lemma demo_init_decode:
  assumes "length docid < 100" and "length data < 100"
  shows "decodeInitMessage (demo_init_bytes mode off docid data) = Ok (demo_init mode off docid data)"
  unfolding demo_init_bytes_def
  by (rule decodeInitMessage_V3)
    (use assms in \<open>simp_all add: demo_init_def encode_enc initMessage_refl_def unsigned_of_nat
       take_bit_nat_eq_self\<close>)

lemma demo_init_length: "length (demo_init_bytes mode off docid data) = 25 + length docid + length data"
  by (simp add: demo_init_bytes_def demo_init_def encode_enc initMessage_refl_def)

text \<open>A JWT library that accepts no token.\<close>

definition no_jwt :: jwt_lib where
  "no_jwt = \<lparr>ParseWithClaims = \<lambda>_ _. Inl (1, ''token is malformed''), ValidationErrorExpired = 16,
     ValidationErrorSignatureInvalid = 4\<rparr>"

section \<open>Appending\<close>

text \<open>
  C13: An append message is accepted exactly when the document exists, its offset is the
  document's length and the client may write. Then the data is at the end of the document,
  the sender gets an ACK with the new length, every other client of the document the append,
  and no one else anything. Otherwise no document changes, and only the sender is told:
  with a NACK and the length to retry at, with ``no permission'', or ``does not exist''. The
  handler never fails.
\<close>

theorem processAppend_correct:
  assumes "world_ok w" and "w_clients w r = Some c" and "decodeAppendMessage data = Ok m"
  shows "\<exists>w'. processAppend (memory_ops now) r c data w = (w', Go_on)
    \<and> (case mem_live now (w_db w) (cl_docID c) of
         None \<Rightarrow> mem_live now (w_db w') = mem_live now (w_db w)
           \<and> w_clients w' = (w_clients w)(r \<mapsto> enqueueError errorDoesNotExist ''does not exist'' c)
       | Some doc \<Rightarrow>
           if ap_Offset m \<noteq> u64_len doc \<or> \<not> cl_writePermission c
           then mem_live now (w_db w') = mem_live now (w_db w)
             \<and> w_clients w' = (w_clients w)(r \<mapsto>
                 enqueueAckNack (if ap_Offset m \<noteq> u64_len doc then 0 else 2) (u64_len doc) c)
           else mem_live now (w_db w') = (mem_live now (w_db w))(cl_docID c \<mapsto> doc @ ap_Data m)
             \<and> w_clients w' = others_get
                 (\<lambda>c. set_lastEnd (u64_len (doc @ ap_Data m)) (enqueueAckNack 1 (u64_len (doc @ ap_Data m)) c))
                 (enqueueAppend (ap_Data m) (u64_len doc)) r (members (w_hub w) (cl_docID c)) (w_clients w))"
  by (rule mem.processAppend_cases [OF assms(1) _ assms(2,3), of now])
    (auto simp: go_defs)

theorem processAppend_correct_witness:
  "\<exists>c w'. w_clients demo_world 5 = Some c
     \<and> processAppend (memory_ops (Time 1)) 5 c (demo_append 2) demo_world = (w', Go_on)
     \<and> mem_live (Time 1) (w_db w') ''d'' = Some [1, 2, 7]
     \<and> w_clients w' 6 = Some (enqueueAppend [7] 2 ((new_client 6)\<lparr>cl_docID := ''d''\<rparr>))"
  using processAppend_correct [OF demo_world_ok demo_world_clients(1) demo_append_decode, of "Time 1" 2]
  by (auto simp: demo_world_doc u64_len_def others_get_def demo_world_clients demo_members new_client_def)

text \<open>
  C14: Whatever message a connected client sends, every document keeps its contents as a
  prefix, no document appears, and only the client's own document can become longer, and
  only if the client has the permission to write.
\<close>

theorem documents_only_grow:
  assumes "w_clients w r = Some c" and "handle_message (memory_ops now) r data w = (w', v)"
  shows "case mem_live now (w_db w) d of
     None \<Rightarrow> mem_live now (w_db w') d = None
   | Some doc \<Rightarrow> \<exists>ext. mem_live now (w_db w') d = Some (doc @ ext)
       \<and> (ext \<noteq> [] \<longrightarrow> d = cl_docID c \<and> cl_writePermission c)"
proof -
  have g: "grows (mem_live now (w_db w)) (may_write c) (mem_live now (w_db w'))"
    using mem.handle_message_db [of w r c now data] assms by simp
  show ?thesis
    using g [unfolded grows_def, rule_format, of d]
    by (auto simp: may_write_def split: option.splits if_splits)
qed

theorem documents_only_grow_witness:
  "mem_live (Time 1) (w_db (fst (handle_message (memory_ops (Time 1)) 6 (demo_append 2) demo_world))) ''d''
     = Some [1, 2]"
proof -
  obtain w' v where e: "handle_message (memory_ops (Time 1)) 6 (demo_append 2) demo_world = (w', v)"
    by (metis surj_pair)
  show ?thesis
    using documents_only_grow [OF demo_world_clients(2) e, of "''d''"]
    by (auto simp: e demo_world_doc new_client_def)
qed

theorem runClient_safe_witness:
  "snd (runClient memory_ops no_jwt 9 [(Time 0, Ok (demo_init_bytes 0 1 ''d'' [])), (Time 1, Err ErrMissing)]
     (Time 2) demo_world) \<in> {Go_on, Hang_up}"
proof -
  let ?reads = "[(Time 0, Ok (demo_init_bytes 0 1 ''d'' [])), (Time 1, Err ErrMissing)]"
  obtain w' v where e: "runClient memory_ops no_jwt 9 ?reads (Time 2) demo_world = (w', v)"
    by (metis surj_pair)
  have r: "\<forall>x\<in>set ?reads. read_ok x"
    by (simp add: read_ok_def demo_init_length)
  have "im_Offset m < 2 ^ 63" if "decodeInitMessage (demo_init_bytes 0 1 ''d'' []) = Ok m" for m
    using that demo_init_decode [of "''d''" "[]" 0 1] by (auto simp: demo_init_def)
  then show ?thesis
    using runClient_safe [OF demo_world_ok demo_world_clients(3) r _ e] by (auto simp: e)
qed

section \<open>Access to documents\<close>

lemma init_creates_with_permission:
  assumes "decodeInitMessage data = Ok m" and "good_init m"
    and "processInitMessage (memory_ops now) jwt now h data (db, c) = (db', c', v)"
  shows "mem_live now db' = mem_live now db
    \<or> v = Go_on \<and> cl_writePermission c' \<and> mem_live now db (cl_docID c') = None
      \<and> mem_live now db' = (mem_live now db)(cl_docID c' \<mapsto> im_Data m)"
proof (rule mem.processInit_cases [OF _ assms(1,2), of now jwt now h db c])
  fix db1 dbx res c1 cx mode code doc n
  assume p: "processInitMessage (memory_ops now) jwt now h data (db, c) = (dbx, cx, Go_on)"
    and a: "init_access h (im_DocID m) (uint (im_CreationMode m)) res (init_fields m c) = (c1, Some (mode, code))"
    and cx: "cx = enqueueAppend (drop n doc) (word_of_nat n) c1"
    and l: "mem_live now dbx = mem_live now db \<and> int n = int_of_u64 (im_Offset m)
         \<or> mem_live now db (cl_docID cx) = None \<and> mode \<noteq> NeverCreate \<and> doc = im_Data m \<and> n = length doc
           \<and> mem_live now dbx = (mem_live now db)(cl_docID cx \<mapsto> im_Data m)"
  have eqs: "dbx = db'" "cx = c'" "v = Go_on" using p assms(3) by simp_all
  have "cl_writePermission cx = cl_writePermission c1" by (simp add: cx enqueueAppend_def)
  moreover have "cl_writePermission c1 \<or> mode = NeverCreate"
    using init_access_granted [OF a] assms(2) by (auto simp: good_init_def go_defs)
  ultimately show ?thesis using l eqs by auto
qed (use assms(3) in simp_all)

text \<open>With a mode the code does not know, a document is found or created.\<close>

lemma mem_init_document_docs:
  assumes "init_document (memory_ops now) db mode code off init c = (db', c', v)"
  shows "mem_live now db' = mem_live now db
    \<or> v = Go_on \<and> cl_docID c' = cl_docID c \<and> mem_live now db (cl_docID c) = None
      \<and> mem_live now db' = (mem_live now db)(cl_docID c \<mapsto> init)"
proof (cases rule: mem_live_cases [of now db "cl_docID c"])
  case none
  with assms show ?thesis
    by (auto simp: init_document_def memory_ops_def mem_GetDocument_def Let_def live_update live_clean
        enqueueError_def enqueue_def enqueueAppend_def split: if_splits)
next
  case (some doc)
  with assms show ?thesis
    by (auto simp: init_document_def memory_ops_def mem_GetDocument_def Let_def live_update live_clean
        fun_upd_idem split: if_splits)
qed

lemma init_unknown_mode_docs:
  assumes m: "decodeInitMessage data = Ok m" "im_MessageType m = 1" "im_ProtocolVersion m \<in> {2, 3}"
    and p: "processInitMessage (memory_ops now) jwt now h data (db, c) = (db', c', v)"
  shows "mem_live now db' = mem_live now db
    \<or> v = Go_on \<and> mem_live now db (cl_docID c') = None
      \<and> mem_live now db' = (mem_live now db)(cl_docID c' \<mapsto> im_Data m)"
proof -
  obtain db1 res where t: "look_up_token (memory_ops now) jwt now h db (im_DocID m) = (db1, res)"
    by (metis surj_pair)
  have l: "mem_live now db1 = mem_live now db"
    using mem.look_up_token_keeps [of now jwt now h db "im_DocID m"] t by simp
  obtain c1 r where a: "init_access h (im_DocID m) (uint (im_CreationMode m)) res (init_fields m c) = (c1, r)"
    by (metis surj_pair)
  have eq: "processInitMessage (memory_ops now) jwt now h data (db, c) = (case r of None \<Rightarrow> (db1, c1, Hang_up)
      | Some (mode, code) \<Rightarrow> init_document (memory_ops now) db1 mode code (im_Offset m) (im_Data m) c1)"
    using m t a by (auto simp: processInitMessage_def init_fields_def Let_def)
  show ?thesis
  proof (cases r)
    case (Some mc)
    then show ?thesis
      using p mem_init_document_docs [of now db1 _ _ "im_Offset m" "im_Data m" c1 db' c' v] l
      by (cases mc) (simp add: eq, metis)
  qed (use p l in \<open>simp add: eq\<close>)
qed

text \<open>
  C15: Whatever an init message holds, it changes no document, or it creates the client's
  document, which did not exist, with the data of the message; the latter only if the
  connection succeeds, and the client may write or the creation mode is none of the three that
  are documented. So no client that may only read creates a document with a documented mode
  (with any other it can).
\<close>

theorem init_creates_only_with_permission:
  assumes "processInitMessage (memory_ops now) jwt now h data (db, c) = (db', c', v)"
  shows "mem_live now db' = mem_live now db
    \<or> (\<exists>m. decodeInitMessage data = Ok m \<and> v = Go_on
        \<and> (cl_writePermission c' \<or> uint (im_CreationMode m) \<notin> {PossiblyCreate, NeverCreate, AlwaysCreate})
        \<and> mem_live now db (cl_docID c') = None
        \<and> mem_live now db' = (mem_live now db)(cl_docID c' \<mapsto> im_Data m))"
proof (cases "decodeInitMessage data")
  case (Ok m)
  consider "im_MessageType m \<noteq> 1 \<or> im_ProtocolVersion m \<notin> {2, 3}" | "good_init m"
    | "im_MessageType m = 1" "im_ProtocolVersion m \<in> {2, 3}"
      "uint (im_CreationMode m) \<notin> {PossiblyCreate, NeverCreate, AlwaysCreate}"
    unfolding good_init_def by blast
  then show ?thesis
  proof cases
    case 1
    then show ?thesis using assms processInit_bad [OF Ok 1, of "memory_ops now" jwt now h db c] by simp
  next
    case 2
    then show ?thesis using init_creates_with_permission [OF Ok 2 assms] Ok by blast
  next
    case 3
    then show ?thesis using init_unknown_mode_docs [OF Ok 3(1,2) assms] Ok by blast
  qed
qed (use assms in \<open>simp_all add: processInitMessage_def\<close>)

theorem init_creates_only_with_permission_witness:
  "\<exists>db' c' v. processInitMessage (memory_ops (Time 0)) no_jwt (Time 0) newHub
       (demo_init_bytes 2 0 ''x'' [5]) (NewMemoryDB, new_client 1) = (db', c', v)
     \<and> (mem_live (Time 0) db' = mem_live (Time 0) NewMemoryDB \<or> cl_writePermission c')"
proof -
  obtain db' c' v where e: "processInitMessage (memory_ops (Time 0)) no_jwt (Time 0) newHub
       (demo_init_bytes 2 0 ''x'' [5]) (NewMemoryDB, new_client 1) = (db', c', v)"
    by (metis surj_pair)
  have "decodeInitMessage (demo_init_bytes 2 0 ''x'' [5]) = Ok (demo_init 2 0 ''x'' [5])"
    by (rule demo_init_decode) simp_all
  moreover have "uint (im_CreationMode (demo_init 2 0 ''x'' [5])) \<in> {PossiblyCreate, NeverCreate, AlwaysCreate}"
    by (simp add: demo_init_def go_defs)
  ultimately show ?thesis
    using init_creates_only_with_permission [OF e] e by auto
qed

text \<open>
  C16: With a JWT key configured, nobody gets at a document without a valid token: if the
  document ID of the init message is neither a stored token nor a JWT that checks out, the
  client is turned away with an error as the only message it is sent, and no document is
  created or changed.
\<close>

theorem init_requires_token:
  assumes "hub_jwtKey h \<noteq> []" and "decodeInitMessage data = Ok m" and "good_init m"
    and "look_up_token (memory_ops now) jwt now h db (im_DocID m) = (db1, Inl err)"
  shows "\<exists>c' e t. processInitMessage (memory_ops now) jwt now h data (db, c) = (db1, c', Hang_up)
    \<and> mem_live now db1 = mem_live now db
    \<and> cl_queued c' = cl_queued c @ [encode [] (errorMessage_refl (error_message e t))]"
proof -
  obtain c1 r where a: "init_access h (im_DocID m) (uint (im_CreationMode m)) (Inl err) (init_fields m c) = (c1, r)"
    by (metis surj_pair)
  have "r = None"
    using init_access_denied_jwt [OF assms(1), of "im_DocID m" "uint (im_CreationMode m)" err "init_fields m c"] a
    by simp
  with a init_access_frame(7) [OF a] show ?thesis
    using processInit_eq [OF assms(2-4), of c] mem.look_up_token_keeps [of now jwt now h db "im_DocID m"] assms(4)
    by simp
qed

theorem init_requires_token_witness:
  "\<exists>c'. processInitMessage (memory_ops (Time 0)) no_jwt (Time 0) (newHub\<lparr>hub_jwtKey := ''key''\<rparr>)
     (demo_init_bytes 0 0 ''d'' []) (w_db demo_world, new_client 1) = (w_db demo_world, c', Hang_up)"
proof -
  have m: "decodeInitMessage (demo_init_bytes 0 0 ''d'' []) = Ok (demo_init 0 0 ''d'' [])"
    by (rule demo_init_decode) simp_all
  have g: "good_init (demo_init 0 0 ''d'' [])"
    by (simp add: good_init_def demo_init_def go_defs)
  have l: "look_up_token (memory_ops (Time 0)) no_jwt (Time 0) (newHub\<lparr>hub_jwtKey := ''key''\<rparr>) (w_db demo_world)
      (im_DocID (demo_init 0 0 ''d'' [])) = (w_db demo_world, Inl (OtherError ''token is malformed''))"
    by (simp add: look_up_token_def memory_ops_def mem_GetToken_def demo_world_def NewMemoryDB_def
        demo_init_def decodeJWT_def no_jwt_def)
  show ?thesis
    using init_requires_token [OF _ m g l, of "new_client 1"] by auto
qed

text \<open>
  C22: A client whose init message succeeds is brought up to date: it is sent one append
  message, with the rest of the document from its offset to the end, and its end is the
  length of the document.
\<close>

theorem init_sends_rest_of_document:
  assumes "decodeInitMessage data = Ok m" and "good_init m" and "cl_lastEnd c = 0"
    and "processInitMessage (memory_ops now) jwt now h data (db, c) = (db', c', Go_on)"
  shows "\<exists>doc n. mem_live now db' (cl_docID c') = Some doc \<and> n \<le> length doc
    \<and> (int n = int_of_u64 (im_Offset m) \<or> mem_live now db (cl_docID c') = None \<and> n = length doc)
    \<and> cl_queued c' = cl_queued c @ [append_bytes (im_ProtocolVersion m) (drop n doc) (word_of_nat n)]
    \<and> cl_lastEnd c' = u64_len doc"
proof (rule mem.processInit_cases [OF _ assms(1,2), of now jwt now h db c])
  fix db1 dbx res c1 cx mode code doc n
  assume p: "processInitMessage (memory_ops now) jwt now h data (db, c) = (dbx, cx, Go_on)"
    and a: "init_access h (im_DocID m) (uint (im_CreationMode m)) res (init_fields m c) = (c1, Some (mode, code))"
    and cx: "cx = enqueueAppend (drop n doc) (word_of_nat n) c1"
    and n: "n \<le> length doc" and doc: "mem_live now dbx (cl_docID cx) = Some doc"
    and l: "mem_live now dbx = mem_live now db \<and> int n = int_of_u64 (im_Offset m)
         \<or> mem_live now db (cl_docID cx) = None \<and> mode \<noteq> NeverCreate \<and> doc = im_Data m \<and> n = length doc
           \<and> mem_live now dbx = (mem_live now db)(cl_docID cx \<mapsto> im_Data m)"
  have eqs: "dbx = db'" "cx = c'" using p assms(4) by simp_all
  have c1: "cl_lastEnd c1 = 0" "cl_queued c1 = cl_queued c" "cl_protocolVersion c1 = im_ProtocolVersion m"
    using init_access_frame [OF a] assms(3) by simp_all
  have "word_of_nat n + u64_len (drop n doc) = u64_len doc"
    using n by (simp add: u64_len_def flip: of_nat_add)
  with c1 have "cl_queued cx = cl_queued c @ [append_bytes (im_ProtocolVersion m) (drop n doc) (word_of_nat n)]"
    "cl_lastEnd cx = u64_len doc"
    by (simp_all add: cx enqueueAppend_def)
  with n doc l eqs show ?thesis by blast
qed (use assms(4) in simp_all)

lemma demo_get_token:
  "look_up_token (memory_ops now) jwt now' newHub (w_db demo_world) d = (w_db demo_world, Inl ErrMissing)"
  by (simp add: look_up_token_def memory_ops_def mem_GetToken_def demo_world_def NewMemoryDB_def newHub_def)

lemma demo_GetDocument:
  "GetDocument (memory_ops (Time 0)) (w_db demo_world) ''d'' 0 init = (w_db demo_world, Inr ([1, 2], False))"
  by (simp add: memory_ops_def mem_GetDocument_def demo_world_def NewMemoryDB_def clean_def go_defs Let_def)

lemma demo_init_good: "good_init (demo_init 0 off d data)"
  by (simp add: good_init_def demo_init_def go_defs)

theorem init_sends_rest_of_document_witness:
  "\<exists>db' c'. processInitMessage (memory_ops (Time 0)) no_jwt (Time 0) newHub
       (demo_init_bytes 0 1 ''d'' []) (w_db demo_world, new_client 1) = (db', c', Go_on)
     \<and> cl_queued c' = [append_bytes 3 [2] 1] \<and> cl_lastEnd c' = 2"
proof -
  let ?m = "demo_init 0 1 ''d'' []"
  have m: "decodeInitMessage (demo_init_bytes 0 1 ''d'' []) = Ok ?m"
    by (rule demo_init_decode) simp_all
  have lk: "look_up_token (memory_ops (Time 0)) no_jwt (Time 0) newHub (w_db demo_world) (im_DocID ?m)
      = (w_db demo_world, Inl ErrMissing)" by (rule demo_get_token)
  obtain c' where e: "processInitMessage (memory_ops (Time 0)) no_jwt (Time 0) newHub
      (demo_init_bytes 0 1 ''d'' []) (w_db demo_world, new_client 1) = (w_db demo_world, c', Go_on)"
      and d: "cl_docID c' = ''d''"
    using processInit_eq [OF m demo_init_good lk, of "new_client 1"]
    by (simp add: init_access_def newHub_def init_document_def demo_init_def demo_GetDocument
        int_of_u64_small enqueueAppend_def init_fields_def)
  have "cl_lastEnd (new_client 1) = 0" "cl_queued (new_client 1) = []" by (simp_all add: new_client_def)
  with init_sends_rest_of_document [OF m demo_init_good _ e] obtain doc n where
    s: "mem_live (Time 0) (w_db demo_world) ''d'' = Some doc"
       "int n = int_of_u64 1 \<or> mem_live (Time 0) (w_db demo_world) ''d'' = None \<and> n = length doc"
       "cl_queued c' = [append_bytes 3 (drop n doc) (word_of_nat n)]" "cl_lastEnd c' = u64_len doc"
    by (auto simp: d demo_init_def)
  have "doc = [1, 2]" "n = 1"
    using s(1,2) by (simp_all add: demo_world_doc int_of_u64_small)
  then show ?thesis using e s(3,4) by (simp add: u64_len_def)
qed

text \<open>
  C39: The offset of the init message is converted to a signed integer before it is compared
  with the document's length. A client that asks for an existing document at an offset of 2
  to the 63 or more makes the handler panic, instead of getting ``invalid offset''.
\<close>

theorem init_negative_offset_panics:
  assumes "decodeInitMessage data = Ok m" and "good_init m"
    and "im_CreationMode m = 0" and "2 ^ 63 \<le> im_Offset m"
    and "hub_jwtKey h = []" and "mem_tokens db (im_DocID m) = None"
    and "mem_live now db (im_DocID m) = Some doc"
  shows "\<exists>db' c'. processInitMessage (memory_ops now) jwt now h data (db, c) = (db', c', Panics)"
proof -
  have lk: "look_up_token (memory_ops now) jwt now h db (im_DocID m) = (db, Inl ErrMissing)"
    using assms(5,6) by (simp add: look_up_token_def memory_ops_def mem_GetToken_def)
  have neg: "int_of_u64 (im_Offset m) < 0"
    using int_of_u64_nonneg [of "im_Offset m"] assms(4) by (simp add: word_le_def)
  obtain db' where g: "GetDocument (memory_ops now) db (im_DocID m) 0 (im_Data m) = (db', Inr (doc, False))"
    using mem.get_found [of now db "im_DocID m" doc 0 "im_Data m"] assms(7) by (auto simp: go_defs)
  show ?thesis
    using processInit_eq [OF assms(1,2) lk, of c] neg g
    by (simp add: init_access_def assms(3,5) init_document_def)
qed

theorem init_negative_offset_panics_witness:
  "\<exists>db' c'. processInitMessage (memory_ops (Time 0)) no_jwt (Time 0) newHub
     (demo_init_bytes 0 (2 ^ 63) ''d'' []) (w_db demo_world, new_client 1) = (db', c', Panics)"
proof -
  have m: "decodeInitMessage (demo_init_bytes 0 (2 ^ 63) ''d'' []) = Ok (demo_init 0 (2 ^ 63) ''d'' [])"
    by (rule demo_init_decode) simp_all
  show ?thesis
    by (rule init_negative_offset_panics [OF m demo_init_good, of _ _ _ "[1, 2]"])
      (simp_all add: demo_init_def newHub_def demo_world_doc, simp add: demo_world_def NewMemoryDB_def)
qed

text \<open>
  The check that keeps a client without the permission to write from creating documents
  knows only the three documented creation modes. The message's byte is passed on unchecked,
  and with any mode from 3 the memory database creates the document for a read-only token,
  with the data of the client.
\<close>

theorem reader_creates_with_unknown_mode:
  assumes "decodeInitMessage data = Ok m" and "im_MessageType m = 1" and "im_ProtocolVersion m = 3"
    and "3 \<le> im_CreationMode m" and "mem_tokens db (im_DocID m) = Some tok"
    and "unix_sec now \<le> tok_expiration tok" and "tok_permissions tok = ''r''"
    and "mem_live now db (tok_docID tok) = None"
  shows "\<exists>db' c'. processInitMessage (memory_ops now) jwt now h data (db, c) = (db', c', Go_on)
    \<and> mem_live now db' (tok_docID tok) = Some (im_Data m) \<and> \<not> cl_writePermission c'"
proof -
  have "3 \<le> uint (im_CreationMode m)" using assms(4) by (simp add: word_le_def)
  then have mode: "uint (im_CreationMode m) \<noteq> AlwaysCreate" "uint (im_CreationMode m) \<noteq> PossiblyCreate"
      "uint (im_CreationMode m) \<noteq> NeverCreate" by (auto simp: go_defs)
  have lk: "look_up_token (memory_ops now) jwt now h db (im_DocID m) = (db, Inr (tok_docID tok, tok_userID tok, ''r''))"
    using assms(5-7) by (simp add: look_up_token_def memory_ops_def mem_GetToken_def)
  have none: "mem_docs (clean now db) (tok_docID tok) = None"
    using assms(8) by (simp add: mem_live_def)
  let ?db' = "(clean now db)\<lparr>mem_docs := (mem_docs (clean now db))(tok_docID tok \<mapsto>
     \<lparr>doc_data = im_Data m, doc_lastAccess = now\<rparr>)\<rparr>"
  have g: "GetDocument (memory_ops now) db (tok_docID tok) (uint (im_CreationMode m)) (im_Data m)
      = (?db', Inr (im_Data m, True))"
    using mode none by (simp add: memory_ops_def mem_GetDocument_def Let_def)
  obtain c' where "processInitMessage (memory_ops now) jwt now h data (db, c) = (?db', c', Go_on)"
      and "\<not> cl_writePermission c'"
    using assms(1-3) lk mode g
    by (auto simp: processInitMessage_def Let_def init_access_def init_document_def enqueueAppend_def
        split: if_splits)
  moreover have "mem_live now ?db' (tok_docID tok) = Some (im_Data m)"
    by (simp add: live_update)
  ultimately show ?thesis by blast
qed

theorem reader_creates_with_unknown_mode_witness:
  "\<exists>db db' c'. mem_tokens db ''t'' = Some \<lparr>tok_docID = ''new'', tok_userID = ''u'', tok_permissions = ''r'',
       tok_expiration = 10\<rparr>
     \<and> processInitMessage (memory_ops (Time 0)) no_jwt (Time 0) newHub (demo_init_bytes 3 0 ''t'' [66])
         (db, new_client 1) = (db', c', Go_on)
     \<and> mem_live (Time 0) db' ''new'' = Some [66]"
proof -
  let ?tok = "\<lparr>tok_docID = ''new'', tok_userID = ''u'', tok_permissions = ''r'', tok_expiration = 10\<rparr>"
  let ?db = "NewMemoryDB\<lparr>mem_tokens := [''t'' \<mapsto> ?tok]\<rparr>"
  have m: "decodeInitMessage (demo_init_bytes 3 0 ''t'' [66]) = Ok (demo_init 3 0 ''t'' [66])"
    by (rule demo_init_decode) simp_all
  have "\<exists>db' c'. processInitMessage (memory_ops (Time 0)) no_jwt (Time 0) newHub (demo_init_bytes 3 0 ''t'' [66])
        (?db, new_client 1) = (db', c', Go_on)
      \<and> mem_live (Time 0) db' (tok_docID ?tok) = Some (im_Data (demo_init 3 0 ''t'' [66])) \<and> \<not> cl_writePermission c'"
    by (rule reader_creates_with_unknown_mode [OF m])
      (simp_all add: demo_init_def unix_sec_def mem_live_def clean_def NewMemoryDB_def)
  then obtain db' c' where "processInitMessage (memory_ops (Time 0)) no_jwt (Time 0) newHub
      (demo_init_bytes 3 0 ''t'' [66]) (?db, new_client 1) = (db', c', Go_on)"
      "mem_live (Time 0) db' ''new'' = Some [66]"
    by (auto simp: demo_init_def)
  then show ?thesis
    by (intro exI [of _ ?db] exI [of _ db'] exI [of _ c'] conjI) simp_all
qed

section \<open>JSON web tokens\<close>

text \<open>
  C28: A JWT is accepted only if its signing method is HMAC and it has not expired, and then
  for the document, user and permissions of its claims. The hypothesis on the library:
  it rejects a token when the function that gives it the key fails (\<open>hmac\<close> tells the tokens
  whose method is HMAC).
\<close>

theorem decodeJWT_accepts_only:
  assumes "\<And>tok kf e. \<not> hmac tok \<Longrightarrow> kf False = Inl e \<Longrightarrow> \<exists>err. ParseWithClaims jwt tok kf = Inl err"
    and "decodeJWT jwt now jwtKey keyIsBase64 tokenString = Inr (d, u, p)"
  shows "hmac tokenString \<and> (\<exists>cm. ParseWithClaims jwt tokenString (jwt_key jwtKey keyIsBase64) = Inr cm
    \<and> unix_sec now < cm_ExpiresAt cm \<and> cm_Subject cm = d \<and> cm_UserID cm = u \<and> cm_Permissions cm = p)"
proof -
  obtain cm where cm: "ParseWithClaims jwt tokenString (jwt_key jwtKey keyIsBase64) = Inr cm"
    "unix_sec now < cm_ExpiresAt cm" "cm_Subject cm = d" "cm_UserID cm = u" "cm_Permissions cm = p"
    using assms(2) by (auto simp: decodeJWT_def split: sum.splits if_splits)
  moreover have "hmac tokenString"
    using assms(1) [of tokenString "jwt_key jwtKey keyIsBase64"] cm(1) by (auto simp: jwt_key_def)
  ultimately show ?thesis by blast
qed

text \<open>A library that knows one token, signed with HMAC, and one that is not.\<close>

definition demo_jwt :: jwt_lib where
  "demo_jwt = \<lparr>ParseWithClaims = (\<lambda>tok kf. case kf (tok = ''signed'') of
       Inl _ \<Rightarrow> Inl (2, ''unverifiable'')
     | Inr key \<Rightarrow> if key = [77, 97, 110]
         then Inr \<lparr>cm_ExpiresAt = 100, cm_Subject = ''d'', cm_UserID = ''u'', cm_Permissions = ''r''\<rparr>
         else Inl (4, ''signature'')),
     ValidationErrorExpired = 16, ValidationErrorSignatureInvalid = 4\<rparr>"

lemma demo_base64: "base64_decode (''TW'' @ [CHR 0x0A] @ ''Fu'') = Inr [77, 97, 110]"
  by code_simp

theorem decodeJWT_accepts_only_witness:
  "decodeJWT demo_jwt (Time 0) (''TW'' @ [CHR 0x0A] @ ''Fu'') True ''signed'' = Inr (''d'', ''u'', ''r'')
   \<and> (\<nexists>x. decodeJWT demo_jwt (Time 0) (''TW'' @ [CHR 0x0A] @ ''Fu'') True ''other'' = Inr x)"
proof -
  have lib: "\<exists>err. ParseWithClaims demo_jwt tok kf = Inl err" if "tok \<noteq> ''signed''" "kf False = Inl e" for tok kf e
    using that by (simp add: demo_jwt_def)
  have "decodeJWT demo_jwt (Time 0) (''TW'' @ [CHR 0x0A] @ ''Fu'') True ''signed'' = Inr (''d'', ''u'', ''r'')"
    using demo_base64 by (simp add: decodeJWT_def demo_jwt_def jwt_key_def unix_sec_def)
  moreover have "decodeJWT demo_jwt (Time 0) (''TW'' @ [CHR 0x0A] @ ''Fu'') True ''other'' \<noteq> Inr (d, u, p)" for d u p
  proof
    assume "decodeJWT demo_jwt (Time 0) (''TW'' @ [CHR 0x0A] @ ''Fu'') True ''other'' = Inr (d, u, p)"
    from decodeJWT_accepts_only [of "\<lambda>t. t = ''signed''", OF _ this] lib have "''other'' = ''signed''" by blast
    then show False by simp
  qed
  ultimately show ?thesis by auto
qed

section \<open>Keys\<close>

text \<open>
  A client without the administrator permission cannot set a key whose name starts with
  ``admin:'', neither for the session nor for the document: whatever versions and values it
  sends, the database, the hub and every other client stay as they are, and it gets a NACK.
\<close>

theorem admin_keys_protected:
  assumes "w_clients w r = Some c" and "\<not> cl_adminPermission c"
    and "decode_setKeyMessage data = Ok m" and "sk_Name m = ''admin:'' @ rest"
    and "data ! 0 = setKeyMessageType" and "data \<noteq> []"
    and "handle_message ops r data w = (w', v)"
  shows "v = Go_on \<and> w_db w' = w_db w \<and> w_hub w' = w_hub w
    \<and> w_clients w' = (w_clients w)(r \<mapsto> enqueueSetKeyAckNack False (sk_RequestID m) c)"
proof -
  have "has_prefix (sk_Name m) ''admin:''" by (simp add: assms(4) has_prefix_iff)
  then have "processSetKey ops r c data w = (upd_world (enqueueSetKeyAckNack False (sk_RequestID m)) r w, Go_on)"
    using assms(2,3) by (simp add: processSetKey_def set_key_def)
  moreover have "handle_message ops r data w = processSetKey ops r c data w"
    using assms(1,5,6) by (cases data) (simp_all add: handle_message_def go_defs)
  moreover have "w_clients (upd_world f r w) = (w_clients w)(r \<mapsto> f c)" for f
    using assms(1) by (auto simp: fun_eq_iff)
  ultimately show ?thesis using assms(7) by auto
qed

definition demo_admin_key :: setKeyMessage where
  "demo_admin_key = \<lparr>sk_MessageType = 3, sk_More = 0, sk_RequestID = 4, sk_Lifetime = 1, sk_OldVersion = 0,
     sk_NewVersion = 1, sk_NameLength = 7, sk_Name = ''admin:x'', sk_ValueLength = 1, sk_Value = ''v''\<rparr>"

theorem admin_keys_protected_witness:
  "w_db (fst (handle_message (memory_ops (Time 0)) 5 (encode [] (setKeyMessage_refl demo_admin_key)) demo_world))
     = w_db demo_world"
proof -
  let ?d = "encode [] (setKeyMessage_refl demo_admin_key)"
  have m: "decode_setKeyMessage ?d = Ok demo_admin_key"
    by (rule setKeyMessage_roundtrip) (simp_all add: demo_admin_key_def encode_enc setKeyMessage_refl_def)
  have d: "?d ! 0 = setKeyMessageType" "?d \<noteq> []"
    by (simp_all add: demo_admin_key_def encode_enc setKeyMessage_refl_def go_defs)
  obtain w' v where e: "handle_message (memory_ops (Time 0)) 5 ?d demo_world = (w', v)"
    by (metis surj_pair)
  have n: "sk_Name demo_admin_key = ''admin:'' @ ''x''" by (simp add: demo_admin_key_def)
  have a: "\<not> cl_adminPermission ((new_client 5)\<lparr>cl_docID := ''d'', cl_userID := ''u'', cl_writePermission := True\<rparr>)"
    by (simp add: new_client_def)
  show ?thesis
    using admin_keys_protected [OF demo_world_clients(1) a m n d e] e by simp
qed

end
