(* ===== verification/WriteThread.thy ===== *)
theory WriteThread
  imports ClientQueue
begin

text \<open>
  \<open>writeThread\<close> of \<open>client.go\<close>, the goroutine that sends what is queued for a client, beside
  the goroutines that queue it. A client's mutex and condition variable are made explicit:
  a step is what one goroutine does while it holds the mutex, the writer is woken only by a
  \<open>Signal\<close>, and whether a method signals is part of its step.
\<close>

section \<open>State\<close>

text \<open>
  Where the writer is: at the head of its loop with its local \<open>closed\<close>, in \<open>Wait\<close>, sending
  what it took from the client without the mutex, or done, with the socket closed. A message
  sent is one call of \<open>c.sendMessage\<close>.
\<close>

datatype writer_pc = Looping bool | Waiting | Sending "bytes list" "Key list" bool | Finished

datatype sent_item = Message bytes | KeyInfo bytes

record writer =
  wr_client :: client
  wr_pc :: writer_pc
  wr_sent :: "sent_item list"

section \<open>The writer\<close>

definition key_messages :: "Key list \<Rightarrow> sent_item list" where
  "key_messages keys = (if keys = [] then []
     else [KeyInfo (encode [] (keyInformationMessage_refl (keyInfo_message keys)))])"

text \<open>The loop's critical section, and the sends that follow it.\<close>

fun writer_step :: "writer \<Rightarrow> writer" where
  "writer_step s =
     (let c = wr_client s in
      case wr_pc s of
        Looping closed \<Rightarrow>
          if closed then s\<lparr>wr_pc := Finished\<rparr>
          else if cl_queued c = [] \<and> cl_keys c = [] \<and> \<not> cl_closed c then s\<lparr>wr_pc := Waiting\<rparr>
          else s\<lparr>wr_client := c\<lparr>cl_queued := [], cl_keys := []\<rparr>,
                 wr_pc := Sending (cl_queued c) (cl_keys c) (cl_closed c)\<rparr>
      | Sending messages keys closed \<Rightarrow>
          s\<lparr>wr_sent := wr_sent s @ map Message messages @ key_messages keys,
            wr_pc := Looping closed\<rparr>
      | _ \<Rightarrow> s)"

text \<open>A send panicked after the first \<open>n\<close> messages: the deferred function closes the socket.\<close>

definition writer_panic :: "nat \<Rightarrow> writer \<Rightarrow> writer" where
  "writer_panic n s = (case wr_pc s of
     Sending messages keys closed \<Rightarrow>
       s\<lparr>wr_sent := wr_sent s @ map Message (take n messages), wr_pc := Finished\<rparr>
   | _ \<Rightarrow> s)"

section \<open>The other goroutines\<close>

text \<open>\<open>c.wakeup.Signal()\<close>: the writer, if it waits, tests its condition again.\<close>

definition signal :: "writer \<Rightarrow> writer" where
  "signal s = (if wr_pc s = Waiting then s\<lparr>wr_pc := Looping False\<rparr> else s)"

definition with_client :: "(client \<Rightarrow> client) \<Rightarrow> writer \<Rightarrow> writer" where
  "with_client f s = s\<lparr>wr_client := f (wr_client s)\<rparr>"

text \<open>\<open>added\<close> in \<open>notifyKeysUpdated\<close>: the method signals only if it has changed something.\<close>

definition key_added :: "Key \<Rightarrow> Key list \<Rightarrow> bool" where
  "key_added key pending = (case find (\<lambda>k. key_Name k = key_Name key) pending of
     None \<Rightarrow> True | Some k \<Rightarrow> key_Version key \<ge> key_Version k)"

fun keys_added :: "Key list \<Rightarrow> Key list \<Rightarrow> bool" where
  "keys_added [] pending = False"
| "keys_added (key # keys) pending \<longleftrightarrow> key_added key pending \<or> keys_added keys (notify_key key pending)"

definition keys_updated :: "Key list \<Rightarrow> writer \<Rightarrow> writer" where
  "keys_updated keys s =
     (let s' = with_client (notifyKeysUpdated keys) s
      in if keys_added keys (cl_keys (wr_client s)) then signal s' else s')"

definition queue_message :: "refl list \<Rightarrow> writer \<Rightarrow> writer" where
  "queue_message m s = signal (with_client (enqueue m) s)"

text \<open>
  \<open>runClient\<close> sets \<open>closed\<close> and signals. \<open>notifyLostAccess\<close> queues its error, which is one
  critical section, and in another sets \<open>closed\<close> without a signal.
\<close>

definition close_and_signal :: "writer \<Rightarrow> writer" where
  "close_and_signal s = signal (with_client (\<lambda>c. c\<lparr>cl_closed := True\<rparr>) s)"

definition close_silently :: "writer \<Rightarrow> writer" where
  "close_silently s = with_client (\<lambda>c. c\<lparr>cl_closed := True\<rparr>) s"

datatype writer_event = Queue "refl list" | Update "Key list" | Close | Lose_access | Write | Fail nat

fun writer_do :: "writer_event \<Rightarrow> writer \<Rightarrow> writer" where
  "writer_do (Queue m) s = queue_message m s"
| "writer_do (Update keys) s = keys_updated keys s"
| "writer_do Close s = close_and_signal s"
| "writer_do Lose_access s = close_silently s"
| "writer_do Write s = writer_step s"
| "writer_do (Fail n) s = writer_panic n s"

definition new_writer :: "client \<Rightarrow> writer" where
  "new_writer c = \<lparr>wr_client = c, wr_pc = Looping False, wr_sent = []\<rparr>"

definition writer_run :: "client \<Rightarrow> writer_event list \<Rightarrow> writer" where
  "writer_run c es = fold writer_do es (new_writer c)"

section \<open>Lemmas\<close>

lemma notify_key_not_added: "\<not> key_added key pending \<Longrightarrow> notify_key key pending = pending"
  by (induction pending) (auto simp: key_added_def split: if_splits)

lemma keys_not_added:
  "\<not> keys_added keys pending \<Longrightarrow> foldl (\<lambda>p key. notify_key key p) pending keys = pending"
  by (induction keys arbitrary: pending) (auto simp: notify_key_not_added)

lemma enqueue_queued: "cl_queued (enqueue m c) = cl_queued c @ [encode [] m]"
  by (simp add: enqueue_def)

lemmas writer_defs = queue_message_def keys_updated_def close_and_signal_def close_silently_def
  writer_panic_def signal_def with_client_def Let_def

text \<open>While the writer waits, nothing is queued: every method that queues wakes it.\<close>

definition no_missed :: "writer \<Rightarrow> bool" where
  "no_missed s \<longleftrightarrow> (wr_pc s = Waiting \<longrightarrow> cl_queued (wr_client s) = [] \<and> cl_keys (wr_client s) = [])"

lemma writer_do_no_missed: "no_missed s \<Longrightarrow> no_missed (writer_do e s)"
proof (cases e)
  case (Update keys)
  assume "no_missed s"
  then show ?thesis
    using keys_not_added [of keys "cl_keys (wr_client s)"]
    by (auto simp: Update no_missed_def writer_defs notifyKeysUpdated_def)
qed (auto simp: no_missed_def writer_defs enqueue_queued frame_simps split: writer_pc.splits)

lemma writer_run_snoc: "writer_run c (es @ [e]) = writer_do e (writer_run c es)"
  by (simp add: writer_run_def)

lemma writer_run_no_missed: "no_missed (writer_run c es)"
proof (induction es rule: rev_induct)
  case Nil
  show ?case by (simp add: writer_run_def new_writer_def no_missed_def)
qed (simp add: writer_run_snoc writer_do_no_missed)

text \<open>The messages queued by a run, and those it has sent.\<close>

fun message_of :: "sent_item \<Rightarrow> bytes list" where
  "message_of (Message b) = [b]"
| "message_of (KeyInfo b) = []"

fun queued_of :: "writer_event \<Rightarrow> bytes list" where
  "queued_of (Queue m) = [encode [] m]"
| "queued_of _ = []"

definition queued_by :: "writer_event list \<Rightarrow> bytes list" where
  "queued_by es = concat (map queued_of es)"

definition sent_messages :: "writer \<Rightarrow> bytes list" where
  "sent_messages s = concat (map message_of (wr_sent s))"

definition in_flight :: "writer \<Rightarrow> bytes list" where
  "in_flight s = (case wr_pc s of Sending ms ks closed \<Rightarrow> ms | _ \<Rightarrow> [])"

lemma concat_messages [simp]:
  "concat (map (message_of \<circ> Message) ms) = ms" "concat (map message_of (key_messages ks)) = []"
  by (induction ms) (auto simp: key_messages_def)

definition pipeline :: "writer \<Rightarrow> bytes list" where
  "pipeline s = sent_messages s @ in_flight s @ cl_queued (wr_client s)"

lemma writer_do_pipeline:
  "(\<And>n. e \<noteq> Fail n) \<Longrightarrow> pipeline (writer_do e s) = pipeline s @ queued_of e"
  by (cases e)
    (auto simp: pipeline_def sent_messages_def in_flight_def writer_defs enqueue_queued
      frame_simps split: writer_pc.splits)

lemma writer_run_pipeline:
  "(\<And>n. Fail n \<notin> set es) \<Longrightarrow> pipeline (writer_run c es) = cl_queued c @ queued_by es"
proof (induction es rule: rev_induct)
  case Nil
  show ?case
    by (simp add: writer_run_def new_writer_def pipeline_def sent_messages_def in_flight_def queued_by_def)
next
  case (snoc e es)
  then show ?case
    using writer_do_pipeline [of e "writer_run c es"]
    by (auto simp: writer_run_snoc queued_by_def)
qed

text \<open>Until the client is closed, the writer's own flags are false and it is not done.\<close>

definition open_writer :: "writer \<Rightarrow> bool" where
  "open_writer s \<longleftrightarrow> \<not> cl_closed (wr_client s) \<and> (case wr_pc s of
     Looping b \<Rightarrow> \<not> b | Waiting \<Rightarrow> True | Sending ms ks b \<Rightarrow> \<not> b | Finished \<Rightarrow> False)"

lemma writer_do_open:
  "open_writer s \<Longrightarrow> e \<noteq> Close \<Longrightarrow> e \<noteq> Lose_access \<Longrightarrow> (\<And>n. e \<noteq> Fail n) \<Longrightarrow> open_writer (writer_do e s)"
  by (cases e)
    (auto simp: open_writer_def writer_defs notifyKeysUpdated_def frame_simps split: writer_pc.splits)

lemma writer_run_open:
  "\<not> cl_closed c \<Longrightarrow> Close \<notin> set es \<Longrightarrow> Lose_access \<notin> set es \<Longrightarrow> (\<And>n. Fail n \<notin> set es) \<Longrightarrow>
   open_writer (writer_run c es)"
proof (induction es rule: rev_induct)
  case Nil
  then show ?case by (simp add: writer_run_def new_writer_def open_writer_def)
next
  case (snoc e es)
  then show ?case using writer_do_open [of "writer_run c es" e] by (auto simp: writer_run_snoc)
qed

text \<open>A closed client is finished in three steps from the head of the loop.\<close>

lemma finished_step: "wr_pc s = Finished \<Longrightarrow> writer_step s = s"
  by (simp add: Let_def)

lemma finish_looping:
  assumes "wr_pc s = Looping False" and "cl_closed (wr_client s)"
  shows "wr_pc (writer_step (writer_step (writer_step s))) = Finished
    \<and> sent_messages (writer_step (writer_step (writer_step s))) = sent_messages s @ cl_queued (wr_client s)"
  using assms by (simp add: sent_messages_def Let_def)

lemma finish_closing:
  assumes "open_writer s" and "no_missed s"
  shows "wr_pc (writer_step (writer_step (writer_step (writer_step (writer_step (close_and_signal s)))))) = Finished
    \<and> sent_messages (writer_step (writer_step (writer_step (writer_step (writer_step (close_and_signal s))))))
      = sent_messages s @ in_flight s @ cl_queued (wr_client s)"
proof -
  let ?c = "close_and_signal s"
  have c: "cl_closed (wr_client ?c)" "sent_messages ?c = sent_messages s"
      "cl_queued (wr_client ?c) = cl_queued (wr_client s)"
    by (simp_all add: close_and_signal_def signal_def with_client_def sent_messages_def)
  show ?thesis
  proof (cases "\<exists>ms ks. wr_pc s = Sending ms ks False")
    case False
    then have s: "wr_pc ?c = Looping False" "in_flight s = []"
      using assms by (auto simp: open_writer_def close_and_signal_def signal_def with_client_def
          in_flight_def split: writer_pc.splits)
    note three = finish_looping [OF s(1) c(1)]
    show ?thesis using three c(2,3) s(2) by (simp only: finished_step append_Nil)
  next
    case True
    then obtain ms ks where ms: "wr_pc s = Sending ms ks False" by blast
    then have pc: "wr_pc ?c = Sending ms ks False"
      by (simp add: close_and_signal_def signal_def with_client_def)
    have s1: "wr_pc (writer_step ?c) = Looping False" "cl_closed (wr_client (writer_step ?c))"
        "sent_messages (writer_step ?c) = sent_messages s @ ms"
        "cl_queued (wr_client (writer_step ?c)) = cl_queued (wr_client s)"
      using c by (simp_all add: pc sent_messages_def Let_def)
    have "in_flight s = ms" by (simp add: in_flight_def ms)
    note three = finish_looping [OF s1(1,2)]
    show ?thesis
      using three s1(3,4) \<open>in_flight s = ms\<close> by (simp only: finished_step append_assoc)
  qed
qed

section \<open>Properties\<close>

text \<open>
  C29: The writer loses, repeats and reorders nothing: as long as no send panics, the
  messages sent, those being sent and those still queued are, in this order, the messages
  queued; and when the writer waits, everything has been sent and no key is pending.
\<close>

theorem writer_sends_in_order:
  assumes "\<And>n. Fail n \<notin> set es" and "cl_queued c = []"
  shows "sent_messages (writer_run c es) @ in_flight (writer_run c es) @ cl_queued (wr_client (writer_run c es))
      = queued_by es
    \<and> (wr_pc (writer_run c es) = Waiting \<longrightarrow>
        sent_messages (writer_run c es) = queued_by es \<and> cl_keys (wr_client (writer_run c es)) = [])"
  using writer_run_pipeline [OF assms(1), of c] writer_run_no_missed [of c es] assms(2)
  by (auto simp: pipeline_def no_missed_def in_flight_def)

theorem writer_sends_in_order_witness:
  "sent_messages (writer_run (new_client 1) [Write, Queue [VU8 1], Queue [VU8 2], Write, Write, Write])
     = [[1], [2]]"
proof -
  let ?es = "[Write, Queue [VU8 1], Queue [VU8 2], Write, Write, Write]"
  have "wr_pc (writer_run (new_client 1) ?es) = Waiting"
    by (simp add: writer_run_def new_writer_def new_client_def writer_defs enqueue_def)
  moreover have "cl_queued (new_client 1) = []" by (simp add: new_client_def)
  ultimately have "sent_messages (writer_run (new_client 1) ?es) = queued_by ?es"
    using writer_sends_in_order [of ?es "new_client 1"] by auto
  then show ?thesis by (simp add: queued_by_def)
qed

text \<open>
  C30: When the connection ends, which sets \<open>closed\<close> with a signal, the writer sends all that
  is queued and then closes the socket, within five steps of its own, wherever it was.
\<close>

theorem writer_finishes_after_close:
  assumes "\<not> cl_closed c" and "cl_queued c = []" and "Close \<notin> set es" and "Lose_access \<notin> set es"
    and "\<And>n. Fail n \<notin> set es"
  shows "wr_pc (writer_run c (es @ [Close, Write, Write, Write, Write, Write])) = Finished
    \<and> sent_messages (writer_run c (es @ [Close, Write, Write, Write, Write, Write])) = queued_by es"
proof -
  let ?s = "writer_run c es"
  have o: "open_writer ?s" using writer_run_open [OF assms(1,3-5)] .
  have p: "sent_messages ?s @ in_flight ?s @ cl_queued (wr_client ?s) = queued_by es"
    using writer_run_pipeline [OF assms(5), of c] assms(2) by (simp add: pipeline_def)
  have n: "no_missed ?s" by (rule writer_run_no_missed)
  have "writer_run c (es @ [Close, Write, Write, Write, Write, Write]) =
      writer_step (writer_step (writer_step (writer_step (writer_step (close_and_signal ?s)))))"
    by (simp add: writer_run_def)
  then show ?thesis
    using finish_closing [OF o n] p by (simp only:)
qed

theorem writer_finishes_after_close_witness:
  "wr_pc (writer_run (new_client 1) ([Queue [VU8 1], Write] @ [Close, Write, Write, Write, Write, Write])) = Finished"
  using writer_finishes_after_close [of "new_client 1" "[Queue [VU8 1], Write]"]
  by (simp add: new_client_def)

text \<open>
  C37: \<open>notifyLostAccess\<close> sets \<open>closed\<close> without the signal that the comment on the field asks
  for. If the writer has sent the error and waits again before that, it waits for ever, with
  \<open>closed\<close> set, and the socket is not closed.
\<close>

theorem lost_access_may_never_close:
  "wr_pc (writer_run (new_client k)
      ([Write, Queue (errorMessage_refl (error_message code [])), Write, Write, Write, Lose_access]
       @ replicate n Write)) = Waiting
   \<and> cl_closed (wr_client (writer_run (new_client k)
      ([Write, Queue (errorMessage_refl (error_message code [])), Write, Write, Write, Lose_access]
       @ replicate n Write)))"
proof -
  let ?es = "[Write, Queue (errorMessage_refl (error_message code [])), Write, Write, Write, Lose_access]"
  have s: "wr_pc (writer_run (new_client k) ?es) = Waiting" "cl_closed (wr_client (writer_run (new_client k) ?es))"
    by (simp_all add: writer_run_def new_writer_def new_client_def writer_defs enqueue_def)
  have "writer_run (new_client k) (?es @ replicate n Write) = writer_run (new_client k) ?es"
  proof (induction n)
    case (Suc n)
    have "?es @ replicate (Suc n) Write = (?es @ replicate n Write) @ [Write]"
      by (simp add: replicate_append_same)
    then have "writer_run (new_client k) (?es @ replicate (Suc n) Write)
        = writer_step (writer_run (new_client k) (?es @ replicate n Write))"
      by (simp only: writer_run_snoc writer_do.simps)
    with Suc s show ?case by (simp add: Let_def)
  qed simp
  with s show ?thesis by simp
qed

end
