(* ===== verification/Replica.thy ===== *)
theory Replica
  imports ClientQueue
begin

text \<open>
  The other end of a connection: the copy of the document that a client builds from the
  messages it is sent. The protocol promises it that appends arrive in order, each at the end
  of what it has, and that every append of its own is answered in order. \<open>receive\<close> is
  \<open>None\<close> if a message breaks a promise, so that a client whose queue can be replayed has the
  document. The code of the server has no such client; the reader of the load generator in
  \<open>stresstest.go\<close> keeps the same offsets.
\<close>

section \<open>Replaying messages\<close>

text \<open>The copy, and the client's own appends that have not been answered, the oldest first.\<close>

type_synonym replica = "bytes \<times> bytes list"

definition receive_append :: "appendMessage outcome \<Rightarrow> replica \<Rightarrow> replica option" where
  "receive_append x s = (case x of
     Ok m \<Rightarrow> if ap_Offset m = u64_len (fst s) then Some (fst s @ ap_Data m, snd s) else None
   | _ \<Rightarrow> None)"

text \<open>An ACK confirms the oldest append, any other reply means that it was not made.\<close>

definition receive_reply :: "ackNackMessage outcome \<Rightarrow> replica \<Rightarrow> replica option" where
  "receive_reply x s = (case (x, snd s) of
     (Ok m, own # rest) \<Rightarrow>
       if an_Ack m \<noteq> 1 then Some (fst s, rest)
       else if an_Offset m = u64_len (fst s @ own) then Some (fst s @ own, rest) else None
   | _ \<Rightarrow> None)"

definition receive :: "bytes \<Rightarrow> replica \<Rightarrow> replica option" where
  "receive message s = (case message of
     [] \<Rightarrow> None
   | t # _ \<Rightarrow>
       if t = appendV2MessageType \<or> t = appendMessageType then receive_append (decodeAppendMessage message) s
       else if t = ackNackMessageType then receive_reply (decode_ackNackMessage message) s
       else Some s)"

lemma receive_cases:
  obtains (bad) "receive m = (\<lambda>_. None)" | (neutral) "receive m = Some"
    | (append) x where "receive m = receive_append x" | (reply) x where "receive m = receive_reply x"
proof (cases m)
  case Nil
  then show thesis by (intro bad) (simp add: receive_def fun_eq_iff)
next
  case (Cons t rest)
  consider "t = appendV2MessageType \<or> t = appendMessageType"
    | "\<not> (t = appendV2MessageType \<or> t = appendMessageType)" "t = ackNackMessageType"
    | "\<not> (t = appendV2MessageType \<or> t = appendMessageType)" "t \<noteq> ackNackMessageType" by blast
  then show thesis
  proof cases
    case 1
    then show thesis
      unfolding Cons by (intro append [of "decodeAppendMessage m"]) (simp only: receive_def Cons list.case if_True ext)
  next
    case 2
    then show thesis
      by (intro reply [of "decode_ackNackMessage m"]) (simp only: receive_def Cons list.case if_True if_False ext simp_thms)
  next
    case 3
    then show thesis
      by (intro neutral) (simp only: receive_def Cons list.case if_False ext)
  qed
qed

fun replay :: "bytes list \<Rightarrow> replica \<Rightarrow> replica option" where
  "replay [] s = Some s"
| "replay (m # ms) s = Option.bind (receive m s) (replay ms)"

lemma replay_append: "replay (xs @ ys) s = Option.bind (replay xs s) (replay ys)"
  by (induction xs arbitrary: s) (auto simp: bind_eq_None_conv split: Option.bind_splits)

lemma replay_then: "replay xs s = Some s' \<Longrightarrow> replay (xs @ ys) s = replay ys s'"
  by (simp add: replay_append)

text \<open>Messages that do not concern the document. All messages have at least two bytes.\<close>

definition neutral :: "bytes \<Rightarrow> bool" where
  "neutral m \<longleftrightarrow> (\<exists>t more rest. m = t # more # rest
     \<and> t \<notin> {appendV2MessageType, appendMessageType, ackNackMessageType})"

lemma receive_neutral: "neutral m \<Longrightarrow> receive m s = Some s"
  by (auto simp: neutral_def receive_def)

lemma neutral_length: "neutral m \<Longrightarrow> 2 \<le> length m"
  by (auto simp: neutral_def)

lemma replay_neutral: "\<forall>m\<in>set ms. neutral m \<Longrightarrow> replay ms s = Some s"
  by (induction ms) (simp_all add: receive_neutral)

section \<open>Appends sent later\<close>

text \<open>More unanswered appends at the end do not change what has been received.\<close>

lemma receive_append_more: "receive_append x (view, own) = Some (view', own') \<Longrightarrow>
    receive_append x (view, own @ later) = Some (view', own' @ later)"
  by (auto simp: receive_append_def split: outcome.splits if_splits)

lemma receive_reply_more: "receive_reply x (view, own) = Some (view', own') \<Longrightarrow>
    receive_reply x (view, own @ later) = Some (view', own' @ later)"
  by (auto simp: receive_reply_def split: outcome.splits list.splits if_splits)

lemma receive_more: "receive m (view, own) = Some (view', own') \<Longrightarrow>
    receive m (view, own @ later) = Some (view', own' @ later)"
  by (cases rule: receive_cases [of m]) (simp_all add: receive_append_more receive_reply_more)

lemma replay_more: "replay ms (view, own) = Some (view', own') \<Longrightarrow>
    replay ms (view, own @ later) = Some (view', own' @ later)"
proof (induction ms arbitrary: view own)
  case (Cons m ms)
  from Cons.prems obtain v o' where r: "receive m (view, own) = Some (v, o')"
    and "replay ms (v, o') = Some (view', own')"
    by (auto simp: bind_eq_Some_conv)
  with Cons.IH [of v o'] receive_more [OF r, of later] show ?case by simp
qed simp

text \<open>The copy only grows.\<close>

lemma receive_extends: "receive m s = Some s' \<Longrightarrow> \<exists>ext. fst s' = fst s @ ext"
proof -
  have "receive_append x s = Some s' \<Longrightarrow> \<exists>ext. fst s' = fst s @ ext" for x
    by (auto simp: receive_append_def split: outcome.splits if_splits)
  moreover have "receive_reply x s = Some s' \<Longrightarrow> \<exists>ext. fst s' = fst s @ ext" for x
    by (auto simp: receive_reply_def split: outcome.splits list.splits if_splits)
  ultimately show "receive m s = Some s' \<Longrightarrow> \<exists>ext. fst s' = fst s @ ext"
    by (cases rule: receive_cases [of m]) simp_all
qed

lemma replay_extends: "replay ms s = Some s' \<Longrightarrow> \<exists>ext. fst s' = fst s @ ext"
proof (induction ms arbitrary: s)
  case (Cons m ms)
  from Cons.prems obtain s1 where r: "receive m s = Some s1" and "replay ms s1 = Some s'"
    by (auto simp: bind_eq_Some_conv)
  with Cons.IH [of s1] receive_extends [OF r] show ?case by auto
qed simp

section \<open>Delivery\<close>

text \<open>
  The sender overwrites the second byte of a message, which says whether more frames follow.
  \<open>delivers ms s s'\<close>: the messages have such a byte, and with any bytes there, they take the
  copy from \<open>s\<close> to \<open>s'\<close>.
\<close>

definition same_but_more :: "bytes \<Rightarrow> bytes \<Rightarrow> bool" where
  "same_but_more m m' \<longleftrightarrow> (\<exists>x. m' = m[1 := x])"

lemma same_but_more_refl: "same_but_more m m"
  unfolding same_but_more_def by (rule exI [of _ "m ! 1"]) simp

definition delivers :: "bytes list \<Rightarrow> replica \<Rightarrow> replica \<Rightarrow> bool" where
  "delivers ms s s' \<longleftrightarrow> (\<forall>m\<in>set ms. 2 \<le> length m) \<and> (\<forall>ms'. list_all2 same_but_more ms ms' \<longrightarrow> replay ms' s = Some s')"

lemma delivers_replay: "delivers ms s s' \<Longrightarrow> replay ms s = Some s'"
  by (simp add: delivers_def list.rel_refl same_but_more_refl)

lemma delivers_Nil [simp]: "delivers [] s s"
  by (simp add: delivers_def)

lemma delivers_append: "delivers xs s s1 \<Longrightarrow> delivers ys s1 s2 \<Longrightarrow> delivers (xs @ ys) s s2"
  by (auto simp: delivers_def list_all2_append1 replay_then)

lemma delivers_one: "2 \<le> length m \<Longrightarrow> (\<And>x. receive (m[1 := x]) s = Some s') \<Longrightarrow> delivers [m] s s'"
  by (auto simp: delivers_def list_all2_Cons1 same_but_more_def)

lemma delivers_later: "delivers ms (view, own) (view', own') \<Longrightarrow> delivers ms (view, own @ later) (view', own' @ later)"
  by (simp add: delivers_def replay_more)

lemma neutral_more: "neutral m \<Longrightarrow> neutral (m[1 := x])"
  by (auto simp: neutral_def)

lemma delivers_neutral: "\<forall>m\<in>set ms. neutral m \<Longrightarrow> delivers ms s s"
proof (induction ms)
  case (Cons m ms)
  have "delivers [m] s s"
    by (rule delivers_one) (use Cons.prems in \<open>auto simp: neutral_length receive_neutral neutral_more [unfolded One_nat_def]\<close>)
  with Cons delivers_append [of "[m]"] show ?case by simp
qed simp

section \<open>What the server queues\<close>

lemma ucast_u8_u64 [simp]: "ucast (ucast x :: u64) = (x :: u8)"
  by (rule ucast_up_ucast_id) (simp add: is_up)

lemma append_bytes_more:
  "(append_bytes version data offset)[1 := x] =
     (if version < 3 then encode [] (appendMessageV2_refl
        \<lparr>ap2_MessageType = appendV2MessageType, ap2_More = x, ap2_Offset = offset, ap2_Data = data\<rparr>)
      else encode [] (appendMessage_refl
        \<lparr>ap_MessageType = appendMessageType, ap_More = x, ap_Generation = 0, ap_Offset = offset,
         ap_Data = data\<rparr>))"
  by (simp add: append_bytes_def encode_enc appendMessageV2_refl_def appendMessage_refl_def)

lemma delivers_append_bytes:
  assumes "length data < 2 ^ 62"
  shows "delivers [append_bytes version data (u64_len view)] (view, own) (view @ data, own)"
proof (rule delivers_one)
  show "2 \<le> length (append_bytes version data (u64_len view))"
    by (simp add: append_bytes_def encode_enc appendMessageV2_refl_def appendMessage_refl_def)
next
  fix x
  let ?bs = "(append_bytes version data (u64_len view))[1 := x]"
  have "\<exists>m. decodeAppendMessage ?bs = Ok m \<and> ap_Offset m = u64_len view \<and> ap_Data m = data"
  proof (cases "version < 3")
    case True
    let ?m = "\<lparr>ap2_MessageType = appendV2MessageType, ap2_More = x, ap2_Offset = u64_len view, ap2_Data = data\<rparr>"
    have "decodeAppendMessage (encode [] (appendMessageV2_refl ?m)) = Ok (append_of_V2 ?m)"
      by (rule decodeAppendMessage_V2) (use assms in \<open>simp_all add: encode_enc appendMessageV2_refl_def\<close>)
    with True show ?thesis unfolding append_bytes_more by (simp add: append_of_V2_def)
  next
    case False
    let ?m = "\<lparr>ap_MessageType = appendMessageType, ap_More = x, ap_Generation = 0,
      ap_Offset = u64_len view, ap_Data = data\<rparr>"
    have "decodeAppendMessage (encode [] (appendMessage_refl ?m)) = Ok ?m"
      by (rule decodeAppendMessage_V3) (use assms in \<open>simp_all add: encode_enc appendMessage_refl_def\<close>)
    with False show ?thesis unfolding append_bytes_more by simp
  qed
  moreover have "\<exists>t rest. ?bs = t # rest \<and> (t = appendV2MessageType \<or> t = appendMessageType)"
    unfolding append_bytes_more
    by (auto simp: encode_enc appendMessageV2_refl_def appendMessage_refl_def go_defs)
  ultimately show "receive ?bs (view, own) = Some (view @ data, own)"
    by (auto simp: receive_def receive_append_def)
qed

definition ack_bytes :: "u16 \<Rightarrow> u64 \<Rightarrow> bytes" where
  "ack_bytes ack n = encode [] (ackNackMessage_refl
     \<lparr>an_MessageType = 0x81, an_More = 0, an_Ack = ack, an_Offset = n\<rparr>)"

lemma ack_queued: "cl_queued (enqueueAckNack ack n c) = cl_queued c @ [ack_bytes ack n]"
  by (simp add: enqueueAckNack_def enqueue_def ack_bytes_def)

lemma delivers_ack:
  assumes "s' = (if ack \<noteq> 1 then (view, rest) else (view @ own, rest))"
    and "ack = 1 \<Longrightarrow> n = u64_len (view @ own)"
  shows "delivers [ack_bytes ack n] (view, own # rest) s'"
proof (rule delivers_one)
  show "2 \<le> length (ack_bytes ack n)"
    by (simp add: ack_bytes_def encode_enc ackNackMessage_refl_def)
next
  fix x
  let ?m = "\<lparr>an_MessageType = 0x81, an_More = x, an_Ack = ack, an_Offset = n\<rparr>"
  have "(ack_bytes ack n)[1 := x] = encode [] (ackNackMessage_refl ?m)"
    by (simp add: ack_bytes_def encode_enc ackNackMessage_refl_def)
  moreover have "decode_ackNackMessage (encode [] (ackNackMessage_refl ?m)) = Ok ?m"
    by (rule ackNackMessage_roundtrip)
  moreover have "\<exists>rest. encode [] (ackNackMessage_refl ?m) = 0x81 # rest"
    by (simp add: encode_enc ackNackMessage_refl_def)
  ultimately show "receive ((ack_bytes ack n)[1 := x]) (view, own # rest) = Some s'"
    using assms by (auto simp: receive_def receive_reply_def go_defs)
qed

text \<open>Methods that queue nothing about the document.\<close>

definition keeps_view :: "(client \<Rightarrow> client) \<Rightarrow> bool" where
  "keeps_view f \<longleftrightarrow> (\<forall>c. cl_lastEnd (f c) = cl_lastEnd c
     \<and> (\<exists>ns. cl_queued (f c) = cl_queued c @ ns \<and> (\<forall>n\<in>set ns. neutral n)))"

lemma keeps_view_enqueue:
  "neutral (encode [] m) \<Longrightarrow> keeps_view (enqueue m)"
  by (simp add: keeps_view_def enqueue_def)

lemma keeps_view_methods [simp, intro]:
  "keeps_view (enqueueBroadcast b)" "keeps_view (notifyKeysUpdated ks)"
  "keeps_view (enqueueSetKeyAckNack k i)" "keeps_view (enqueueError e t)"
proof -
  show "keeps_view (enqueueBroadcast b)"
    unfolding enqueueBroadcast_def [abs_def] broadcastMessage_refl_def
    by (rule keeps_view_enqueue) (simp add: neutral_def encode_enc go_defs)
  show "keeps_view (notifyKeysUpdated ks)"
    by (simp add: keeps_view_def frame_simps)
  show "keeps_view (enqueueSetKeyAckNack k i)"
    unfolding enqueueSetKeyAckNack_def [abs_def] setKeyAckNackMessage_refl_def
    by (rule keeps_view_enqueue) (simp add: neutral_def encode_enc go_defs)
  show "keeps_view (enqueueError e t)"
    unfolding enqueueError_def [abs_def] errorMessage_refl_def error_message_def
    by (rule keeps_view_enqueue) (simp add: neutral_def encode_enc go_defs)
qed

end
