(* ===== verification/Delivery.thy ===== *)
theory Delivery
  imports Framing WriteThread Replica
begin

text \<open>
  From a client's queue to the other end of its connection: what is queued is taken by
  \<open>writeThread\<close>, cut into frames by \<open>sendMessage\<close>, joined by \<open>readMessage\<close> and replayed. The
  writer sends key information between the messages, and \<open>sendMessage\<close> overwrites the second
  byte; neither changes what the messages do to the copy of the document.
\<close>

section \<open>The frames of a connection\<close>

fun item_bytes :: "sent_item \<Rightarrow> bytes" where
  "item_bytes (Message b) = b"
| "item_bytes (KeyInfo b) = b"

text \<open>The calls of \<open>c.sendMessage\<close> in a row, on a network that takes every frame.\<close>

fun transmit :: "sent_item list \<Rightarrow> int \<Rightarrow> bytes list option" where
  "transmit [] maxSize = Some []"
| "transmit (i # items) maxSize =
     (case sendMessage (\<lambda>_. True) (item_bytes i) maxSize of
        Some (frames, Ok _) \<Rightarrow> map_option ((@) frames) (transmit items maxSize)
      | _ \<Rightarrow> None)"

text \<open>At most \<open>n\<close> messages read from the frames, until one cannot be read.\<close>

fun read_messages :: "nat \<Rightarrow> bytes list \<Rightarrow> bytes list" where
  "read_messages 0 frames = []"
| "read_messages (Suc n) frames =
     (case readMessage frames of Ok (m, rest) \<Rightarrow> m # read_messages n rest | _ \<Rightarrow> [])"

definition read_all :: "bytes list \<Rightarrow> bytes list" where
  "read_all frames = read_messages (length frames) frames"

lemma transmitted:
  assumes "3 \<le> maxSize" and "\<forall>i\<in>set items. 2 \<le> length (item_bytes i)"
  shows "\<exists>frames received. transmit items maxSize = Some frames
    \<and> length items \<le> length frames \<and> (\<forall>n. length items \<le> n \<longrightarrow> read_messages n frames = received)
    \<and> list_all2 (\<lambda>i m. same_but_more (item_bytes i) m) items received"
  using assms(2)
proof (induction items)
  case Nil
  have "read_messages n [] = []" for n by (cases n) (simp_all add: readMessage_def)
  then show ?case by simp
next
  case (Cons i items)
  then obtain frames received where IH: "transmit items maxSize = Some frames" "length items \<le> length frames"
      "\<And>n. length items \<le> n \<Longrightarrow> read_messages n frames = received"
      "list_all2 (\<lambda>i m. same_but_more (item_bytes i) m) items received"
    by auto
  have i: "2 \<le> length (item_bytes i)" using Cons.prems by simp
  define fs where "fs = all_frames (item_bytes i) maxSize"
  have fs: "sendMessage (\<lambda>_. True) (item_bytes i) maxSize = Some (fs, Ok ())"
      "\<And>next. readMessage (fs @ next) = Ok ((item_bytes i)[1 := more_flag (item_bytes i) maxSize], next)"
    using sendMessage_all_frames [OF assms(1) i] readMessage_all_frames [OF assms(1) i] by (simp_all add: fs_def)
  have "fs \<noteq> []" using fs(2) [of "[]"] by (auto simp: readMessage_def)
  then have "length (i # items) \<le> length (fs @ frames)"
    using IH(2) by (cases fs) simp_all
  moreover have "read_messages n (fs @ frames) = (item_bytes i)[1 := more_flag (item_bytes i) maxSize] # received"
    if "length (i # items) \<le> n" for n
    using that IH(3) fs(2) [of frames] by (cases n) simp_all
  moreover have "same_but_more (item_bytes i) ((item_bytes i)[1 := more_flag (item_bytes i) maxSize])"
    unfolding same_but_more_def by blast
  moreover have "transmit (i # items) maxSize = Some (fs @ frames)" by (simp add: fs(1) IH(1))
  ultimately show ?case using IH(4) by (metis (no_types, lifting) list.rel_intros(2))
qed

section \<open>Key information between the messages\<close>

definition items_ok :: "sent_item list \<Rightarrow> bool" where
  "items_ok items \<longleftrightarrow> (\<forall>i\<in>set items. case i of KeyInfo b \<Rightarrow> neutral b | Message b \<Rightarrow> True)"

lemma key_messages_ok: "items_ok (key_messages keys)"
  by (auto simp: items_ok_def key_messages_def neutral_def keyInformationMessage_refl_def
      keyInfo_message_def encode_enc go_defs)

lemma writer_do_items: "items_ok (wr_sent s) \<Longrightarrow> items_ok (wr_sent (writer_do e s))"
  using key_messages_ok
  by (cases e) (auto simp: items_ok_def writer_defs split: writer_pc.splits)

lemma writer_run_items: "items_ok (wr_sent (writer_run c es))"
proof (induction es rule: rev_induct)
  case Nil
  show ?case by (simp add: writer_run_def new_writer_def items_ok_def)
qed (simp add: writer_run_snoc writer_do_items)

text \<open>What is received replays like the messages alone.\<close>

lemma replay_received:
  assumes "list_all2 (\<lambda>i m. same_but_more (item_bytes i) m) items received" and "items_ok items"
  shows "\<exists>ms. list_all2 same_but_more (concat (map message_of items)) ms \<and> (\<forall>s. replay received s = replay ms s)"
  using assms
proof (induction items arbitrary: received)
  case (Cons i items)
  from Cons.prems(1) obtain m rest where r: "received = m # rest" "same_but_more (item_bytes i) m"
      "list_all2 (\<lambda>i m. same_but_more (item_bytes i) m) items rest"
    by (auto simp: list_all2_Cons1)
  obtain ms where ms: "list_all2 same_but_more (concat (map message_of items)) ms" "replay rest = replay ms"
    using Cons.IH [OF r(3)] Cons.prems(2) by (auto simp: items_ok_def fun_eq_iff)
  show ?case
  proof (cases i)
    case (Message b)
    then show ?thesis using r(1,2) ms by (intro exI [of _ "m # ms"]) simp
  next
    case (KeyInfo b)
    then have "neutral m"
      using r(2) Cons.prems(2) by (auto simp: items_ok_def same_but_more_def simp del: One_nat_def intro: neutral_more)
    then show ?thesis using r(1) ms KeyInfo by (intro exI [of _ ms]) (simp add: receive_neutral)
  qed
qed (auto intro: exI [of _ "[]"])

section \<open>From the queue to the copy\<close>

text \<open>
  When the writer waits, the frames it has written carry the copy to where its client's
  queue takes it.
\<close>

lemma writer_delivers:
  assumes "delivers (queued_by es) s s'" and "\<And>n. Fail n \<notin> set es" and "cl_queued c = []"
    and "wr_pc (writer_run c es) = Waiting" and "3 \<le> maxSize"
  shows "\<exists>frames. transmit (wr_sent (writer_run c es)) maxSize = Some frames \<and> replay (read_all frames) s = Some s'"
proof -
  let ?items = "wr_sent (writer_run c es)"
  have sent: "concat (map message_of ?items) = queued_by es"
    using writer_run_pipeline [OF assms(2), of c] writer_run_no_missed [of c es] assms(3,4)
    by (simp add: pipeline_def no_missed_def in_flight_def sent_messages_def)
  have "2 \<le> length (item_bytes i)" if i: "i \<in> set ?items" for i
  proof (cases i)
    case (Message b)
    then have "b \<in> set (concat (map message_of ?items))" using i by force
    with assms(1) Message show ?thesis by (simp add: sent delivers_def)
  next
    case (KeyInfo b)
    with i writer_run_items [of c es] have "neutral b" by (fastforce simp: items_ok_def)
    with KeyInfo show ?thesis by (simp add: neutral_length)
  qed
  then obtain frames received where f: "transmit ?items maxSize = Some frames" "length ?items \<le> length frames"
      "\<forall>n. length ?items \<le> n \<longrightarrow> read_messages n frames = received"
      "list_all2 (\<lambda>i m. same_but_more (item_bytes i) m) ?items received"
    using transmitted [OF assms(5)] by blast
  moreover obtain ms where "list_all2 same_but_more (queued_by es) ms" "\<And>s. replay received s = replay ms s"
    using replay_received [OF f(4) writer_run_items] by (auto simp: sent)
  ultimately show ?thesis
    using assms(1) by (auto simp: read_all_def delivers_def)
qed

text \<open>A writer that is started after all the messages are queued is done in three steps.\<close>

definition write_out :: "bytes list \<Rightarrow> writer_event list" where
  "write_out ms = map (\<lambda>m. Queue [VBytes m]) ms @ [Write, Write, Write]"

lemma queue_all:
  "wr_pc s = Looping False \<Longrightarrow> fold writer_do (map (\<lambda>m. Queue [VBytes m]) ms) s =
     with_client (\<lambda>c. c\<lparr>cl_queued := cl_queued c @ ms\<rparr>) s"
proof (induction ms arbitrary: s)
  case (Cons m ms)
  have "queue_message [VBytes m] s = with_client (\<lambda>c. c\<lparr>cl_queued := cl_queued c @ [m]\<rparr>) s"
    using Cons.prems by (simp add: queue_message_def with_client_def signal_def enqueue_def)
  with Cons show ?case by (simp add: with_client_def)
qed (simp add: with_client_def)

lemma write_out_done: "queued_by (write_out ms) = ms \<and> Fail n \<notin> set (write_out ms)
    \<and> wr_pc (writer_run (new_client k) (write_out ms)) = Waiting"
proof -
  have "queued_by (write_out ms) = ms"
    by (simp add: write_out_def queued_by_def) (induction ms, simp_all)
  moreover have "wr_pc (writer_run (new_client k) (write_out ms)) = Waiting"
    by (simp add: write_out_def writer_run_def queue_all new_writer_def with_client_def new_client_def Let_def)
  ultimately show ?thesis by (auto simp: write_out_def)
qed

section \<open>The frames of a client\<close>

text \<open>
  In the other direction: the results of the successive calls of \<open>readMessage\<close> that return at
  the times, for the frames that the websocket library has received.
\<close>

fun reads_of :: "gotime list \<Rightarrow> bytes list \<Rightarrow> (gotime \<times> bytes outcome) list" where
  "reads_of [] frames = []"
| "reads_of (now # nows) frames =
     (case readMessage frames of
        Ok (message, rest) \<Rightarrow> (now, Ok message) # reads_of nows rest
      | Err e \<Rightarrow> [(now, Err e)]
      | Panic \<Rightarrow> [(now, Panic)]
      | Diverge \<Rightarrow> [(now, Diverge)])"

text \<open>
  Frames have two bytes at least, and a frame after one that says more follows is a
  continuation frame.
\<close>

fun well_framed :: "bool \<Rightarrow> bytes list \<Rightarrow> bool" where
  "well_framed inside [] = True"
| "well_framed inside (p # ps) \<longleftrightarrow> 2 \<le> length p \<and> (inside \<longrightarrow> p ! 0 = continuationMessageType)
     \<and> well_framed (p ! 1 \<noteq> 0) ps"

definition frame_bytes :: "bytes list \<Rightarrow> nat" where
  "frame_bytes frames = sum_list (map length frames)"

lemma readMessage_loop_framed:
  assumes "well_framed (buffer \<noteq> None) frames" and "\<And>b. buffer = Some b \<Longrightarrow> 2 \<le> length b"
  shows "readMessage_loop buffer frames = Err read_error \<or>
    (\<exists>m rest. readMessage_loop buffer frames = Ok (m, rest) \<and> well_framed False rest \<and> 2 \<le> length m
      \<and> length m + frame_bytes rest \<le> length (case buffer of None \<Rightarrow> [] | Some b \<Rightarrow> b) + frame_bytes frames)"
  using assms
proof (induction frames arbitrary: buffer)
  case (Cons p ps)
  define b where "b = (case buffer of None \<Rightarrow> p | Some b \<Rightarrow> b @ drop 2 p)"
  have p: "2 \<le> length p" "well_framed (p ! 1 \<noteq> 0) ps" using Cons.prems(1) by simp_all
  have b: "2 \<le> length b" "length b + frame_bytes ps \<le> length (case buffer of None \<Rightarrow> [] | Some b \<Rightarrow> b) + frame_bytes (p # ps)"
    using p(1) Cons.prems(2) by (auto simp: b_def frame_bytes_def split: option.split)
  have eq: "readMessage_loop buffer (p # ps) = (if p ! 1 = 0 then Ok (b, ps) else readMessage_loop (Some b) ps)"
    using Cons.prems(1) p(1) by (cases buffer) (simp_all add: b_def)
  show ?case
  proof (cases "p ! 1 = 0")
    case True
    with eq p b show ?thesis by simp
  next
    case False
    then have "readMessage_loop (Some b) ps = Err read_error \<or> (\<exists>m rest. readMessage_loop (Some b) ps = Ok (m, rest)
        \<and> well_framed False rest \<and> 2 \<le> length m \<and> length m + frame_bytes rest \<le> length b + frame_bytes ps)"
      using Cons.IH [of "Some b"] p(2) b(1) by simp
    with False eq b(2) show ?thesis by (auto intro: order_trans)
  qed
qed simp

end
