(* ===== verification/System.thy ===== *)
theory System
  imports Service Delivery
begin

text \<open>
  The server as a whole: documents, sessions and clients together. When the handlers of
  different clients do not interleave, every client of a document can rebuild it from the
  messages it was sent (\<open>followed\<close>), with any database that is a \<open>lasting_store\<close>. The handlers
  do interleave, because each is several steps on the database, the hub and the client, each
  behind its own lock: two orders of steps that lose an append are shown at the end.
\<close>

section \<open>Clients that follow their document\<close>

text \<open>
  A log has the messages handled and the number of the client that sent each, its init
  message first. \<open>sent_by\<close> has the data of the appends of one client, and \<open>starts\<close> says what
  it has when it connects: what it creates the document with, or as much as its init message
  says.
\<close>

type_synonym message_log = "(nat \<times> bytes) list"

definition append_data :: "bytes \<Rightarrow> bytes list" where
  "append_data message = (if message \<noteq> [] \<and> (hd message = 0x02 \<or> hd message = 0x05)
     then (case decodeAppendMessage message of Ok m \<Rightarrow> [ap_Data m] | _ \<Rightarrow> []) else [])"

definition sent_by :: "nat \<Rightarrow> message_log \<Rightarrow> bytes list" where
  "sent_by r log = concat (map (append_data \<circ> snd) (tl (filter (\<lambda>e. fst e = r) log)))"

definition starts :: "nat \<Rightarrow> message_log \<Rightarrow> bytes \<Rightarrow> bool" where
  "starts r log start \<longleftrightarrow> (\<exists>message m. find (\<lambda>e. fst e = r) log = Some (r, message)
     \<and> decodeInitMessage message = Ok m
     \<and> (start = im_Data m \<or> int (length start) = int_of_u64 (im_Offset m)))"

text \<open>A client that is in the log.\<close>

definition begun :: "nat \<Rightarrow> message_log \<Rightarrow> bool" where
  "begun r log \<longleftrightarrow> r \<in> fst ` set log"

lemma begun_filter: "begun r log \<longleftrightarrow> filter (\<lambda>e. fst e = r) log \<noteq> []"
  by (force simp: begun_def filter_empty_conv)

lemma begun_snoc: "begun r (log @ [(q, m)]) \<longleftrightarrow> begun r log \<or> q = r"
  by (auto simp: begun_def)

lemma begun_find: "\<not> begun r log \<Longrightarrow> find (\<lambda>e. fst e = r) log = None"
  by (force simp: begun_def find_None_iff)

lemma sent_by_snoc: "begun q log \<Longrightarrow>
    sent_by r (log @ [(q, m)]) = (if q = r then sent_by r log @ append_data m else sent_by r log)"
  by (cases "q = r") (simp_all add: sent_by_def begun_filter)

lemma sent_by_init: "\<not> begun q log \<Longrightarrow> sent_by r (log @ [(q, m)]) = sent_by r log"
  by (cases "q = r") (simp_all add: sent_by_def begun_filter)

lemma sent_by_new: "\<not> begun r log \<Longrightarrow> sent_by r log = []"
  by (simp add: sent_by_def begun_filter)

lemma starts_snoc: "starts r log start \<Longrightarrow> starts r (log @ [e]) start"
  by (auto simp: starts_def find_append)

lemma starts_init: "\<not> begun r log \<Longrightarrow> decodeInitMessage message = Ok m \<Longrightarrow>
    start = im_Data m \<or> int (length start) = int_of_u64 (im_Offset m) \<Longrightarrow> starts r (log @ [(r, message)]) start"
  by (auto simp: starts_def find_append begun_find)

text \<open>
  What was queued for a client, from its first message on, turns what it started with into
  the document, and answers all its appends. The bound is that of the decoder.
\<close>

definition caught_up :: "(bytes \<Rightarrow> bool) \<Rightarrow> bytes list \<Rightarrow> client \<Rightarrow> bytes \<Rightarrow> bool" where
  "caught_up P own c doc \<longleftrightarrow> cl_lastEnd c = u64_len doc
     \<and> (length doc < 2 ^ 62 \<longrightarrow> (\<exists>start. P start \<and> delivers (cl_queued c) (start, own) (doc, [])))"

definition followed :: "(string \<rightharpoonup> bytes) \<Rightarrow> message_log \<Rightarrow> 'db world \<Rightarrow> bool" where
  "followed docs log w \<longleftrightarrow> (\<forall>d r. r \<in> members (w_hub w) d \<longrightarrow> begun r log \<and>
     (\<exists>c doc. w_clients w r = Some c \<and> docs d = Some doc \<and> caught_up (starts r log) (sent_by r log) c doc))"

lemma caught_up_mono: "caught_up P own c doc \<Longrightarrow> (\<And>start. P start \<Longrightarrow> Q start) \<Longrightarrow> caught_up Q own c doc"
  by (auto simp: caught_up_def)

text \<open>What changes no document, no session and no client's view keeps clients up to date.\<close>

definition same_view :: "clients \<Rightarrow> clients \<Rightarrow> bool" where
  "same_view cs cs' \<longleftrightarrow> (\<forall>q c. cs q = Some c \<longrightarrow> (\<exists>c' ns. cs' q = Some c' \<and> cl_lastEnd c' = cl_lastEnd c
     \<and> cl_queued c' = cl_queued c @ ns \<and> (\<forall>n\<in>set ns. neutral n)))"

lemma same_viewI:
  assumes "\<And>q c. cs q = Some c \<Longrightarrow> \<exists>f. keeps_view f \<and> cs' q = Some (f c)"
  shows "same_view cs cs'"
  using assms by (fastforce simp: same_view_def keeps_view_def)

lemma caught_up_view:
  assumes "caught_up P own c doc" and "cl_lastEnd c' = cl_lastEnd c"
    and "cl_queued c' = cl_queued c @ ns" and "\<forall>n\<in>set ns. neutral n"
  shows "caught_up P own c' doc"
  using assms(1-3) delivers_append [OF _ delivers_neutral [OF assms(4)]] by (fastforce simp: caught_up_def)

lemma followed_same:
  assumes "followed docs log w" and "members (w_hub w') = members (w_hub w)"
    and "docs' = docs" and "same_view (w_clients w) (w_clients w')"
  shows "followed docs' log w'"
  unfolding followed_def
proof (intro allI impI)
  fix d r assume "r \<in> members (w_hub w') d"
  then obtain c doc where b: "begun r log"
    and c: "w_clients w r = Some c" "docs d = Some doc" "caught_up (starts r log) (sent_by r log) c doc"
    using assms(1,2) by (fastforce simp: followed_def)
  then obtain c' ns where "w_clients w' r = Some c'" "cl_lastEnd c' = cl_lastEnd c"
      "cl_queued c' = cl_queued c @ ns" "\<forall>n\<in>set ns. neutral n"
    using assms(4) unfolding same_view_def by blast
  with b c assms(3) caught_up_view show "begun r log \<and> (\<exists>c doc. w_clients w' r = Some c \<and> docs' d = Some doc
      \<and> caught_up (starts r log) (sent_by r log) c doc)" by blast
qed

lemma caught_up_snoc: "caught_up (starts r log) own c doc \<Longrightarrow> caught_up (starts r (log @ [e])) own c doc"
  by (erule caught_up_mono) (rule starts_snoc)

lemma followed_silent:
  assumes "begun r log" and "append_data m = []" and "followed docs log w"
  shows "followed docs (log @ [(r, m)]) w"
  using assms(3) caught_up_snoc by (fastforce simp: followed_def begun_snoc sent_by_snoc [OF assms(1)] assms(2))

lemma same_view_refl: "same_view cs cs"
  by (force simp: same_view_def)

lemma same_view_trans: "same_view a b \<Longrightarrow> same_view b c \<Longrightarrow> same_view a c"
  unfolding same_view_def by (fastforce simp: ball_Un)

lemma same_view_upd: "keeps_view f \<Longrightarrow> same_view cs (upd_client f r cs)"
proof (rule same_viewI)
  fix q c assume f: "keeps_view f" and "cs q = Some c"
  then show "\<exists>g. keeps_view g \<and> upd_client f r cs q = Some (g c)"
    by (cases "q = r") (auto simp: upd_client_apply keeps_view_def intro: exI [of _ "\<lambda>c. c"] exI [of _ f])
qed

lemma same_view_each: "keeps_view f \<Longrightarrow> same_view cs (each_client f rs cs)"
proof (induction rs arbitrary: cs)
  case (Cons r rs)
  show ?case
    using same_view_trans [OF same_view_upd [OF Cons.prems] Cons.IH [OF Cons.prems]]
    by (simp add: each_client_def)
qed (simp add: same_view_refl each_client_def)

lemma same_view_upd_world: "keeps_view f \<Longrightarrow> same_view (w_clients w) (w_clients (upd_world f r w))"
  by (simp add: upd_world_def same_view_upd)

lemma keeps_view_unless [simp, intro]: "keeps_view f \<Longrightarrow> keeps_view (unless_id s f)"
  by (simp add: keeps_view_def unless_id_def)

context fan_out
begin

lemma same_view: "keeps_view f \<Longrightarrow> same_view cs (snd (run (h, cs)))"
  by (simp add: run_clients same_view_refl same_view_each split: option.splits)

end

lemma SetClientKey_view: "same_view cs (snd (fst (SetClientKey d src old new n v (h, cs))))"
  by (auto simp: SetClientKey_def Let_def same_view_refl same_view_each split: option.splits sum.splits)

lemma set_key_view: "same_view (w_clients w) (w_clients (fst (set_key ops c m w)))"
proof (cases rule: set_key_cases [of ops c m w])
  case admin
  then show ?thesis by (simp add: same_view_refl)
next
  case (client h cs ack)
  then show ?thesis
    using SetClientKey_view [of "w_clients w" "cl_docID c" "cl_id c" "uint (sk_OldVersion m)"
        "uint (sk_NewVersion m)" "sk_Name m" "sk_Value m" "w_hub w"] by simp
next
  case (session key db' res)
  then show ?thesis
    by (auto simp: session_key.same_view same_view_refl split: outcome.splits option.splits)
qed

lemma processSetKey_view: "same_view (w_clients w) (w_clients (fst (processSetKey ops r c data w)))"
proof (cases "decode_setKeyMessage data")
  case (Ok m)
  obtain w1 res where k: "set_key ops c m w = (w1, res)" by (cases "set_key ops c m w")
  then have "same_view (w_clients w) (w_clients w1)" using set_key_view [of w ops c m] by simp
  moreover from this have "same_view (w_clients w) (w_clients (upd_world (enqueueSetKeyAckNack ack i) r w1))" for ack i
    by (rule same_view_trans) (rule same_view_upd_world, simp)
  ultimately show ?thesis by (simp add: processSetKey_def Ok k split: sum.splits)
qed (simp_all add: processSetKey_def same_view_refl)

lemma processBroadcast_view: "same_view (w_clients w) (w_clients (fst (processBroadcast r c data w)))"
  by (simp add: processBroadcast_def same_view_refl broadcast.same_view split: outcome.splits)

section \<open>Appends keep clients up to date\<close>

lemma caught_up_append:
  assumes "caught_up P own c doc"
  shows "caught_up P own (enqueueAppend data (u64_len doc) c) (doc @ data)"
proof -
  have e: "cl_lastEnd c = u64_len doc" using assms by (simp add: caught_up_def)
  have "delivers (cl_queued c @ [append_bytes (cl_protocolVersion c) data (u64_len doc)]) (start, own)
      (doc @ data, [])"
    if "delivers (cl_queued c) (start, own) (doc, [])" "length (doc @ data) < 2 ^ 62" for start
    using that(2) by (intro delivers_append [OF that(1)] delivers_append_bytes) simp
  with assms e show ?thesis
    by (auto simp: caught_up_def enqueueAppend_def u64_len_append)
qed

lemma caught_up_reply:
  assumes "caught_up P own c doc"
  shows "caught_up P (own @ [data]) (set_lastEnd (u64_len (doc @ data)) (enqueueAckNack 1 (u64_len (doc @ data)) c)) (doc @ data)"
    and "a \<noteq> 1 \<Longrightarrow> caught_up P (own @ [data]) (enqueueAckNack a n c) doc"
proof -
  have r: "delivers (cl_queued c @ [ack_bytes a n]) (start, own @ [data]) (if a \<noteq> 1 then doc else doc @ data, [])"
    if "delivers (cl_queued c) (start, own) (doc, [])" "a = 1 \<longrightarrow> n = u64_len (doc @ data)" for start a n
  proof -
    have "delivers (cl_queued c) (start, own @ [data]) (doc, [data])"
      using delivers_later [OF that(1), of "[data]"] by simp
    then show ?thesis
      by (rule delivers_append) (rule delivers_ack, use that(2) in simp_all)
  qed
  show "caught_up P (own @ [data]) (set_lastEnd (u64_len (doc @ data)) (enqueueAckNack 1 (u64_len (doc @ data)) c)) (doc @ data)"
    using assms r [of _ 1 "u64_len (doc @ data)"]
    by (fastforce simp: caught_up_def set_lastEnd_def ack_queued)
  assume "a \<noteq> 1"
  moreover have "cl_lastEnd (enqueueAckNack a n c) = cl_lastEnd c" by (simp add: enqueueAckNack_def frame_simps)
  ultimately show "caught_up P (own @ [data]) (enqueueAckNack a n c) doc"
    using assms r [of _ a n] by (auto simp: caught_up_def ack_queued)
qed

lemma append_data_append: "data \<noteq> [] \<Longrightarrow> hd data = 0x02 \<or> hd data = 0x05 \<Longrightarrow>
    append_data data = (case decodeAppendMessage data of Ok m \<Rightarrow> [ap_Data m] | _ \<Rightarrow> [])"
  by (simp add: append_data_def)

lemma not_member: "world_ok w \<Longrightarrow> w_clients w r = None \<Longrightarrow> \<forall>d. r \<notin> members (w_hub w) d"
  using members_docID [of "w_hub w" "w_clients w" r] by (auto simp: world_ok_def)

context served_store
begin

lemma followed_processAppend:
  assumes w: "world_ok w" and db: "ok (w_db w)" and c: "w_clients w r = Some c" "r \<in> members (w_hub w) (cl_docID c)"
    and h: "data \<noteq> []" "hd data = 0x02 \<or> hd data = 0x05"
    and f: "followed (live_at now (w_db w)) log w"
  defines "w' \<equiv> fst (processAppend (ops_at now) r c data w)"
  shows "followed (live_at now (w_db w')) (log @ [(r, data)]) w'"
proof -
  have b: "begun r log" using f c by (auto simp: followed_def)
  show ?thesis
  proof (cases "decodeAppendMessage data")
    case (Ok m)
    let ?d = "cl_docID c"
    have sent: "sent_by q (log @ [(r, data)]) = (if q = r then sent_by r log @ [ap_Data m] else sent_by q log)" for q
      by (simp add: sent_by_snoc [OF b] append_data_append [OF h] Ok)
    have step: "followed docs (log @ [(r, data)]) v"
      if "\<And>q e. q \<in> members (w_hub v) e \<Longrightarrow> q \<in> members (w_hub w) e \<and> (\<exists>c' doc'. w_clients v q = Some c' \<and> docs e = Some doc'
        \<and> caught_up (starts q log) (sent_by q (log @ [(r, data)])) c' doc')" for docs v
      using that f caught_up_snoc by (fastforce simp: followed_def begun_snoc)
    have one: "e = cl_docID cq" if "q \<in> members (w_hub w) e" "w_clients w q = Some cq" for q e cq
      using members_docID [of "w_hub w" "w_clients w" q e] that w by (simp add: world_ok_def)
    obtain doc where doc: "live_at now (w_db w) ?d = Some doc" "caught_up (starts r log) (sent_by r log) c doc"
      using f c by (fastforce simp: followed_def)
    show ?thesis
    proof (rule at.processAppend_cases [OF w db c(1) Ok, of now])
      fix w1
      assume "live_at now (w_db w) ?d = None"
      with doc show ?thesis by simp
    next
      fix w1 doc1
      assume l: "live_at now (w_db w1) = live_at now (w_db w) \<or> creates \<and> live_at now (w_db w) ?d = None"
        and p: "processAppend (ops_at now) r c data w = (w1, Go_on)" "w_hub w1 = w_hub w" "w_clients w1 = (w_clients w)(r \<mapsto>
           enqueueAckNack (if ap_Offset m \<noteq> u64_len doc1 then 0 else 2) (u64_len doc1) c)"
      have live: "live_at now (w_db w1) = live_at now (w_db w)" using l doc(1) by simp
      have "\<exists>c' doc'. w_clients w1 q = Some c' \<and> live_at now (w_db w1) e = Some doc'
          \<and> caught_up (starts q log) (sent_by q (log @ [(r, data)])) c' doc'" if q: "q \<in> members (w_hub w) e" for q e
        using f q doc one [OF q] c live caught_up_reply(2) [OF doc(2)]
        by (cases "q = r") (fastforce simp: followed_def sent p(3))+
      then show ?thesis unfolding w'_def p(1) fst_conv p(2) [symmetric] by (intro step) (auto simp: p(2))
    next
      fix w1 doc1
      let ?n = "u64_len (doc1 @ ap_Data m)"
      let ?own = "\<lambda>c. set_lastEnd ?n (enqueueAckNack 1 ?n c)"
      assume p: "processAppend (ops_at now) r c data w = (w1, Go_on)"
        and finds: "finds creates (live_at now (w_db w) ?d) doc1"
        and live: "live_at now (w_db w1) = (live_at now (w_db w))(?d \<mapsto> doc1 @ ap_Data m)"
        and hub: "w_hub w1 = swarm_notify (NotifyAppend ?d (ap_Offset m) (ap_Data m)) (w_hub w) \<or> w_hub w1 = w_hub w"
        and cl: "w_clients w1 = others_get ?own (enqueueAppend (ap_Data m) (u64_len doc1)) r (members (w_hub w) ?d) (w_clients w)"
      have hubs: "members (w_hub w1) = members (w_hub w)" using hub by auto
      have doc1: "live_at now (w_db w) ?d = Some doc1" using finds doc(1) by simp
      have "\<exists>c' doc'. w_clients w1 q = Some c' \<and> live_at now (w_db w1) e = Some doc'
          \<and> caught_up (starts q log) (sent_by q (log @ [(r, data)])) c' doc'" if q: "q \<in> members (w_hub w) e" for q e
      proof -
        from f q obtain cq docq where cq: "w_clients w q = Some cq" "live_at now (w_db w) e = Some docq"
            "caught_up (starts q log) (sent_by q log) cq docq" by (fastforce simp: followed_def)
        show ?thesis
        proof (cases "e = ?d")
          case True
          with cq doc1 have "caught_up (starts q log) (sent_by q log) cq doc1" by simp
          with True q cq(1) live cl caught_up_reply(1) caught_up_append show ?thesis
            by (auto simp: others_get_def sent)
        next
          case False
          then have "q \<noteq> r" "q \<notin> members (w_hub w) ?d"
            using one [OF q cq(1)] one [OF _ cq(1), of ?d] c cq(1) by auto
          with False cq live cl show ?thesis by (simp add: others_get_def sent)
        qed
      qed
      then show ?thesis unfolding w'_def p fst_conv by (intro step) (auto simp: hubs)
    qed
  qed (use f in \<open>simp_all add: processAppend_def w'_def followed_silent [OF b] append_data_append [OF h]\<close>)
qed

lemma followed_handle_message:
  fixes data :: bytes
  assumes w: "world_ok w" "joined w r" and db: "ok (w_db w)" and f: "followed (live_at now (w_db w)) log w"
  defines "w' \<equiv> fst (handle_message (ops_at now) r data w)"
  shows "followed (live_at now (w_db w')) (log @ [(r, data)]) w'"
proof -
  obtain c where c: "w_clients w r = Some c" "r \<in> members (w_hub w) (cl_docID c)"
    using w(2) by (auto simp: joined_def)
  show ?thesis
  proof (cases "data \<noteq> [] \<and> (hd data = 0x02 \<or> hd data = 0x05)")
    case True
    then have "handle_message (ops_at now) r data w = processAppend (ops_at now) r c data w"
      by (cases data) (simp_all add: handle_message_def c(1))
    with followed_processAppend [OF w(1) db c, of data now log] True f show ?thesis by (simp add: w'_def)
  next
    case False
    then have log: "followed docs (log @ [(r, data)]) v" if "followed docs log v" for docs v
      using f c that by (intro followed_silent) (auto simp: followed_def append_data_def)
    have sk: "followed (live_at now (w_db v)) log v" if "v = fst (processSetKey (ops_at now) r c data w)" for v
      unfolding that
      using at.processSetKey_db [OF db, of now r c data] processSetKey_same_place [OF w(1), of "ops_at now" r c data]
        processSetKey_view [of w "ops_at now" r c data]
      by (intro followed_same [OF f]) (auto simp: same_place_def)
    have bc: "followed (live_at now (w_db v)) log v" if "v = fst (processBroadcast r c data w)" for v
      unfolding that
      using processBroadcast_same_place [of w r c data] processBroadcast_view [of w r c data]
      by (intro followed_same [OF f]) (auto simp: same_place_def)
    show ?thesis
      by (rule log) (use False sk bc f in \<open>cases data, auto simp: handle_message_def c(1) w'_def\<close>)
  qed
qed

end

text \<open>Leaving, joining, and the rest of a connection's start.\<close>

lemma leave_view: "same_view (w_clients w) (w_clients (leave t r c w))"
proof -
  have "same_view (w_clients w) (snd (RemoveClient t (cl_docID c) (cl_id c) (w_hub w, w_clients w)))"
    by (auto simp: RemoveClient_def Let_def same_view_refl same_view_each split: option.splits)
  moreover have "same_view (w_clients (hub_do f w)) (w_clients (upd_world set_closed r (hub_do f w)))" for f
    by (rule same_view_upd_world) (simp add: keeps_view_def set_closed_def)
  ultimately show ?thesis
    unfolding leave_def by (metis same_view_trans hub_do_simps(3))
qed

lemma leave_followed:
  assumes w: "world_ok w" and f: "followed docs log w" and c: "cl_id c = idstr r"
  shows "followed docs log (leave t r c w)"
proof -
  let ?w = "leave t r c w"
  have l: "members (w_hub ?w) = (members (w_hub w))(cl_docID c := members (w_hub w) (cl_docID c) - {r})"
    using leave_ok [OF w c, of t] by simp
  then have "followed docs log (w\<lparr>w_hub := w_hub ?w\<rparr>)"
    using f by (auto simp: followed_def split: if_splits)
  with leave_view [of w t r c] show ?thesis
    using followed_same [of docs log "w\<lparr>w_hub := w_hub ?w\<rparr>" ?w docs] by simp
qed

context document_store
begin

lemma join_followed:
  assumes ok: "ok (w_db w)" and f: "followed docs log w" and b: "begun r log" and c: "w_clients w r = Some c"
    and doc: "docs (cl_docID c) = Some doc" "caught_up (starts r log) (sent_by r log) c doc"
  shows "followed docs log (fst (join_session ops r c w))"
proof (rule join_session_eq [OF ok, of c r])
  fix db' res keys
  let ?w1 = "hub_do (addClient (cl_docID c) r) w"
  let ?w2 = "upd_world (notifyKeysUpdated (case res of Inl _ \<Rightarrow> [] | Inr ks \<Rightarrow> ks)) r
      (upd_world (notifyKeysUpdated keys) r (?w1\<lparr>w_db := db'\<rparr>))"
  assume eq: "join_session ops r c w = (?w2, Go_on)"
  have "same_view (w_clients w) (w_clients ?w2)"
    by (rule same_view_trans [OF _ same_view_upd_world [OF keeps_view_methods(2)]],
        rule same_view_trans [OF _ same_view_upd_world [OF keeps_view_methods(2)]])
      (simp add: addClient_sessions(2) same_view_refl)
  moreover have "followed docs log (w\<lparr>w_hub := w_hub ?w2\<rparr>)"
    using f b c doc by (fastforce simp: followed_def addClient_members split: if_splits)
  ultimately show ?thesis
    using followed_same [of docs log "w\<lparr>w_hub := w_hub ?w2\<rparr>" ?w2 docs] by (simp add: eq)
qed

end

text \<open>The world between the init message and joining the session.\<close>

lemma followed_before_join:
  assumes f: "followed docs log w" and r: "\<forall>d. r \<notin> members (w_hub w) d"
    and live: "docs' = docs \<or> docs d = None \<and> docs' = docs(d \<mapsto> doc)"
  shows "followed docs' log (w\<lparr>w_db := db', w_clients := (w_clients w)(r \<mapsto> c)\<rparr>)"
proof -
  have "members (w_hub w) d = {}" if "docs d = None"
    using f that by (fastforce simp: followed_def)
  with f r live show ?thesis by (auto simp: followed_def)
qed

text \<open>What a client is sent first completes what it has, if it has what it says.\<close>

lemma caught_up_start:
  assumes "cl_lastEnd c = 0" and "cl_queued c = []" and "n \<le> length doc" and "P (take n doc)"
  shows "caught_up P [] (enqueueAppend (drop n doc) (word_of_nat n) c) doc"
proof -
  have n: "word_of_nat n = u64_len (take n doc)" using assms(3) by (simp add: u64_len_def)
  have "delivers [append_bytes (cl_protocolVersion c) (drop n doc) (u64_len (take n doc))] (take n doc, []) (doc, [])"
    if "length doc < 2 ^ 62"
    using delivers_append_bytes [of "drop n doc" "cl_protocolVersion c" "take n doc" "[]"] that by simp
  with assms(1,2,4) show ?thesis
    by (auto simp: caught_up_def enqueueAppend_def n simp flip: u64_len_append)
qed

section \<open>Executions one handler at a time\<close>

text \<open>
  Connections whose init message, messages and end are each handled without another handler
  in between, at any times. No document is deleted, by a request or because it expired.
\<close>

inductive serial :: "(gotime \<Rightarrow> 'db documentDB) \<Rightarrow> 'db \<Rightarrow> message_log \<Rightarrow> 'db world \<Rightarrow> bool"
  for ops_at db0 where
  Start: "serial ops_at db0 [] \<lparr>w_db = db0, w_hub = newHub\<lparr>hub_jwtKey := key, hub_keyIsBase64 := b, hub_swarm := calls\<rparr>,
    w_clients = Map.empty\<rparr>"
| Init: "serial ops_at db0 log w \<Longrightarrow> w_clients w r = None \<Longrightarrow> length message < 2 ^ 62 \<Longrightarrow>
    decodeInitMessage message = Ok m \<Longrightarrow> good_init m \<Longrightarrow> im_Offset m < 2 ^ 63 \<Longrightarrow>
    serial ops_at db0 (log @ [(r, message)]) (fst (first_message (ops_at now) jwt now r message
      (w\<lparr>w_clients := (w_clients w)(r \<mapsto> new_client r)\<rparr>)))"
| Message: "serial ops_at db0 log w \<Longrightarrow> joined w r \<Longrightarrow>
    serial ops_at db0 (log @ [(r, data)]) (fst (handle_message (ops_at now) r data w))"
| Leave: "serial ops_at db0 log w \<Longrightarrow> w_clients w r = Some c \<Longrightarrow> serial ops_at db0 log (leave now r c w)"

text \<open>Clients are never forgotten, so a new one is not in the log.\<close>

definition log_ok :: "message_log \<Rightarrow> 'db world \<Rightarrow> bool" where
  "log_ok log w \<longleftrightarrow> (\<forall>e\<in>set log. w_clients w (fst e) \<noteq> None)"

lemma log_ok_new: "log_ok log w \<Longrightarrow> w_clients w r = None \<Longrightarrow> \<not> begun r log"
  by (auto simp: log_ok_def begun_def)

lemma followed_connecting:
  assumes "followed docs log w" and "\<not> begun r log" and "\<forall>d. r \<notin> members (w_hub w) d"
  shows "followed docs (log @ [(r, message)]) w"
  using assms caught_up_snoc by (fastforce simp: followed_def begun_snoc sent_by_init)

lemma leave_clients: "w_clients w q \<noteq> None \<Longrightarrow> w_clients (leave now r c w) q \<noteq> None"
  using leave_view [of w now r c] by (fastforce simp: same_view_def)

lemma first_message_clients:
  "w_clients w q \<noteq> None \<Longrightarrow> w_clients (fst (first_message ops jwt now r message w)) q \<noteq> None"
proof -
  have join: "w_clients v' q \<noteq> None" if "join_session ops r c v = (v', e)" "w_clients v q \<noteq> None" for c v v' e
    using that by (auto simp: join_session_def Let_def addClient_sessions(2) split: prod.splits if_splits outcome.splits)
  have leave: "\<exists>k. w_clients (leave now r c v) p = Some k" if "w_clients v p = Some k'" for c v p k'
    using leave_clients [of v p now r c] that by simp
  show "w_clients w q \<noteq> None \<Longrightarrow> w_clients (fst (first_message ops jwt now r message w)) q \<noteq> None"
    by (auto simp: first_message_def split: option.splits prod.splits verdict.splits dest!: join intro: leave)
qed

context served_store
begin

lemma followed_first_message:
  fixes jwt :: jwt_lib
  assumes w: "world_ok w" and db: "ok (w_db w)" and f: "followed (live_at now (w_db w)) log w"
    and r: "\<forall>d. r \<notin> members (w_hub w) d" and c0: "w_clients w r = Some (new_client r)" and new: "sent_by r log = []"
    and m: "decodeInitMessage message = Ok m" "good_init m" "im_Offset m < 2 ^ 63" and b: "begun r log"
    and st: "\<And>start. start = im_Data m \<or> int (length start) = int_of_u64 (im_Offset m) \<Longrightarrow> starts r log start"
  defines "w' \<equiv> fst (first_message (ops_at now) jwt now r message w)"
  shows "followed (live_at now (w_db w')) log w'"
proof (cases "length message < 2 \<or> message ! 0 = serverIdentificationMessageType")
  case True
  then have "w' = w \<or> w' = w\<lparr>w_hub := swarm_notify (HandleIncomingConnection message) (w_hub w)\<rparr>"
    by (auto simp: first_message_def c0 w'_def)
  with f show ?thesis by (auto intro: followed_same simp: same_view_refl)
next
  case False
  have nn: "\<not> int_of_u64 (im_Offset m) < 0"
    using m(3) int_of_u64_nonneg [of "im_Offset m"] by (simp add: word_less_def)
  show ?thesis
  proof (rule at.processInit_cases [OF db m(1,2), of now jwt now "w_hub w" "new_client r"])
    fix db1 db' res c1 c' mode code doc n
    assume p: "processInitMessage (ops_at now) jwt now (w_hub w) message (w_db w, new_client r) = (db', c', Go_on)"
      and ok': "ok db'"
      and a: "init_access (w_hub w) (im_DocID m) (uint (im_CreationMode m)) res (init_fields m (new_client r))
        = (c1, Some (mode, code))"
      and c': "c' = enqueueAppend (drop n doc) (word_of_nat n) c1" "n \<le> length doc"
      and doc: "live_at now db' (cl_docID c') = Some doc"
      and l: "live_at now db' = live_at now (w_db w) \<and> int n = int_of_u64 (im_Offset m)
         \<or> live_at now (w_db w) (cl_docID c') = None \<and> mode \<noteq> NeverCreate \<and> doc = im_Data m \<and> n = length doc
           \<and> live_at now db' = (live_at now (w_db w))(cl_docID c' \<mapsto> im_Data m)"
    let ?w1 = "w\<lparr>w_db := db', w_clients := (w_clients w)(r \<mapsto> c')\<rparr>"
    have "cl_lastEnd c1 = 0" "cl_queued c1 = []"
      using init_access_frame(1,6) [OF a] by (simp_all add: new_client_def init_fields_def Let_def)
    moreover have "starts r log (take n doc)" by (rule st) (use l c'(2) in auto)
    ultimately have "caught_up (starts r log) (sent_by r log) c' doc"
      using caught_up_start [OF _ _ c'(2)] by (simp add: c'(1) new)
    moreover have "followed (live_at now db') log ?w1"
      by (rule followed_before_join [OF f r]) (use l in blast)
    moreover have "live_at now (w_db (fst (join_session (ops_at now) r c' ?w1))) = live_at now db'"
      using at.keys_live [OF ok', of now "cl_docID c'"]
      by (rule_tac at.join_session_eq [of ?w1 now c' r]) (simp_all add: ok')
    ultimately show ?thesis
      using at.join_followed [of ?w1 "live_at now db'" log r c' doc now] b doc ok'
        at.first_message_join [OF db c0 False p]
      by (simp add: w'_def)
  next
    fix db' c'
    assume "processInitMessage (ops_at now) jwt now (w_hub w) message (w_db w, new_client r) = (db', c', Hang_up)"
      "live_at now db' = live_at now (w_db w)"
    then show ?thesis
      using followed_before_join [OF f r, of "live_at now db'" _ _ "set_closed c'" db'] False c0
      by (simp add: first_message_def w'_def)
  qed (use nn in simp_all)
qed

end

context lasting_store
begin

lemma serial_invariant:
  assumes "serial ops_at db0 log w" and "ok db0"
  shows "world_ok w \<and> ok (w_db w) \<and> log_ok log w \<and> (\<forall>now. followed (live_at now (w_db w)) log w)"
  using assms(1)
proof (induction rule: serial.induct)
  case (Start calls b key)
  let ?h = "newHub\<lparr>hub_jwtKey := key, hub_keyIsBase64 := b, hub_swarm := calls\<rparr>"
  have "hub_ok (?h, Map.empty)"
    by (simp add: newHub_def ids_ok_def)
  moreover have "members ?h d = {}" for d
    by (simp add: members_def newHub_def)
  ultimately show ?case by (simp add: world_ok_def followed_def log_ok_def assms(2))
next
  case (Init log w r message m now jwt)
  let ?w0 = "w\<lparr>w_clients := (w_clients w)(r \<mapsto> new_client r)\<rparr>"
  from Init have w: "world_ok w" and out: "\<forall>d. r \<notin> members (w_hub w) d" and e: "ok (w_db w)"
    and new: "\<not> begun r log" and f: "followed (live_at now (w_db w)) (log @ [(r, message)]) w"
    using not_member [of w r] log_ok_new [of log w r]
      followed_connecting [of "live_at now (w_db w)" log w r message] by simp_all
  have w0: "world_ok ?w0"
    using hub_ok_new_client [of "w_hub w" "w_clients w" "new_client r" r] w out
    by (simp add: world_ok_def new_client_def)
  have f0: "followed (live_at now (w_db ?w0)) (log @ [(r, message)]) ?w0"
    using followed_before_join [OF f out, of "live_at now (w_db w)" _ _ "new_client r" "w_db w"] by simp
  obtain w' v where fm: "first_message (ops_at now) jwt now r message ?w0 = (w', v)"
    by (metis surj_pair)
  have "world_ok w'"
    using at.first_message_verdict [OF w0 _ _ _ Init.hyps(3) fm] out e by simp
  moreover have db': "ok (w_db w')"
    using first_message_db [of ?w0 now jwt r message] e fm by simp
  moreover have "followed (live_at now (w_db w')) (log @ [(r, message)]) w'"
    using followed_first_message [OF w0 _ f0 _ _ _ Init.hyps(4-6) _ starts_init [OF new Init.hyps(4)], of jwt]
      out fm e new by (simp add: sent_by_init sent_by_new begun_snoc)
  moreover have "log_ok (log @ [(r, message)]) w'"
    using Init.IH first_message_clients [of ?w0 _ "ops_at now" jwt now r message] fm by (fastforce simp: log_ok_def)
  ultimately show ?case using timeless [OF db'] fm by (metis fst_conv)
next
  case (Message log w r data now)
  then have w: "world_ok w" "joined w r" and e: "ok (w_db w)" and f: "followed (live_at now (w_db w)) log w" by simp_all
  obtain c where c: "w_clients w r = Some c" using w(2) by (auto simp: joined_def)
  have db': "ok (w_db (fst (handle_message (ops_at now) r data w)))"
    using at.handle_message_db [OF e c, of now data] by simp
  have k: "world_ok (fst (handle_message (ops_at now) r data w))" "same_place w (fst (handle_message (ops_at now) r data w))"
    using handle_message_keeps [OF w, of "ops_at now" data] by simp_all
  then have "log_ok (log @ [(r, data)]) (fst (handle_message (ops_at now) r data w))"
    using Message.IH c by (fastforce simp: log_ok_def same_place_def)
  then show ?case
    using followed_handle_message [OF w e f, of data] db' k(1) timeless [OF db'] by metis
next
  case (Leave log w r c t)
  then have "cl_id c = idstr r" using world_ok_id by blast
  with Leave show ?case
    using leave_ok [of w c r t] leave_followed [of w _ log c r t] leave_clients [of w _ t r c]
    by (simp add: log_ok_def)
qed

text \<open>
  What a client's writer has written by the time it waits, read and replayed at the other
  end, is the document.
\<close>

lemma serial_delivers:
  assumes s: "serial ops_at db0 log w" "ok db0" and r: "r \<in> members (w_hub w) d" "w_clients w r = Some c"
    and doc: "live_at now (w_db w) d = Some doc" "length doc < 2 ^ 62"
    and es: "queued_by es = cl_queued c" "\<And>n. Fail n \<notin> set es" "wr_pc (writer_run (new_client r) es) = Waiting"
    and size: "3 \<le> cl_maxSize c"
  shows "\<exists>start frames. starts r log start
    \<and> transmit (wr_sent (writer_run (new_client r) es)) (cl_maxSize c) = Some frames
    \<and> replay (read_all frames) (start, sent_by r log) = Some (doc, [])"
proof -
  have "followed (live_at now (w_db w)) log w" using serial_invariant [OF s] by simp
  then have "caught_up (starts r log) (sent_by r log) c doc"
    using r doc(1) unfolding followed_def by (metis option.inject)
  then obtain start where "starts r log start" "delivers (queued_by es) (start, sent_by r log) (doc, [])"
    using doc(2) es(1) by (auto simp: caught_up_def)
  with writer_delivers [OF this(2) es(2) _ es(3) size] show ?thesis by (auto simp: new_client_def)
qed

text \<open>No message panics the handler of a client in such an execution.\<close>

lemma serial_handle_message_safe:
  assumes s: "serial ops_at db0 log w" "ok db0" and j: "joined w r" and d: "length data < 2 ^ 62" "data \<noteq> []"
  shows "snd (handle_message (ops_at now) r data w) \<in> {Go_on, Hang_up}"
proof -
  from serial_invariant [OF s] have w: "world_ok w" and db: "ok (w_db w)" and f: "followed (live_at now (w_db w)) log w"
    by simp_all
  obtain c where c: "w_clients w r = Some c" "r \<in> members (w_hub w) (cl_docID c)" using j by (auto simp: joined_def)
  have "live_at now (w_db w) (cl_docID c) \<noteq> None" using f c by (fastforce simp: followed_def)
  then have "snd (SetDocumentKey (ops_at now) (w_db w) (cl_docID c) v key) \<noteq> Panic" for v key
    using key_done [OF db, of now "cl_docID c" v key] by auto
  then show ?thesis
    using at.handle_message_verdict [OF w db c(1) d] by blast
qed

end

text \<open>
  As long as handlers do not interleave, every connected client is in step with its
  document: what it was last sent, or wrote, ends where the document ends. So the next
  append to the document, at that offset, is never dropped: it is queued for the client, as
  one message with exactly the appended bytes.
\<close>

theorem serial_clients_in_step:
  assumes "serial memory_ops NewMemoryDB log w" and "r \<in> members (w_hub w) d"
  shows "\<exists>c doc. w_clients w r = Some c \<and> mem_live now (w_db w) d = Some doc
    \<and> cl_lastEnd c = u64_len doc
    \<and> cl_queued (enqueueAppend data (u64_len doc) c)
        = cl_queued c @ [append_bytes (cl_protocolVersion c) data (u64_len doc)]
    \<and> cl_lastEnd (enqueueAppend data (u64_len doc) c) = u64_len (doc @ data)"
proof -
  have "followed (mem_live now (w_db w)) log w"
    using lasting.serial_invariant [OF assms(1)] by (simp add: NewMemoryDB_def)
  with assms(2) obtain c doc where
    "w_clients w r = Some c" "mem_live now (w_db w) d = Some doc" "cl_lastEnd c = u64_len doc"
    unfolding followed_def caught_up_def by blast
  then show ?thesis by (simp add: enqueueAppend_def u64_len_append)
qed

text \<open>
  An execution: client 5 creates document \<open>d\<close>, client 6 connects to it with nothing, and then
  each appends a byte.
\<close>

definition connecting :: "(gotime \<Rightarrow> 'db documentDB) \<Rightarrow> nat \<Rightarrow> bytes \<Rightarrow> 'db world \<Rightarrow> 'db world" where
  "connecting ops_at r message w = fst (first_message (ops_at (Time 0)) no_jwt (Time 0) r message
     (w\<lparr>w_clients := (w_clients w)(r \<mapsto> new_client r)\<rparr>))"

definition one_connected :: "(gotime \<Rightarrow> 'db documentDB) \<Rightarrow> 'db \<Rightarrow> 'db world" where
  "one_connected ops_at db = connecting ops_at 5 (demo_init_bytes 0 0 ''d'' [1, 2])
     \<lparr>w_db = db, w_hub = newHub, w_clients = Map.empty\<rparr>"

definition both_connected :: "(gotime \<Rightarrow> 'db documentDB) \<Rightarrow> 'db \<Rightarrow> 'db world" where
  "both_connected ops_at db = connecting ops_at 6 (demo_init_bytes 0 0 ''d'' []) (one_connected ops_at db)"

definition one_appended :: "(gotime \<Rightarrow> 'db documentDB) \<Rightarrow> 'db \<Rightarrow> 'db world" where
  "one_appended ops_at db = fst (handle_message (ops_at (Time 1)) 5 (demo_append 2) (both_connected ops_at db))"

definition both_appended :: "(gotime \<Rightarrow> 'db documentDB) \<Rightarrow> 'db \<Rightarrow> 'db world" where
  "both_appended ops_at db = fst (handle_message (ops_at (Time 2)) 6 (demo_append 3) (one_appended ops_at db))"

definition shared_log :: message_log where
  "shared_log = [(5, demo_init_bytes 0 0 ''d'' [1, 2]), (6, demo_init_bytes 0 0 ''d'' []),
     (5, demo_append 2), (6, demo_append 3)]"

lemma joined_eval: "(case w_clients w r of None \<Rightarrow> False | Some c \<Rightarrow> r \<in> members (w_hub w) (cl_docID c)) \<Longrightarrow> joined w r"
  by (auto simp: joined_def split: option.splits)

lemma connecting_serial:
  assumes "serial ops_at db0 log w" and "w_clients w r = None" and "length data < 100"
  shows "serial ops_at db0 (log @ [(r, demo_init_bytes 0 0 ''d'' data)])
    (connecting ops_at r (demo_init_bytes 0 0 ''d'' data) w)"
  unfolding connecting_def
  using demo_init_decode [of "''d''" data 0 0] demo_init_good [of 0 "''d''" data] assms(3)
  by (intro serial.Init [OF assms(1,2)]) (auto simp: demo_init_length, simp_all add: demo_init_def)

lemma both_appended_serial:
  assumes "w_clients (one_connected ops_at db) 6 = None"
    and "joined (both_connected ops_at db) 5" and "joined (one_appended ops_at db) 6"
  shows "serial ops_at db shared_log (both_appended ops_at db)"
proof -
  have "newHub\<lparr>hub_jwtKey := [], hub_keyIsBase64 := False, hub_swarm := []\<rparr> = newHub" by (simp add: newHub_def)
  with serial.Start [of ops_at db "[]" False "[]"]
  have "serial ops_at db [] \<lparr>w_db = db, w_hub = newHub, w_clients = Map.empty\<rparr>" by simp
  then have "serial ops_at db [(5, demo_init_bytes 0 0 ''d'' [1, 2])] (one_connected ops_at db)"
    using connecting_serial [of ops_at db "[]" _ 5 "[1, 2]"] by (simp add: one_connected_def)
  then have "serial ops_at db [(5, demo_init_bytes 0 0 ''d'' [1, 2]), (6, demo_init_bytes 0 0 ''d'' [])] (both_connected ops_at db)"
    using connecting_serial [of ops_at db _ _ 6 "[]"] assms(1) by (fastforce simp: both_connected_def)
  from serial.Message [OF serial.Message [OF this assms(2), of "demo_append 2" "Time 1"], of 6 "demo_append 3" "Time 2"] assms(3)
  show ?thesis by (simp add: both_appended_def one_appended_def shared_log_def)
qed

lemma memory_serial: "serial memory_ops NewMemoryDB shared_log (both_appended memory_ops NewMemoryDB)"
proof (rule both_appended_serial)
  show "w_clients (one_connected memory_ops NewMemoryDB) 6 = None" by code_simp
  show "joined (both_connected memory_ops NewMemoryDB) 5" by (rule joined_eval) code_simp
  show "joined (one_appended memory_ops NewMemoryDB) 6" by (rule joined_eval) code_simp
qed

theorem serial_clients_in_step_witness:
  "\<exists>c doc. w_clients (both_appended memory_ops NewMemoryDB) 6 = Some c
     \<and> mem_live (Time 9) (w_db (both_appended memory_ops NewMemoryDB)) ''d'' = Some doc \<and> cl_lastEnd c = u64_len doc"
proof -
  have "6 \<in> members (w_hub (both_appended memory_ops NewMemoryDB)) ''d''" by code_simp
  then show ?thesis
    using serial_clients_in_step [OF memory_serial, of 6 "''d''" "Time 9" "[]"] by blast
qed

section \<open>Interleavings that lose an append\<close>

text \<open>
  C38: A client that joins while another appends can miss the append for good. The joining
  client reads the document (which its init message has sent it), the other client's append
  goes through completely, and then the joining client is added to the session: it is a
  member of the session, the document is longer than what it was sent, and nothing is queued
  for it.
\<close>

theorem join_race_misses_append:
  assumes "world_ok w" and "w_clients w q = Some cq" and "cl_writePermission cq"
    and "w_clients w r = Some c" and "cl_docID c = cl_docID cq" and "\<forall>d. r \<notin> members (w_hub w) d"
    and "mem_live now (w_db w) (cl_docID cq) = Some doc" and "cl_lastEnd c = u64_len doc" and "q \<noteq> r"
    and "decodeAppendMessage data = Ok m" and "ap_Offset m = u64_len doc"
    and "ap_Data m \<noteq> []" and "length (doc @ ap_Data m) < 2 ^ 64"
    and "processAppend (memory_ops now) q cq data w = (w1, v1)"
    and "join_session (memory_ops now) r c w1 = (w2, v2)"
  shows "r \<in> members (w_hub w2) (cl_docID c) \<and> mem_live now (w_db w2) (cl_docID c) = Some (doc @ ap_Data m)
    \<and> (\<exists>c2. w_clients w2 r = Some c2 \<and> cl_queued c2 = cl_queued c \<and> cl_lastEnd c2 < u64_len (doc @ ap_Data m))"
proof -
  obtain w' where p: "processAppend (memory_ops now) q cq data w = (w', Go_on)"
    and live: "mem_live now (w_db w') = (mem_live now (w_db w))(cl_docID cq \<mapsto> doc @ ap_Data m)"
    and cl: "w_clients w' = others_get
       (\<lambda>c. set_lastEnd (u64_len (doc @ ap_Data m)) (enqueueAckNack 1 (u64_len (doc @ ap_Data m)) c))
       (enqueueAppend (ap_Data m) (u64_len doc)) q (members (w_hub w) (cl_docID cq)) (w_clients w)"
    by (rule mem.processAppend_cases [OF assms(1) _ assms(2,10), of now]) (use assms(3,7,11) in auto)
  have w1: "w1 = w'" using p assms(14) by simp
  have c1: "w_clients w1 r = Some c"
    using assms(4,6,9) by (simp add: w1 cl others_get_def)
  let ?w1 = "hub_do (addClient (cl_docID c) r) w1"
  obtain sess where sess: "hub_sessions (w_hub ?w1) (cl_docID c) = Some sess"
    by (simp add: addClient_sessions(1))
  have w2: "w2 = upd_world (notifyKeysUpdated (keys_of (w_db w1) (cl_docID c))) r
      (upd_world (notifyKeysUpdated (map ck_Key (sess_keys sess))) r (?w1\<lparr>w_db := w_db w1\<rparr>))"
    using sess assms(15) by (simp add: join_session_def Let_def getClientKeys_def memory_ops_def mem_GetDocumentKeys_def)
  have "u64_len doc < u64_len (doc @ ap_Data m)"
    using assms(12,13) by (simp add: word_less_nat_alt unat_u64_len)
  moreover have "\<exists>c2. w_clients w2 r = Some c2 \<and> cl_queued c2 = cl_queued c \<and> cl_lastEnd c2 = cl_lastEnd c"
    using c1 by (simp add: w2 addClient_sessions(2) frame_simps)
  ultimately show ?thesis
    using live assms(5,8) by (auto simp: w2 addClient_members w1)
qed

text \<open>Client 9 of the examples has read document \<open>d\<close> of \<open>demo_world\<close> when client 5 appends to it.\<close>

definition racing_world :: "memoryDB world" where
  "racing_world = demo_world\<lparr>w_clients := (w_clients demo_world)(9 \<mapsto>
     (new_client 9)\<lparr>cl_docID := ''d'', cl_lastEnd := 2\<rparr>)\<rparr>"

theorem join_race_misses_append_witness:
  "\<exists>(w2 :: memoryDB world) c2. 9 \<in> members (w_hub w2) ''d'' \<and> mem_live (Time 5) (w_db w2) ''d'' = Some [1, 2, 7]
     \<and> w_clients w2 9 = Some c2 \<and> cl_queued c2 = [] \<and> cl_lastEnd c2 < u64_len [1, 2, 7]"
proof -
  let ?c = "(new_client 9)\<lparr>cl_docID := ''d'', cl_lastEnd := 2\<rparr>"
  have new: "\<forall>d. 9 \<notin> members (w_hub racing_world) d"
    using not_member [OF demo_world_ok demo_world_clients(3)] by (simp add: racing_world_def)
  have ok: "world_ok racing_world"
    using demo_world_ok demo_world_clients(3)
    by (fastforce simp: world_ok_def racing_world_def ids_ok_def session_ok_def new_client_def)
  obtain w1 v1 w2 v2 where p: "processAppend (memory_ops (Time 5)) 5 (the (w_clients racing_world 5)) (demo_append 2) racing_world = (w1, v1)"
    and j: "join_session (memory_ops (Time 5)) 9 ?c w1 = (w2, v2)"
    by (metis surj_pair)
  show ?thesis
    using join_race_misses_append [OF ok _ _ _ _ new _ _ _ demo_append_decode _ _ _ p j]
    by (auto simp: racing_world_def demo_world_clients demo_world_doc u64_len_def new_client_def)
qed

text \<open>
  Appends of two clients can reach a third in the wrong order, and then the earlier one
  is dropped. If the second append, made after the first in the database, is first to reach
  the hub, then the first one changes nothing for any other client of the document: its
  offset is before the end already sent.
\<close>

theorem hub_reorder_loses_append:
  assumes "hub_ok (h, cs)" and "q \<in> members h d" and "q \<noteq> a" and "q \<noteq> b" and "cs q = Some c"
    and "cl_lastEnd c = u64_len doc" and "dataA \<noteq> []" and "length (doc @ dataA @ dataB) < 2 ^ 64"
    and "hub_Append d (idstr b) (u64_len (doc @ dataA)) dataB (h, cs) = (h1, cs1)"
    and "hub_Append d (idstr a) (u64_len doc) dataA (h1, cs1) = (h2, cs2)"
  shows "cs2 q = cs1 q \<and> cs2 q = Some (enqueueAppend dataB (u64_len (doc @ dataA)) c)
    \<and> cl_lastEnd (the (cs2 q)) = u64_len (doc @ dataA @ dataB)"
proof -
  have n: "u64_len doc < u64_len (doc @ dataA)" "u64_len doc < u64_len (doc @ dataA @ dataB)"
    using assms(7,8) by (simp_all add: word_less_nat_alt unat_u64_len)
  have f1: "cs1 q = Some (enqueueAppend dataB (u64_len (doc @ dataA)) c)"
    using hub_Append_others [OF assms(1,9)] assms(2,4,5) by simp
  have ok1: "hub_ok (h1, cs1)"
    using append.ok [OF assms(1), of d "idstr b" "u64_len (doc @ dataA)" dataB] assms(9) by simp
  have m1: "members h1 = members h"
    using append.members_same [of d "idstr b" "u64_len (doc @ dataA)" dataB h cs] assms(9) by simp
  have e1: "cl_lastEnd (enqueueAppend dataB (u64_len (doc @ dataA)) c) = u64_len (doc @ dataA @ dataB)"
    using n(1) assms(6) by (auto simp: enqueueAppend_def u64_len_append dest: less_asym)
  have "cs2 q = Some (enqueueAppend dataA (u64_len doc) (enqueueAppend dataB (u64_len (doc @ dataA)) c))"
    using hub_Append_others [OF ok1 assms(10)] assms(2,3) f1 m1 by simp
  also have "enqueueAppend dataA (u64_len doc) (enqueueAppend dataB (u64_len (doc @ dataA)) c)
      = enqueueAppend dataB (u64_len (doc @ dataA)) c"
    using n(2) e1 by (simp add: enqueueAppend_def [of dataA])
  finally show ?thesis using f1 e1 by simp
qed

theorem hub_reorder_loses_append_witness:
  "\<exists>h1 cs1 h2 cs2. hub_Append ''d'' (idstr 7) 1 [8] (demo, demo_clients) = (h1, cs1)
     \<and> hub_Append ''d'' (idstr 5) 0 [9] (h1, cs1) = (h2, cs2) \<and> cs2 6 = cs1 6"
proof -
  obtain h1 cs1 h2 cs2 where b: "hub_Append ''d'' (idstr 7) 1 [8] (demo, demo_clients) = (h1, cs1)"
    and a: "hub_Append ''d'' (idstr 5) 0 [9] (h1, cs1) = (h2, cs2)"
    by (metis surj_pair)
  have "cs2 6 = cs1 6"
    using hub_reorder_loses_append [OF demo_ok, of 6 "''d''" 5 7 _ "[]" "[9]" "[8]" h1 cs1 h2 cs2] a b
    by (simp add: demo_members demo_clients_def u64_len_def new_client_def)
  with a b show ?thesis by blast
qed

end
