(* ===== verification/SqlxDB.thy ===== *)
theory SqlxDB
  imports DocumentDB
begin

text \<open>
  \<open>SQLxDocumentDB\<close> of \<open>sqlxdb.go\<close>: documents, keys and tokens in three tables of an SQL
  database. The tables are lists of rows and each statement of the code is a filter, a map or
  an insertion that checks the constraints of the schema (\<open>sqlitedb.go\<close>, \<open>postgresql.go\<close>,
  \<open>mariadb.go\<close>): the primary key, the two unique constraints, the foreign key of the keys
  and its cascade. The pool has one connection, so that a transaction is one step. What depends
  on the driver and the engine is a parameter: among it which texts a statement takes and which
  fit a column, as the engines limit lengths and encodings. A statement that is refused panics
  where the code has \<open>MustExec\<close> or \<open>log.Panic\<close>. Left out are errors of the connection, the
  limits of the columns for documents, of which the least is a gigabyte, and collations: two
  texts are equal if they have the same characters.

  The lemmas: the constraints of the tables are kept, the operations on documents satisfy the laws of
  the interface (by interpretation), keys have optimistic concurrency, and tokens.
\<close>

section \<open>State\<close>

record doc_row =
  dr_docid :: string
  dr_lastAccess :: int
  dr_data :: bytes

record key_row =
  kr_docID :: string
  kr_name :: string
  kr_value :: string
  kr_version :: int

record token_row =
  tr_tokenID :: string
  tr_docID :: string
  tr_userID :: string
  tr_permissions :: string
  tr_expiration :: int

record sqlDB =
  sql_docs :: "doc_row list"
  sql_keys :: "key_row list"
  sql_tokens :: "token_row list"
  sql_lastClean :: gotime
  sql_expiration :: int

text \<open>
  The driver and the engine: what scanning a blob into a \<open>[]byte\<close> gives, \<open>None\<close> for
  \<open>nil\<close>; the order of the rows of an unordered query for keys; whether a number fits the
  column \<open>version\<close>, which has 32 bits in some schemas; whether a statement takes a text as
  its parameter, and whether such a text can be stored in a column; the text of the error when
  a statement is refused, and when an insertion violates a unique constraint.
\<close>

datatype sql_column = Doc_docid | Key_docID | Key_name | Key_value
  | Token_tokenID | Token_docID | Token_userID | Token_permissions

record sql_driver =
  scan_blob :: "bytes \<Rightarrow> bytes option"
  row_order :: "Key list \<Rightarrow> Key list"
  version_fits :: "int \<Rightarrow> bool"
  takes_text :: "string \<Rightarrow> bool"
  text_fits :: "sql_column \<Rightarrow> string \<Rightarrow> bool"
  refusal :: string
  duplicate_text :: string

definition fits :: "sql_driver \<Rightarrow> sql_column \<Rightarrow> string \<Rightarrow> bool" where
  "fits drv col t \<longleftrightarrow> takes_text drv t \<and> text_fits drv col t"

section \<open>Statements\<close>

definition find_doc :: "string \<Rightarrow> sqlDB \<Rightarrow> doc_row option" where
  "find_doc docID db = find (\<lambda>r. dr_docid r = docID) (sql_docs db)"

definition find_key :: "string \<Rightarrow> string \<Rightarrow> sqlDB \<Rightarrow> key_row option" where
  "find_key docID name db = find (\<lambda>r. (kr_docID r, kr_name r) = (docID, name)) (sql_keys db)"

definition find_token :: "string \<Rightarrow> sqlDB \<Rightarrow> token_row option" where
  "find_token tokenID db = find (\<lambda>r. tr_tokenID r = tokenID) (sql_tokens db)"

text \<open>Deleting documents deletes the keys that refer to them.\<close>

definition delete_docs :: "(doc_row \<Rightarrow> bool) \<Rightarrow> sqlDB \<Rightarrow> sqlDB" where
  "delete_docs P db = db\<lparr>
     sql_docs := filter (\<lambda>r. \<not> P r) (sql_docs db),
     sql_keys := filter (\<lambda>k. \<not> (\<exists>r\<in>set (sql_docs db). P r \<and> dr_docid r = kr_docID k)) (sql_keys db)\<rparr>"

definition delete_tokens :: "(token_row \<Rightarrow> bool) \<Rightarrow> sqlDB \<Rightarrow> sqlDB" where
  "delete_tokens P db = db\<lparr>sql_tokens := filter (\<lambda>r. \<not> P r) (sql_tokens db)\<rparr>"

definition insert_doc :: "sql_driver \<Rightarrow> doc_row \<Rightarrow> sqlDB \<Rightarrow> sqlDB option" where
  "insert_doc drv r db = (if \<not> fits drv Doc_docid (dr_docid r) \<or> find_doc (dr_docid r) db \<noteq> None then None
     else Some (db\<lparr>sql_docs := sql_docs db @ [r]\<rparr>))"

definition update_doc :: "string \<Rightarrow> (doc_row \<Rightarrow> doc_row) \<Rightarrow> sqlDB \<Rightarrow> sqlDB" where
  "update_doc docID f db =
     db\<lparr>sql_docs := map (\<lambda>r. if dr_docid r = docID then f r else r) (sql_docs db)\<rparr>"

definition insert_key :: "sql_driver \<Rightarrow> key_row \<Rightarrow> sqlDB \<Rightarrow> sqlDB option" where
  "insert_key drv r db =
     (if find_key (kr_docID r) (kr_name r) db \<noteq> None \<or> find_doc (kr_docID r) db = None
        \<or> \<not> version_fits drv (kr_version r) \<or> \<not> fits drv Key_docID (kr_docID r)
        \<or> \<not> fits drv Key_name (kr_name r) \<or> \<not> fits drv Key_value (kr_value r) then None
      else Some (db\<lparr>sql_keys := sql_keys db @ [r]\<rparr>))"

definition update_key :: "sql_driver \<Rightarrow> string \<Rightarrow> string \<Rightarrow> string \<Rightarrow> int \<Rightarrow> sqlDB \<Rightarrow> sqlDB option" where
  "update_key drv docID name val version db =
     (if \<not> version_fits drv version \<or> \<not> fits drv Key_value val then None
      else Some (db\<lparr>sql_keys := map (\<lambda>r. if (kr_docID r, kr_name r) = (docID, name)
             then r\<lparr>kr_value := val, kr_version := version\<rparr> else r) (sql_keys db)\<rparr>))"

definition token_fits :: "sql_driver \<Rightarrow> token_row \<Rightarrow> bool" where
  "token_fits drv r \<longleftrightarrow> fits drv Token_tokenID (tr_tokenID r) \<and> fits drv Token_docID (tr_docID r)
     \<and> fits drv Token_userID (tr_userID r) \<and> fits drv Token_permissions (tr_permissions r)"

text \<open>This insertion is by \<open>Exec\<close>, which returns an error.\<close>

definition insert_token :: "sql_driver \<Rightarrow> token_row \<Rightarrow> sqlDB \<Rightarrow> string + sqlDB" where
  "insert_token drv r db = (if \<not> token_fits drv r then Inl (refusal drv)
     else if find_token (tr_tokenID r) db \<noteq> None then Inl (duplicate_text drv)
     else Inr (db\<lparr>sql_tokens := sql_tokens db @ [r]\<rparr>))"

section \<open>Operations\<close>

definition sql_clean :: "gotime \<Rightarrow> sqlDB \<Rightarrow> sqlDB" where
  "sql_clean now db =
     (let seconds = sql_expiration db in
      if seconds = 0 \<or> seconds = NoExpiration then db
      else if time_sub now (sql_lastClean db) < 60 * 60 * second then db
      else
        (delete_tokens (\<lambda>r. tr_expiration r < unix_sec now)
          (delete_docs (\<lambda>r. dr_lastAccess r < wrap_int (unix_sec now - seconds)) db))
        \<lparr>sql_lastClean := now\<rparr>)"

text \<open>
  The connection to a database that may hold tables already. The expiration is zero until
  it is set, so that this call of \<open>clean\<close> returns at once.
\<close>

definition NewSQLXConnection ::
    "gotime \<Rightarrow> doc_row list \<Rightarrow> key_row list \<Rightarrow> token_row list \<Rightarrow> sqlDB" where
  "NewSQLXConnection now docs keys tokens =
     sql_clean now \<lparr>sql_docs = docs, sql_keys = keys, sql_tokens = tokens,
       sql_lastClean = zero_time, sql_expiration = 0\<rparr>"

definition sql_SetExpiration :: "sqlDB \<Rightarrow> int \<Rightarrow> sqlDB" where
  "sql_SetExpiration db seconds = db\<lparr>sql_expiration := seconds\<rparr>"

definition sql_CheckHealth :: "sqlDB \<Rightarrow> goerror option" where
  "sql_CheckHealth db = None"

text \<open>
  \<open>MustExec\<close> panics when the insertion fails, as it does if the row has \<open>nil\<close> data or the ID
  cannot be stored, and so does a query that is refused.
\<close>

definition sql_GetDocument ::
    "sql_driver \<Rightarrow> gotime \<Rightarrow> sqlDB \<Rightarrow> string \<Rightarrow> int \<Rightarrow> bytes \<Rightarrow> sqlDB \<times> (bytes \<times> bool) outcome" where
  "sql_GetDocument drv now db0 docID mode initialData =
     (let db = sql_clean now db0;
          row = find_doc docID db;
          doc = Option.bind row (\<lambda>r. scan_blob drv (dr_data r));
          created = (row = None)
      in if \<not> takes_text drv docID then (db, Panic)
      else case doc of
           None \<Rightarrow>
             if mode = NeverCreate then (db, Err ErrMissing)
             else (case insert_doc drv \<lparr>dr_docid = docID, dr_lastAccess = unix_sec now, dr_data = initialData\<rparr> db of
                     None \<Rightarrow> (db, Panic)
                   | Some db' \<Rightarrow> (db', Ok (initialData, created)))
         | Some doc' \<Rightarrow>
             if mode = AlwaysCreate then (db, Err ErrExists)
             else (update_doc docID (\<lambda>r. r\<lparr>dr_lastAccess := unix_sec now\<rparr>) db, Ok (doc', created)))"

definition sql_AppendDocument ::
    "sql_driver \<Rightarrow> gotime \<Rightarrow> sqlDB \<Rightarrow> string \<Rightarrow> u64 \<Rightarrow> bytes \<Rightarrow> sqlDB \<times> u64 \<times> goerror option" where
  "sql_AppendDocument drv now db0 docID oldLength newData =
     (let db = sql_clean now db0 in
      if \<not> takes_text drv docID then (db, 0, Some (Panicked (refusal drv)))
      else case Option.bind (find_doc docID db) (\<lambda>r. scan_blob drv (dr_data r)) of
        None \<Rightarrow> (db, 0, Some ErrMissing)
      | Some doc \<Rightarrow>
          if u64_len doc \<noteq> oldLength then (db, u64_len doc, Some ErrConflict)
          else (update_doc docID (\<lambda>r. r\<lparr>dr_lastAccess := unix_sec now\<rparr>)
                  (update_doc docID (\<lambda>r. r\<lparr>dr_data := doc @ newData\<rparr>) db),
                u64_len (doc @ newData), None))"

definition key_of_row :: "key_row \<Rightarrow> Key" where
  "key_of_row r = \<lparr>key_Version = kr_version r, key_Name = kr_name r, key_Value = kr_value r\<rparr>"

definition sql_GetDocumentKeys ::
    "sql_driver \<Rightarrow> sqlDB \<Rightarrow> string \<Rightarrow> sqlDB \<times> (goerror + Key list)" where
  "sql_GetDocumentKeys drv db docID =
     (db, if \<not> takes_text drv docID then Inl (Panicked (refusal drv))
          else Inr (row_order drv (map key_of_row (filter (\<lambda>r. kr_docID r = docID) (sql_keys db)))))"

text \<open>
  A key of a document that is not there violates the foreign key, and \<open>MustExec\<close> panics, as it
  does when a name or a value cannot be stored.
\<close>

definition sql_SetDocumentKey ::
    "sql_driver \<Rightarrow> sqlDB \<Rightarrow> string \<Rightarrow> int \<Rightarrow> Key \<Rightarrow> sqlDB \<times> goerror option outcome" where
  "sql_SetDocumentKey drv db docID oldVersion key =
     (if \<not> takes_text drv docID \<or> \<not> takes_text drv (key_Name key) then (db, Panic)
      else case find_key docID (key_Name key) db of
        Some row \<Rightarrow>
          if kr_version row \<noteq> oldVersion then (db, Ok (Some ErrConflict))
          else (case update_key drv docID (key_Name key) (key_Value key) (key_Version key) db of
                  None \<Rightarrow> (db, Panic) | Some db' \<Rightarrow> (db', Ok None))
      | None \<Rightarrow>
          if oldVersion \<noteq> 0 then (db, Ok (Some ErrConflict))
          else (case insert_key drv \<lparr>kr_docID = docID, kr_name = key_Name key,
                       kr_value = key_Value key, kr_version = key_Version key\<rparr> db of
                  None \<Rightarrow> (db, Panic) | Some db' \<Rightarrow> (db', Ok None)))"

definition sql_DeleteDocument :: "sql_driver \<Rightarrow> sqlDB \<Rightarrow> string \<Rightarrow> sqlDB \<times> goerror option" where
  "sql_DeleteDocument drv db docID =
     (if \<not> takes_text drv docID then (db, Some (Panicked (refusal drv)))
      else (delete_docs (\<lambda>r. dr_docid r = docID) db, None))"

text \<open>
  The document is inserted before the token; if the token is a duplicate or cannot be stored,
  the rollback takes the document back. The error is \<open>ErrExists\<close> if the driver's text has the word \<open>UNIQUE\<close>.
\<close>

definition sql_AddToken ::
    "sql_driver \<Rightarrow> gotime \<Rightarrow> sqlDB \<Rightarrow> string \<Rightarrow> string \<Rightarrow> string \<Rightarrow> string \<Rightarrow> int \<Rightarrow> bytes \<Rightarrow>
     sqlDB \<times> goerror option" where
  "sql_AddToken drv now db tokenID docID userID permissions expirationSeconds contents =
     (if contents \<noteq> [] \<and> \<not> takes_text drv docID then (db, Some (Panicked (refusal drv)))
      else if contents \<noteq> [] \<and> find_doc docID db \<noteq> None then (db, Some ErrConflict)
      else case (if contents = [] then Some db
                 else insert_doc drv \<lparr>dr_docid = docID, dr_lastAccess = unix_sec now, dr_data = contents\<rparr> db) of
             None \<Rightarrow> (db, Some (Panicked (refusal drv)))
           | Some db1 \<Rightarrow>
               (case insert_token drv \<lparr>tr_tokenID = tokenID, tr_docID = docID, tr_userID = userID,
                       tr_permissions = permissions, tr_expiration = expirationSeconds\<rparr> db1 of
                  Inr db2 \<Rightarrow> (db2, None)
                | Inl err \<Rightarrow> (db, Some (if str_contains err ''UNIQUE'' then ErrExists else OtherError err))))"

text \<open>Here a refused query is an error like any other.\<close>

definition sql_GetToken ::
    "sql_driver \<Rightarrow> gotime \<Rightarrow> sqlDB \<Rightarrow> string \<Rightarrow> sqlDB \<times> (goerror + string \<times> string \<times> string)" where
  "sql_GetToken drv now db token0 =
     (db,
      if \<not> takes_text drv token0 then Inl (OtherError (refusal drv))
      else case find (\<lambda>r. tr_tokenID r = token0 \<and> tr_expiration r > unix_sec now) (sql_tokens db) of
        None \<Rightarrow> Inl ErrMissing
      | Some r \<Rightarrow> Inr (tr_docID r, tr_userID r, tr_permissions r))"

definition sql_UpdateUser :: "sql_driver \<Rightarrow> sqlDB \<Rightarrow> string \<Rightarrow> string \<Rightarrow> sqlDB \<times> goerror option" where
  "sql_UpdateUser drv db userID permissions =
     (if \<not> takes_text drv permissions \<or> \<not> takes_text drv userID
        \<or> (\<exists>r\<in>set (sql_tokens db). tr_userID r = userID) \<and> \<not> text_fits drv Token_permissions permissions
      then (db, Some (Panicked (refusal drv)))
      else (db\<lparr>sql_tokens := map (\<lambda>r. if tr_userID r = userID then r\<lparr>tr_permissions := permissions\<rparr> else r)
        (sql_tokens db)\<rparr>, None))"

section \<open>The constraints of the tables are kept\<close>

definition tables_ok :: "sqlDB \<Rightarrow> bool" where
  "tables_ok db \<longleftrightarrow> distinct (map dr_docid (sql_docs db))
     \<and> distinct (map (\<lambda>r. (kr_docID r, kr_name r)) (sql_keys db))
     \<and> (\<forall>k\<in>set (sql_keys db). find_doc (kr_docID k) db \<noteq> None)
     \<and> distinct (map tr_tokenID (sql_tokens db))"

lemma find_doc_None: "find_doc d db = None \<longleftrightarrow> d \<notin> dr_docid ` set (sql_docs db)"
  unfolding find_doc_def by (rule find_key_in)

lemma find_doc_update:
  assumes "\<And>r. dr_docid (f r) = dr_docid r"
  shows "find_doc d (update_doc d' f db)
    = (if d = d' then map_option f (find_doc d db) else find_doc d db)"
  unfolding find_doc_def update_doc_def
  using find_map_key [of dr_docid f d d' "sql_docs db"] assms by simp

lemma find_doc_delete:
  assumes "tables_ok db"
  shows "find_doc d (delete_docs P db)
    = (case find_doc d db of None \<Rightarrow> None | Some r \<Rightarrow> if P r then None else Some r)"
  using assms find_filter_key [of dr_docid "sql_docs db" d "\<lambda>r. \<not> P r"]
  by (simp add: tables_ok_def find_doc_def delete_docs_def split: option.splits)

lemma find_doc_tokens [simp]:
  "find_doc d (delete_tokens P db) = find_doc d db"
  "find_doc d (db\<lparr>sql_lastClean := t\<rparr>) = find_doc d db"
  "find_doc d (db\<lparr>sql_tokens := T\<rparr>) = find_doc d db"
  "find_doc d (db\<lparr>sql_keys := K\<rparr>) = find_doc d db"
  "find_doc d (db\<lparr>sql_expiration := e\<rparr>) = find_doc d db"
  by (simp_all add: find_doc_def delete_tokens_def)

lemma find_doc_insert:
  "insert_doc drv r db = Some db' \<Longrightarrow> find_doc d db' = (if d = dr_docid r then Some r else find_doc d db)"
  by (auto simp: insert_doc_def find_doc_def find_append split: if_splits option.splits)

lemma tables_delete_docs:
  assumes "tables_ok db"
  shows "tables_ok (delete_docs P db)"
proof -
  have "find_doc (kr_docID k) (delete_docs P db) \<noteq> None" if k: "k \<in> set (sql_keys (delete_docs P db))" for k
  proof -
    have "k \<in> set (sql_keys db)"
      and del: "\<not> (\<exists>r\<in>set (sql_docs db). P r \<and> dr_docid r = kr_docID k)"
      using k by (auto simp: delete_docs_def)
    then obtain r where r: "find_doc (kr_docID k) db = Some r"
      using assms by (auto simp: tables_ok_def)
    then have "r \<in> set (sql_docs db)" "dr_docid r = kr_docID k"
      using find_key_Some [of dr_docid "kr_docID k"] by (auto simp: find_doc_def)
    with del r show ?thesis by (auto simp: find_doc_delete [OF assms])
  qed
  with assms show ?thesis
    by (simp add: tables_ok_def delete_docs_def distinct_map_filter)
qed

lemma tables_delete_tokens: "tables_ok db \<Longrightarrow> tables_ok (delete_tokens P db)"
  by (simp add: tables_ok_def distinct_map_filter) (simp add: delete_tokens_def distinct_map_filter)

lemma tables_set [simp]:
  "tables_ok (db\<lparr>sql_lastClean := t\<rparr>) = tables_ok db"
  "tables_ok (db\<lparr>sql_expiration := e\<rparr>) = tables_ok db"
  by (simp_all add: tables_ok_def)

lemma tables_insert_doc: "tables_ok db \<Longrightarrow> insert_doc drv r db = Some db' \<Longrightarrow> tables_ok db'"
  using find_doc_insert [of drv r db db'] by (auto simp: tables_ok_def insert_doc_def find_doc_None split: if_splits)

lemma tables_update_doc:
  assumes "tables_ok db" and "\<And>r. dr_docid (f r) = dr_docid r"
  shows "tables_ok (update_doc d f db)"
proof -
  have "find_doc k (update_doc d f db) \<noteq> None \<longleftrightarrow> find_doc k db \<noteq> None" for k
    by (simp add: find_doc_update [OF assms(2)])
  with assms show ?thesis
    by (simp add: tables_ok_def) (simp add: update_doc_def)
qed

lemma tables_insert_key: "tables_ok db \<Longrightarrow> insert_key drv r db = Some db' \<Longrightarrow> tables_ok db'"
  using find_key_in [of "\<lambda>r. (kr_docID r, kr_name r)" "(kr_docID r, kr_name r)" "sql_keys db"]
  by (auto simp: tables_ok_def insert_key_def find_key_def split: if_splits)

lemma tables_update_key: "tables_ok db \<Longrightarrow> update_key drv d n v i db = Some db' \<Longrightarrow> tables_ok db'"
  by (auto simp: tables_ok_def update_key_def split: if_splits)

lemma tables_insert_token: "tables_ok db \<Longrightarrow> insert_token drv r db = Inr db' \<Longrightarrow> tables_ok db'"
  using find_key_in [of tr_tokenID "tr_tokenID r" "sql_tokens db"]
  by (auto simp: tables_ok_def insert_token_def find_token_def split: if_splits)

lemma tables_clean: "tables_ok db \<Longrightarrow> tables_ok (sql_clean now db)"
  by (simp add: sql_clean_def Let_def tables_delete_docs tables_delete_tokens)

lemmas tables_intros = tables_clean tables_delete_docs tables_insert_doc tables_update_doc
  tables_insert_key tables_update_key tables_insert_token

lemma sql_Get_tables: "tables_ok db \<Longrightarrow> tables_ok (fst (sql_GetDocument drv now db d mode init))"
  by (auto simp: sql_GetDocument_def Let_def intro: tables_intros split: option.splits)

lemma sql_Append_tables: "tables_ok db \<Longrightarrow> tables_ok (fst (sql_AppendDocument drv now db d old new))"
  by (auto simp: sql_AppendDocument_def Let_def intro!: tables_update_doc tables_clean split: option.splits)

lemma sql_SetKey_tables: "tables_ok db \<Longrightarrow> tables_ok (fst (sql_SetDocumentKey drv db d old key))"
  by (auto simp: sql_SetDocumentKey_def intro: tables_intros split: option.splits)

lemma sql_AddToken_tables: "tables_ok db \<Longrightarrow> tables_ok (fst (sql_AddToken drv now db t d u p e contents))"
  by (auto simp: sql_AddToken_def Let_def intro: tables_intros split: option.splits sum.splits)

lemma sql_UpdateUser_tables: "tables_ok db \<Longrightarrow> tables_ok (fst (sql_UpdateUser drv db u p))"
  by (simp add: sql_UpdateUser_def tables_ok_def)

section \<open>The documents of the interface\<close>

definition sql_due :: "gotime \<Rightarrow> sqlDB \<Rightarrow> bool" where
  "sql_due now db \<longleftrightarrow> sql_expiration db \<noteq> 0 \<and> sql_expiration db \<noteq> NoExpiration
     \<and> 60 * 60 * second \<le> time_sub now (sql_lastClean db)"

text \<open>The documents that a call at \<open>now\<close> will find.\<close>

definition sql_live :: "gotime \<Rightarrow> sqlDB \<Rightarrow> string \<Rightarrow> bytes option" where
  "sql_live now db d = map_option dr_data (find_doc d (sql_clean now db))"

definition sql_get ::
    "sql_driver \<Rightarrow> gotime \<Rightarrow> sqlDB \<Rightarrow> string \<Rightarrow> int \<Rightarrow> bytes \<Rightarrow> sqlDB \<times> (goerror + bytes \<times> bool)" where
  "sql_get drv now db d mode init = apsnd (sum_of (refusal drv)) (sql_GetDocument drv now db d mode init)"

lemma sql_clean_not_due: "\<not> sql_due now db \<Longrightarrow> sql_clean now db = db"
  by (auto simp: sql_clean_def sql_due_def Let_def)

lemma sql_clean_cleaned [simp]: "\<not> sql_due now (sql_clean now db)"
  by (auto simp: sql_clean_def sql_due_def Let_def second_def time_sub_def max_duration_def)

lemma sql_due_frame [simp]:
  "sql_due now (update_doc d f db) = sql_due now db"
  "sql_due now (delete_docs P db) = sql_due now db"
  "sql_due now (db\<lparr>sql_tokens := T\<rparr>) = sql_due now db"
  "sql_due now (db\<lparr>sql_keys := K\<rparr>) = sql_due now db"
  "sql_expiration (delete_docs P db) = sql_expiration db"
  by (simp_all add: sql_due_def update_doc_def delete_docs_def)

lemma sql_due_insert: "insert_doc drv r db = Some db' \<Longrightarrow> sql_due now db' = sql_due now db"
  by (auto simp: insert_doc_def sql_due_def split: if_splits)

lemma sql_live_cleaned: "\<not> sql_due now db \<Longrightarrow> sql_live now db = (\<lambda>d. map_option dr_data (find_doc d db))"
  by (simp add: sql_live_def sql_clean_not_due fun_eq_iff)

lemma sql_live_clean: "sql_live now (sql_clean now db) = sql_live now db"
  by (simp add: sql_live_cleaned sql_live_def fun_eq_iff)

lemma find_doc_clean:
  assumes "tables_ok db"
  shows "find_doc d (sql_clean now db) =
    (case find_doc d db of None \<Rightarrow> None
     | Some r \<Rightarrow> if sql_due now db \<and> dr_lastAccess r < wrap_int (unix_sec now - sql_expiration db)
                then None else Some r)"
  by (auto simp: sql_clean_def sql_due_def Let_def find_doc_delete [OF assms] split: option.splits)

lemma sql_live_delete:
  assumes "tables_ok db"
  shows "sql_live now (delete_docs (\<lambda>r. dr_docid r = d) db) = (sql_live now db)(d := None)"
proof
  fix k
  have "dr_docid r = k" if "find_doc k db = Some r" for r
    using that find_key_Some [of dr_docid k] by (auto simp: find_doc_def)
  then show "sql_live now (delete_docs (\<lambda>r. dr_docid r = d) db) k = ((sql_live now db)(d := None)) k"
    using assms
    by (auto simp: sql_live_def find_doc_clean tables_delete_docs find_doc_delete split: option.splits)
qed

text \<open>
  With a driver that scans every blob as it was written, in particular an empty one not as
  \<open>nil\<close>, and an engine that stores any text in any column of that type, the operations on
  documents satisfy the laws of the interface.
\<close>

locale blob_driver =
  fixes drv :: sql_driver
  assumes scan_written: "scan_blob drv b = Some b"
    and any_text: "takes_text drv t" "text_fits drv col t"
begin

lemma fits_any: "fits drv col t"
  by (simp add: fits_def any_text)

lemma row_scan: "Option.bind row (\<lambda>r. scan_blob drv (dr_data r)) = map_option dr_data row"
  by (cases row) (simp_all add: scan_written)

lemma sql_get_returns: "snd (sql_get drv now db d mode init) \<noteq> Inl (Panicked text0)"
  by (auto simp: sql_get_def sql_GetDocument_def Let_def row_scan any_text insert_doc_def fits_any split: option.splits)

lemma sql_get_found:
  assumes "sql_live now db d = Some doc" and "mode \<noteq> AlwaysCreate"
  shows "\<exists>db'. sql_get drv now db d mode init = (db', Inr (doc, False)) \<and> sql_live now db' = sql_live now db"
proof -
  obtain r where r: "find_doc d (sql_clean now db) = Some r" "dr_data r = doc"
    using assms(1) by (auto simp: sql_live_def)
  let ?db' = "update_doc d (\<lambda>r. r\<lparr>dr_lastAccess := unix_sec now\<rparr>) (sql_clean now db)"
  have "sql_get drv now db d mode init = (?db', Inr (doc, False))"
    using r assms(2) by (simp add: sql_get_def sql_GetDocument_def Let_def row_scan any_text)
  moreover have "sql_live now ?db' = sql_live now db"
    using r by (auto simp: sql_live_cleaned find_doc_update sql_live_def fun_eq_iff option.map_comp comp_def)
  ultimately show ?thesis by blast
qed

lemma sql_get_create:
  assumes "sql_live now db d = None" and "mode \<noteq> NeverCreate"
  shows "\<exists>db'. sql_get drv now db d mode init = (db', Inr (init, True))
    \<and> sql_live now db' = (sql_live now db)(d \<mapsto> init)"
proof -
  let ?db = "sql_clean now db" and ?r = "\<lparr>dr_docid = d, dr_lastAccess = unix_sec now, dr_data = init\<rparr>"
  have r: "find_doc d ?db = None"
    using assms(1) by (simp add: sql_live_def)
  then obtain db' where i: "insert_doc drv ?r ?db = Some db'"
    by (simp add: insert_doc_def fits_any)
  have "sql_get drv now db d mode init = (db', Inr (init, True))"
    using r i assms(2) by (simp add: sql_get_def sql_GetDocument_def Let_def row_scan any_text)
  moreover have "sql_live now db' = (sql_live now db)(d \<mapsto> init)"
    by (auto simp: sql_live_cleaned sql_due_insert [OF i] find_doc_insert [OF i] sql_live_def fun_eq_iff)
  ultimately show ?thesis by blast
qed

lemma sql_append_found:
  assumes "sql_live now db d = Some doc"
  shows "\<exists>db'. sql_AppendDocument drv now db d (u64_len doc) new = (db', u64_len (doc @ new), None)
    \<and> sql_live now db' = (sql_live now db)(d \<mapsto> doc @ new)"
proof -
  obtain r where r: "find_doc d (sql_clean now db) = Some r" "dr_data r = doc"
    using assms by (auto simp: sql_live_def)
  let ?db' = "update_doc d (\<lambda>r. r\<lparr>dr_lastAccess := unix_sec now\<rparr>)
      (update_doc d (\<lambda>r. r\<lparr>dr_data := doc @ new\<rparr>) (sql_clean now db))"
  have "sql_AppendDocument drv now db d (u64_len doc) new = (?db', u64_len (doc @ new), None)"
    using r by (simp add: sql_AppendDocument_def Let_def row_scan any_text)
  moreover have "sql_live now ?db' = (sql_live now db)(d \<mapsto> doc @ new)"
    using r by (auto simp: sql_live_cleaned find_doc_update sql_live_def fun_eq_iff)
  ultimately show ?thesis by blast
qed

end

sublocale blob_driver \<subseteq> docs: document_contents "sql_get drv now" "sql_live now" tables_ok
  "sql_AppendDocument drv now" "sql_DeleteDocument drv" for now
proof (unfold_locales, goal_cases)
  case (1 db d doc mode init)
  then show ?case using sql_get_found by (auto simp: go_defs)
next
  case (4 db d mode init)
  then show ?case using sql_get_create by (auto simp: go_defs)
next
  case (5 db d mode init)
  then show ?case by (simp add: sql_get_def sql_Get_tables)
next
  case (8 db d doc new)
  then show ?case using sql_append_found by simp
next
  case (10 db d)
  then show ?case by (simp add: sql_DeleteDocument_def sql_live_delete any_text)
qed (auto simp: sql_get_def sql_GetDocument_def sql_AppendDocument_def sql_DeleteDocument_def Let_def
  row_scan any_text sql_live_clean sql_live_def tables_clean tables_update_doc tables_delete_docs split: option.splits)

text \<open>
  The driver of SQLite, as its documentation has it: blobs are read as they were written,
  rows in the order of insertion, numbers and texts of any size are stored, and a duplicate is
  reported as in \<open>UNIQUE constraint failed\<close>.
\<close>

definition sqlite_driver :: sql_driver where
  "sqlite_driver = \<lparr>scan_blob = Some, row_order = \<lambda>ks. ks, version_fits = \<lambda>_. True,
     takes_text = \<lambda>_. True, text_fits = \<lambda>_ _. True, refusal = ''string or blob too big'',
     duplicate_text = ''UNIQUE constraint failed: ZwibblerTokens.tokenID''\<rparr>"

interpretation sqlite: blob_driver sqlite_driver
  by unfold_locales (simp_all add: sqlite_driver_def)

section \<open>The interface\<close>

definition sql_ops :: "sql_driver \<Rightarrow> gotime \<Rightarrow> sqlDB documentDB" where
  "sql_ops drv now =
     \<lparr>GetDocument = sql_get drv now, AppendDocument = sql_AppendDocument drv now,
      SetDocumentKey = sql_SetDocumentKey drv, GetDocumentKeys = sql_GetDocumentKeys drv,
      SetExpiration = sql_SetExpiration, DeleteDocument = sql_DeleteDocument drv,
      AddToken = sql_AddToken drv now, GetToken = sql_GetToken drv now, UpdateUser = sql_UpdateUser drv,
      CheckHealth = sql_CheckHealth\<rparr>"

lemma sql_SetKey_docs: "sql_docs (fst (sql_SetDocumentKey drv db d old key)) = sql_docs db
    \<and> sql_expiration (fst (sql_SetDocumentKey drv db d old key)) = sql_expiration db
    \<and> sql_lastClean (fst (sql_SetDocumentKey drv db d old key)) = sql_lastClean db"
  by (auto simp: sql_SetDocumentKey_def insert_key_def update_key_def split: option.splits if_splits)

lemma sql_live_docs:
  assumes "tables_ok db" "tables_ok db'" "sql_docs db' = sql_docs db" "sql_expiration db' = sql_expiration db"
    and "sql_lastClean db' = sql_lastClean db"
  shows "sql_live now db' = sql_live now db"
proof -
  have "find_doc d db' = find_doc d db" and "sql_due now db' = sql_due now db" for d
    using assms(3-5) by (simp_all add: find_doc_def sql_due_def)
  with assms show ?thesis by (auto simp: sql_live_def find_doc_clean fun_eq_iff split: option.splits)
qed

sublocale blob_driver \<subseteq> store: document_store "sql_ops drv now" "sql_live now" tables_ok False for now
proof (rule document_store.intro)
  show "document_appends (GetDocument (sql_ops drv now)) (sql_live now) tables_ok
      (AppendDocument (sql_ops drv now)) False"
    by (simp add: sql_ops_def docs.document_appends_axioms)
  show "document_store_axioms (sql_ops drv now) (sql_live now) tables_ok"
  proof (rule document_store_axioms.intro, goal_cases)
    case (1 db d v k)
    have "sql_live now (fst (sql_SetDocumentKey drv db d v k)) = sql_live now db"
      by (rule sql_live_docs) (use 1 in \<open>simp_all add: sql_SetKey_docs sql_SetKey_tables\<close>)
    then show ?case by (simp add: sql_ops_def)
  next
    case (2 db d v k)
    then show ?case by (simp add: sql_ops_def sql_SetKey_tables)
  next
    case (3 db d v k)
    then show ?case by (simp add: sql_ops_def sql_SetDocumentKey_def split: option.splits)
  qed (simp_all add: sql_ops_def sql_GetDocumentKeys_def sql_GetToken_def sql_get_returns any_text)
qed

section \<open>Keys\<close>

text \<open>The keys as a map from a document and a name to the value and its version.\<close>

definition sql_keymap :: "sqlDB \<Rightarrow> string \<times> string \<Rightarrow> (string \<times> int) option" where
  "sql_keymap db = (\<lambda>(d, n). map_option (\<lambda>r. (kr_value r, kr_version r)) (find_key d n db))"

definition current_version :: "sqlDB \<Rightarrow> string \<Rightarrow> string \<Rightarrow> int" where
  "current_version db d n = (case sql_keymap db (d, n) of None \<Rightarrow> 0 | Some (_, v) \<Rightarrow> v)"

lemma sql_keymap_insert:
  assumes "insert_key drv r db = Some db'"
  shows "sql_keymap db' = (sql_keymap db)((kr_docID r, kr_name r) \<mapsto> (kr_value r, kr_version r))"
  using assms
  by (auto simp: insert_key_def sql_keymap_def find_key_def find_append fun_eq_iff
      split: if_splits option.splits)

lemma sql_keymap_update:
  assumes "update_key drv d n val v db = Some db'" and "find_key d n db = Some r"
  shows "sql_keymap db' = (sql_keymap db)((d, n) \<mapsto> (val, v))"
proof -
  have "find_key d' n' db' = (if (d', n') = (d, n)
      then map_option (\<lambda>r. r\<lparr>kr_value := val, kr_version := v\<rparr>) (find_key d' n' db) else find_key d' n' db)" for d' n'
    using find_map_key [of "\<lambda>r. (kr_docID r, kr_name r)" "\<lambda>r. r\<lparr>kr_value := val, kr_version := v\<rparr>"
        "(d', n')" "(d, n)" "sql_keys db"] assms(1)
    by (auto simp: update_key_def find_key_def split: if_splits)
  with assms(2) show ?thesis by (auto simp: sql_keymap_def fun_eq_iff)
qed

lemma find_key_doc:
  assumes "tables_ok db" and "find_key d n db = Some r"
  shows "find_doc d db \<noteq> None"
proof -
  have "r \<in> set (sql_keys db)" "kr_docID r = d"
    using assms(2) find_key_Some [of "\<lambda>r. (kr_docID r, kr_name r)" "(d, n)"] by (auto simp: find_key_def)
  with assms(1) show ?thesis by (auto simp: tables_ok_def)
qed

text \<open>Whether the texts of a key can be stored: of a key that is there, the value only.\<close>

definition key_text_fits :: "sql_driver \<Rightarrow> sqlDB \<Rightarrow> string \<Rightarrow> Key \<Rightarrow> bool" where
  "key_text_fits drv db d key \<longleftrightarrow> fits drv Key_value (key_Value key)
     \<and> (find_key d (key_Name key) db = None \<longrightarrow> text_fits drv Key_docID d \<and> text_fits drv Key_name (key_Name key))"

lemma sql_SetKey_outcome:
  assumes "tables_ok db" and cur: "cur = current_version db d (key_Name key)"
  shows "if \<not> takes_text drv d \<or> \<not> takes_text drv (key_Name key)
    then sql_SetDocumentKey drv db d old key = (db, Panic)
    else if old \<noteq> cur then sql_SetDocumentKey drv db d old key = (db, Ok (Some ErrConflict))
    else if find_doc d db = None \<or> \<not> version_fits drv (key_Version key) \<or> \<not> key_text_fits drv db d key
    then sql_SetDocumentKey drv db d old key = (db, Panic)
    else \<exists>db'. sql_SetDocumentKey drv db d old key = (db', Ok None)
      \<and> sql_keymap db' = (sql_keymap db)((d, key_Name key) \<mapsto> (key_Value key, key_Version key))"
proof (cases "takes_text drv d \<and> takes_text drv (key_Name key)")
  case taken: True
  show ?thesis
  proof (cases "find_key d (key_Name key) db")
    case None
    let ?r = "\<lparr>kr_docID = d, kr_name = key_Name key, kr_value = key_Value key, kr_version = key_Version key\<rparr>"
    have "cur = 0" by (simp add: cur current_version_def sql_keymap_def None)
    moreover have "insert_key drv ?r db = None \<longleftrightarrow>
        find_doc d db = None \<or> \<not> version_fits drv (key_Version key) \<or> \<not> key_text_fits drv db d key"
      using taken by (auto simp: insert_key_def key_text_fits_def fits_def None)
    moreover have "sql_keymap db' = (sql_keymap db)((d, key_Name key) \<mapsto> (key_Value key, key_Version key))"
      if "insert_key drv ?r db = Some db'" for db'
      using sql_keymap_insert [OF that] by simp
    ultimately show ?thesis
      using taken by (cases "insert_key drv ?r db") (auto simp: sql_SetDocumentKey_def None)
  next
    case (Some r)
    let ?up = "update_key drv d (key_Name key) (key_Value key) (key_Version key) db"
    have "cur = kr_version r" by (simp add: cur current_version_def sql_keymap_def Some)
    moreover have "?up = None \<longleftrightarrow> \<not> version_fits drv (key_Version key) \<or> \<not> key_text_fits drv db d key"
      by (simp add: update_key_def key_text_fits_def Some)
    moreover have "find_doc d db \<noteq> None" by (rule find_key_doc [OF assms(1) Some])
    moreover have "sql_keymap db' = (sql_keymap db)((d, key_Name key) \<mapsto> (key_Value key, key_Version key))"
      if "?up = Some db'" for db'
      by (rule sql_keymap_update [OF that Some])
    ultimately show ?thesis
      using taken by (cases ?up) (auto simp: sql_SetDocumentKey_def Some)
  qed
qed (auto simp: sql_SetDocumentKey_def)

text \<open>
  C25: \<open>SetDocumentKey\<close> has optimistic concurrency: with any other version than the key's
  current one, 0 if there is none, it returns \<open>ErrConflict\<close> and changes nothing. With that
  version it replaces the value and the version of that key and leaves the other keys alone.
  But the call panics if the document is gone (it was deleted or it expired while the client
  is connected) or if the version or a text does not fit its column, and with any version if
  the engine does not take the document ID or the name as a text.
\<close>

theorem sql_SetDocumentKey_outcome:
  assumes "tables_ok db" and cur: "cur = current_version db d (key_Name key)"
  shows "if \<not> takes_text drv d \<or> \<not> takes_text drv (key_Name key)
    then sql_SetDocumentKey drv db d old key = (db, Panic)
    else if old \<noteq> cur then sql_SetDocumentKey drv db d old key = (db, Ok (Some ErrConflict))
    else if find_doc d db = None \<or> \<not> version_fits drv (key_Version key) \<or> \<not> key_text_fits drv db d key
    then sql_SetDocumentKey drv db d old key = (db, Panic)
    else \<exists>db'. sql_SetDocumentKey drv db d old key = (db', Ok None)
      \<and> sql_keymap db' = (sql_keymap db)((d, key_Name key) \<mapsto> (key_Value key, key_Version key))"
  by (rule sql_SetKey_outcome [OF assms])

text \<open>A database with one document, \<open>d\<close>.\<close>

definition demo_sql :: sqlDB where
  "demo_sql = fst (sql_GetDocument sqlite_driver (Time 0) (NewSQLXConnection (Time 0) [] [] []) ''d'' PossiblyCreate [1, 2])"

lemma demo_sql_eq: "demo_sql = \<lparr>sql_docs = [\<lparr>dr_docid = ''d'', dr_lastAccess = 0, dr_data = [1, 2]\<rparr>], sql_keys = [],
    sql_tokens = [], sql_lastClean = zero_time, sql_expiration = 0\<rparr>"
  by (simp add: demo_sql_def sql_GetDocument_def NewSQLXConnection_def sql_clean_def find_doc_def go_defs
      insert_doc_def unix_sec_def fits_def sqlite_driver_def)

lemma demo_sql_ok: "tables_ok demo_sql"
  by (simp add: demo_sql_eq tables_ok_def)

theorem sql_SetDocumentKey_outcome_witness:
  "sql_SetDocumentKey sqlite_driver demo_sql ''gone'' 0 \<lparr>key_Version = 1, key_Name = ''k'', key_Value = ''v''\<rparr>
     = (demo_sql, Panic)
   \<and> (\<exists>db'. sql_SetDocumentKey sqlite_driver demo_sql ''d'' 0 \<lparr>key_Version = 1, key_Name = ''k'', key_Value = ''v''\<rparr>
     = (db', Ok None))"
  using sql_SetDocumentKey_outcome [OF demo_sql_ok refl, of sqlite_driver "''gone''" "\<lparr>key_Version = 1, key_Name = ''k'', key_Value = ''v''\<rparr>" 0]
    sql_SetDocumentKey_outcome [OF demo_sql_ok refl, of sqlite_driver "''d''" "\<lparr>key_Version = 1, key_Name = ''k'', key_Value = ''v''\<rparr>" 0]
  by (auto simp: current_version_def sql_keymap_def find_key_def find_doc_def demo_sql_eq sqlite_driver_def
      key_text_fits_def fits_def)

section \<open>Tokens\<close>

text \<open>Adding a token changes nothing when it fails.\<close>

lemma sql_AddToken_cases:
  obtains (exists) "sql_AddToken drv now db t d u p e contents = (db, Some ErrConflict)"
      "contents \<noteq> []" "find_doc d db \<noteq> None"
    | (panics) "sql_AddToken drv now db t d u p e contents = (db, Some (Panicked (refusal drv)))"
      "contents \<noteq> []" "\<not> fits drv Doc_docid d"
    | (refused) err where "sql_AddToken drv now db t d u p e contents
          = (db, Some (if str_contains err ''UNIQUE'' then ErrExists else OtherError err))"
      "err = refusal drv \<and> \<not> token_fits drv \<lparr>tr_tokenID = t, tr_docID = d, tr_userID = u, tr_permissions = p, tr_expiration = e\<rparr>
       \<or> err = duplicate_text drv \<and> find_token t db \<noteq> None"
    | (added) db' where "sql_AddToken drv now db t d u p e contents = (db', None)" "find_token t db = None"
      "find_token t db' = Some \<lparr>tr_tokenID = t, tr_docID = d, tr_userID = u, tr_permissions = p, tr_expiration = e\<rparr>"
      "find_doc d db' = (if contents = [] then find_doc d db
        else Some \<lparr>dr_docid = d, dr_lastAccess = unix_sec now, dr_data = contents\<rparr>)"
proof -
  let ?row = "\<lparr>dr_docid = d, dr_lastAccess = unix_sec now, dr_data = contents\<rparr>"
  let ?t = "\<lparr>tr_tokenID = t, tr_docID = d, tr_userID = u, tr_permissions = p, tr_expiration = e\<rparr>"
  consider (there) "contents \<noteq> []" "fits drv Doc_docid d" "find_doc d db \<noteq> None"
    | (unfit) "contents \<noteq> []" "\<not> fits drv Doc_docid d"
    | (new) db1 where "(if contents = [] then Some db else insert_doc drv ?row db) = Some db1"
        "contents \<noteq> [] \<longrightarrow> fits drv Doc_docid d \<and> find_doc d db = None"
    by (cases "contents = []"; cases "fits drv Doc_docid d"; cases "find_doc d db") (auto simp: insert_doc_def)
  then show ?thesis
  proof cases
    case there
    then show ?thesis by (intro exists) (auto simp: sql_AddToken_def fits_def)
  next
    case unfit
    then show ?thesis
      by (cases "takes_text drv d \<and> find_doc d db \<noteq> None")
        (auto intro: exists panics simp: sql_AddToken_def insert_doc_def fits_def)
  next
    case (new db1)
    then have eq: "sql_AddToken drv now db t d u p e contents = (case insert_token drv ?t db1 of
        Inr db2 \<Rightarrow> (db2, None)
      | Inl err \<Rightarrow> (db, Some (if str_contains err ''UNIQUE'' then ErrExists else OtherError err)))"
      by (auto simp: sql_AddToken_def fits_def)
    have tok: "find_token t db1 = find_token t db"
      and doc: "find_doc d db1 = (if contents = [] then find_doc d db else Some ?row)"
      using new find_doc_insert [of drv ?row db db1 d]
      by (auto simp: find_token_def insert_doc_def split: if_splits)
    show ?thesis
    proof (cases "insert_token drv ?t db1")
      case (Inl err)
      then show ?thesis
        using tok by (intro refused [of err]) (auto simp: eq insert_token_def split: if_splits)
    next
      case (Inr db2)
      then show ?thesis
        using tok doc by (intro added [of db2]) (auto simp: eq insert_token_def find_token_def find_append split: if_splits)
    qed
  qed
qed

text \<open>A token is good until the second of its expiration, not included.\<close>

lemma sql_GetToken_found:
  assumes "tables_ok db" and "takes_text drv t" and "find_token t db = Some r"
  shows "snd (sql_GetToken drv now db t) = (if unix_sec now < tr_expiration r
    then Inr (tr_docID r, tr_userID r, tr_permissions r) else Inl ErrMissing)"
  using assms find_filter_key [of tr_tokenID "sql_tokens db" t "\<lambda>r. unix_sec now < tr_expiration r"]
  by (auto simp: sql_GetToken_def find_conj tables_ok_def find_token_def)

text \<open>
  \<open>AddToken\<close> reports a token that exists already as \<open>ErrExists\<close>, as the interface promises,
  only if the driver's text happens to have the word \<open>UNIQUE\<close>: with any other driver the
  caller gets an unknown error. Either way the database is as it was.
\<close>

theorem sql_AddToken_duplicate:
  assumes "find_token t db \<noteq> None" and "find_doc d db = None" and "fits drv Doc_docid d"
    and "token_fits drv \<lparr>tr_tokenID = t, tr_docID = d, tr_userID = u, tr_permissions = p, tr_expiration = e\<rparr>"
  shows "sql_AddToken drv now db t d u p e contents = (db, Some (
    if str_contains (duplicate_text drv) ''UNIQUE'' then ErrExists else OtherError (duplicate_text drv)))"
  by (cases rule: sql_AddToken_cases [of drv now db t d u p e contents]) (use assms in auto)

end
