(* ===== verification/RedisDB.thy ===== *)
theory RedisDB
  imports DocumentDB "HOL-Library.AList"
begin

text \<open>
  \<open>RedisDocumentDB\<close> of \<open>redisdb.go\<close>: documents are Redis strings, the keys of a document a
  hash of JSON texts, tokens hashes and the tokens of a user a set. The commands of Redis the
  code calls are modelled as their documentation has them, on a store of values with an
  expiration time. A transaction watches keys, reads, and commits its writes unless one of
  the watched keys was written meanwhile; \<open>executeWatch\<close> repeats it. What the other clients
  of the Redis server write during each attempt is an argument. Network errors are left out.

  The lemmas: the kind of value under each prefix, atomicity of the transactions that watch
  what they read, the maintenance of the sets of tokens, the places where the implementation
  departs from the interface, and the laws of the interface (by interpretation) for calls that
  nobody disturbs, with an append that creates an absent document.
\<close>

section \<open>The store\<close>

datatype redis_value = RString bytes | RHash "(string \<times> string) list" | RSet "string list"

record redis_entry =
  re_value :: redis_value
  re_expires :: "gotime option"

type_synonym redis_store = "string \<rightharpoonup> redis_entry"

text \<open>The store is shared with other servers and is passed beside the fields of the Go struct.\<close>

record redisDB =
  rd_expiration :: int
  rd_isCluster :: bool

text \<open>
  The libraries: JSON of a key and back, each with the text of its error, how go-redis rounds a duration to the seconds of
  \<open>EXPIRE\<close>, and the order in which Go visits a map of hash fields.
\<close>

record redis_lib =
  json_marshal :: "Key \<Rightarrow> string + string"
  json_unmarshal :: "string \<Rightarrow> string + Key"
  expire_seconds :: "int \<Rightarrow> int"
  field_order :: "(string \<times> string) list \<Rightarrow> (string \<times> string) list"

definition WRONGTYPE :: goerror where
  "WRONGTYPE = OtherError ''WRONGTYPE Operation against a key holding the wrong kind of value''"

section \<open>Commands\<close>

definition alive :: "gotime \<Rightarrow> redis_store \<Rightarrow> string \<Rightarrow> redis_entry option" where
  "alive now s k =
     (case s k of
        None \<Rightarrow> None
      | Some e \<Rightarrow> (case re_expires e of
                    None \<Rightarrow> Some e
                  | Some t \<Rightarrow> if t \<le> now then None else Some e))"

text \<open>\<open>redis.Nil\<close>, the error for an absent key, is \<open>None\<close>.\<close>

definition cmd_get :: "gotime \<Rightarrow> string \<Rightarrow> redis_store \<Rightarrow> goerror + bytes option" where
  "cmd_get now k s =
     (case alive now s k of
        None \<Rightarrow> Inr None
      | Some e \<Rightarrow> (case re_value e of RString b \<Rightarrow> Inr (Some b) | _ \<Rightarrow> Inl WRONGTYPE))"

definition cmd_strlen :: "gotime \<Rightarrow> string \<Rightarrow> redis_store \<Rightarrow> goerror + u64" where
  "cmd_strlen now k s =
     (case cmd_get now k s of Inl e \<Rightarrow> Inl e | Inr None \<Rightarrow> Inr 0 | Inr (Some b) \<Rightarrow> Inr (u64_len b))"

definition cmd_hgetall :: "gotime \<Rightarrow> string \<Rightarrow> redis_store \<Rightarrow> goerror + (string \<times> string) list" where
  "cmd_hgetall now k s =
     (case alive now s k of
        None \<Rightarrow> Inr []
      | Some e \<Rightarrow> (case re_value e of RHash h \<Rightarrow> Inr h | _ \<Rightarrow> Inl WRONGTYPE))"

definition cmd_smembers :: "gotime \<Rightarrow> string \<Rightarrow> redis_store \<Rightarrow> goerror + string list" where
  "cmd_smembers now k s =
     (case alive now s k of
        None \<Rightarrow> Inr []
      | Some e \<Rightarrow> (case re_value e of RSet t \<Rightarrow> Inr t | _ \<Rightarrow> Inl WRONGTYPE))"

definition cmd_exists :: "gotime \<Rightarrow> string \<Rightarrow> redis_store \<Rightarrow> bool" where
  "cmd_exists now k s \<longleftrightarrow> alive now s k \<noteq> None"

text \<open>Writes. A value of another kind is left alone; the code's prefixes keep the kinds apart.\<close>

definition cmd_set :: "gotime \<Rightarrow> string \<Rightarrow> bytes \<Rightarrow> int \<Rightarrow> redis_store \<Rightarrow> redis_store" where
  "cmd_set now k b ttl s = s(k \<mapsto> \<lparr>re_value = RString b,
     re_expires = (if ttl > 0 then Some (time_add now ttl) else None)\<rparr>)"

definition cmd_del :: "string \<Rightarrow> redis_store \<Rightarrow> redis_store" where
  "cmd_del k s = s(k := None)"

definition cmd_append :: "gotime \<Rightarrow> string \<Rightarrow> bytes \<Rightarrow> redis_store \<Rightarrow> redis_store" where
  "cmd_append now k b s =
     (case alive now s k of
        None \<Rightarrow> s(k \<mapsto> \<lparr>re_value = RString b, re_expires = None\<rparr>)
      | Some e \<Rightarrow> (case re_value e of
                    RString a \<Rightarrow> s(k \<mapsto> e\<lparr>re_value := RString (a @ b)\<rparr>)
                  | _ \<Rightarrow> s))"

definition cmd_expire :: "redis_lib \<Rightarrow> gotime \<Rightarrow> string \<Rightarrow> int \<Rightarrow> redis_store \<Rightarrow> redis_store" where
  "cmd_expire lib now k ttl s =
     (case alive now s k of
        None \<Rightarrow> s
      | Some e \<Rightarrow>
          if expire_seconds lib ttl \<le> 0 then s(k := None)
          else s(k \<mapsto> e\<lparr>re_expires := Some (time_add now (expire_seconds lib ttl * second))\<rparr>))"

definition cmd_hset :: "gotime \<Rightarrow> string \<Rightarrow> (string \<times> string) list \<Rightarrow> redis_store \<Rightarrow> redis_store" where
  "cmd_hset now k fvs s =
     (case alive now s k of
        None \<Rightarrow> s(k \<mapsto> \<lparr>re_value = RHash (fold (\<lambda>(f, v). AList.update f v) fvs []), re_expires = None\<rparr>)
      | Some e \<Rightarrow> (case re_value e of
                    RHash h \<Rightarrow> s(k \<mapsto> e\<lparr>re_value := RHash (fold (\<lambda>(f, v). AList.update f v) fvs h)\<rparr>)
                  | _ \<Rightarrow> s))"

definition cmd_sadd :: "gotime \<Rightarrow> string \<Rightarrow> string \<Rightarrow> redis_store \<Rightarrow> redis_store" where
  "cmd_sadd now k x s =
     (case alive now s k of
        None \<Rightarrow> s(k \<mapsto> \<lparr>re_value = RSet [x], re_expires = None\<rparr>)
      | Some e \<Rightarrow> (case re_value e of
                    RSet xs \<Rightarrow> s(k \<mapsto> e\<lparr>re_value := RSet (List.insert x xs)\<rparr>)
                  | _ \<Rightarrow> s))"

text \<open>A set that loses its last member is gone.\<close>

definition cmd_srem :: "gotime \<Rightarrow> string \<Rightarrow> string \<Rightarrow> redis_store \<Rightarrow> redis_store" where
  "cmd_srem now k x s =
     (case alive now s k of
        None \<Rightarrow> s
      | Some e \<Rightarrow> (case re_value e of
                    RSet xs \<Rightarrow> if removeAll x xs = [] then s(k := None)
                              else s(k \<mapsto> e\<lparr>re_value := RSet (removeAll x xs)\<rparr>)
                  | _ \<Rightarrow> s))"

section \<open>Transactions\<close>

text \<open>
  The function given to \<open>Watch\<close> returns at once, or commits: its pipeline's effect on the
  store, and what it returns if the pipeline is executed.
\<close>

datatype 'r attempt = Return 'r | Commit "redis_store \<Rightarrow> redis_store" 'r

type_synonym redis_write = "string \<times> redis_entry option"

definition apply_writes :: "redis_write list \<Rightarrow> redis_store \<Rightarrow> redis_store" where
  "apply_writes ws s = fold (\<lambda>(k, e) s. s(k := e)) ws s"

text \<open>
  Each attempt has the time it is made at and the writes of others between its reads and its
  commit. \<open>None\<close>: the attempts listed have all failed.
\<close>

fun executeWatch ::
    "(gotime \<Rightarrow> redis_store \<Rightarrow> 'r attempt) \<Rightarrow> string list \<Rightarrow> (gotime \<times> redis_write list) list \<Rightarrow>
     redis_store \<Rightarrow> (redis_store \<times> 'r) option" where
  "executeWatch watchfn ks [] s = None"
| "executeWatch watchfn ks ((now, others) # attempts) s =
     (let s' = apply_writes others s in
      case watchfn now s of
        Return r \<Rightarrow> Some (s', r)
      | Commit pipe r \<Rightarrow>
          if (\<exists>w\<in>set others. fst w \<in> set ks) then executeWatch watchfn ks attempts s'
          else Some (pipe s', r))"

section \<open>Operations\<close>

definition getDocID :: "string \<Rightarrow> string" where "getDocID docID = ''zwibbler:'' @ docID"

definition getKeys :: "string \<Rightarrow> string" where "getKeys docID = ''zwibbler-keys:'' @ docID"

definition getToken :: "string \<Rightarrow> string" where "getToken tokenID = ''zwibbler-token:{token}:'' @ tokenID"

definition userKey :: "string \<Rightarrow> string" where "userKey userID = ''zwibbler-user:'' @ userID"

definition newGeneralRedisDB :: "bool \<Rightarrow> redisDB" where
  "newGeneralRedisDB cluster = \<lparr>rd_expiration = 0, rd_isCluster = cluster\<rparr>"

definition redis_SetExpiration :: "redisDB \<Rightarrow> int \<Rightarrow> redisDB" where
  "redis_SetExpiration db seconds = db\<lparr>rd_expiration := seconds\<rparr>"

text \<open>A \<open>time.Duration\<close> in nanoseconds; the multiplication wraps around.\<close>

definition getRedisExpiration :: "redisDB \<Rightarrow> int" where
  "getRedisExpiration db =
     (if rd_expiration db = 0 \<or> rd_expiration db = NoExpiration then 0
      else wrap_int (rd_expiration db * second))"

text \<open>The \<open>switch\<close> has no case for other modes: they go on to create the document.\<close>

definition redis_get_tx ::
    "redisDB \<Rightarrow> string \<Rightarrow> int \<Rightarrow> bytes \<Rightarrow> gotime \<Rightarrow> redis_store \<Rightarrow> (goerror + bytes \<times> bool) attempt" where
  "redis_get_tx db docID mode initialData now s =
     (let create = Commit (cmd_set now docID initialData (getRedisExpiration db)) (Inr (initialData, True)) in
      case cmd_get now docID s of
        Inl err \<Rightarrow> Return (Inl err)
      | Inr (Some doc) \<Rightarrow>
          if mode = PossiblyCreate \<or> mode = NeverCreate then Return (Inr (doc, False))
          else if mode = AlwaysCreate then Return (Inl ErrExists)
          else create
      | Inr None \<Rightarrow>
          if mode = NeverCreate then Return (Inl ErrMissing) else create)"

definition redis_GetDocument ::
    "redisDB \<Rightarrow> string \<Rightarrow> int \<Rightarrow> bytes \<Rightarrow> (gotime \<times> redis_write list) list \<Rightarrow> redis_store \<Rightarrow>
     (redis_store \<times> (goerror + bytes \<times> bool)) option" where
  "redis_GetDocument db docID mode initialData =
     executeWatch (redis_get_tx db (getDocID docID) mode initialData) [getDocID docID]"

definition redis_append_tx ::
    "redis_lib \<Rightarrow> redisDB \<Rightarrow> string \<Rightarrow> u64 \<Rightarrow> bytes \<Rightarrow> gotime \<Rightarrow> redis_store \<Rightarrow> (u64 \<times> goerror option) attempt" where
  "redis_append_tx lib db docIDin oldLength newData now s =
     (let docID = getDocID docIDin; expiration = getRedisExpiration db in
      case cmd_strlen now docID s of
        Inl err \<Rightarrow> Return (0, Some err)
      | Inr actualLength \<Rightarrow>
          if actualLength \<noteq> oldLength then Return (actualLength, Some ErrConflict)
          else Commit
            (\<lambda>s. let s1 = cmd_append now docID newData s in
                 if expiration > 0
                 then cmd_expire lib now (getKeys docIDin) expiration (cmd_expire lib now docID expiration s1)
                 else s1)
            (oldLength + u64_len newData, None))"

definition redis_AppendDocument ::
    "redis_lib \<Rightarrow> redisDB \<Rightarrow> string \<Rightarrow> u64 \<Rightarrow> bytes \<Rightarrow> (gotime \<times> redis_write list) list \<Rightarrow> redis_store \<Rightarrow>
     (redis_store \<times> u64 \<times> goerror option) option" where
  "redis_AppendDocument lib db docIDin oldLength newData =
     executeWatch (redis_append_tx lib db docIDin oldLength newData) [getDocID docIDin]"

fun unmarshal_all :: "redis_lib \<Rightarrow> (string \<times> string) list \<Rightarrow> goerror + Key list" where
  "unmarshal_all lib [] = Inr []"
| "unmarshal_all lib ((f, v) # rest) =
     (case json_unmarshal lib v of
        Inl err \<Rightarrow> Inl (OtherError err)
      | Inr key \<Rightarrow> (case unmarshal_all lib rest of Inl err \<Rightarrow> Inl err | Inr ks \<Rightarrow> Inr (key # ks)))"

definition redis_GetDocumentKeys ::
    "redis_lib \<Rightarrow> gotime \<Rightarrow> redis_store \<Rightarrow> string \<Rightarrow> goerror + Key list" where
  "redis_GetDocumentKeys lib now s docID =
     (case cmd_hgetall now (getKeys docID) s of
        Inl err \<Rightarrow> Inl err
      | Inr m \<Rightarrow> unmarshal_all lib (field_order lib m))"

text \<open>An error of \<open>HGet\<close> other than \<open>redis.Nil\<close> is taken for a key with an empty text.\<close>

definition redis_key_tx ::
    "redis_lib \<Rightarrow> redisDB \<Rightarrow> string \<Rightarrow> int \<Rightarrow> Key \<Rightarrow> string \<Rightarrow> gotime \<Rightarrow> redis_store \<Rightarrow> goerror option attempt" where
  "redis_key_tx lib db keysID oldVersion key newJSON now s =
     (let currentJSON = (case cmd_hgetall now keysID s of
            Inl _ \<Rightarrow> Some [] | Inr h \<Rightarrow> map_of h (key_Name key));
          write = Commit
            (\<lambda>s. let s1 = cmd_hset now keysID [(key_Name key, newJSON)] s in
                 if getRedisExpiration db > 0 then cmd_expire lib now keysID (getRedisExpiration db) s1 else s1)
            None
      in case currentJSON of
           Some json \<Rightarrow>
             (case json_unmarshal lib json of
                Inl err \<Rightarrow> Return (Some (OtherError err))
              | Inr currentKey \<Rightarrow>
                  if key_Version currentKey \<noteq> oldVersion then Return (Some ErrConflict) else write)
         | None \<Rightarrow> if oldVersion \<noteq> 0 then Return (Some ErrConflict) else write)"

definition redis_SetDocumentKey ::
    "redis_lib \<Rightarrow> redisDB \<Rightarrow> string \<Rightarrow> int \<Rightarrow> Key \<Rightarrow> (gotime \<times> redis_write list) list \<Rightarrow> redis_store \<Rightarrow>
     (redis_store \<times> goerror option) option" where
  "redis_SetDocumentKey lib db docIDin oldVersion key attempts s =
     (case json_marshal lib key of
        Inl err \<Rightarrow> Some (s, Some (OtherError err))
      | Inr newJSON \<Rightarrow>
          executeWatch (redis_key_tx lib db (getKeys docIDin) oldVersion key newJSON) [getKeys docIDin] attempts s)"

definition redis_DeleteDocument :: "redis_store \<Rightarrow> string \<Rightarrow> redis_store \<times> goerror option" where
  "redis_DeleteDocument s docID = (cmd_del (getKeys docID) (cmd_del (getDocID docID) s), None)"

text \<open>\<open>time.Until(time.Unix(expirationSeconds, 0))\<close> is the time the token has left.\<close>

definition redis_token_tx ::
    "redis_lib \<Rightarrow> redisDB \<Rightarrow> string \<Rightarrow> string \<Rightarrow> string \<Rightarrow> string \<Rightarrow> int \<Rightarrow> bytes \<Rightarrow> gotime \<Rightarrow> redis_store \<Rightarrow>
     goerror option attempt" where
  "redis_token_tx lib db tokenID docID userID permissions expirationSeconds contents now s =
     (let m = cmd_hgetall now tokenID s;
          expiration = time_sub (Time (expirationSeconds * second)) now in
      if (case m of Inr h \<Rightarrow> h \<noteq> [] | Inl _ \<Rightarrow> False) then Return (Some ErrExists)
      else if contents \<noteq> [] \<and> cmd_exists now (getDocID docID) s then Return (Some ErrConflict)
      else Commit
        (\<lambda>s. let s1 = (if contents \<noteq> [] then cmd_set now (getDocID docID) contents (getRedisExpiration db) s else s);
                 s2 = cmd_hset now tokenID [(''userID'', userID), (''docID'', docID), (''permissions'', permissions)] s1;
                 s3 = cmd_expire lib now tokenID expiration s2
             in cmd_sadd now (userKey userID) tokenID s3)
        None)"

definition redis_AddToken ::
    "redis_lib \<Rightarrow> redisDB \<Rightarrow> string \<Rightarrow> string \<Rightarrow> string \<Rightarrow> string \<Rightarrow> int \<Rightarrow> bytes \<Rightarrow>
     (gotime \<times> redis_write list) list \<Rightarrow> redis_store \<Rightarrow> (redis_store \<times> goerror option) option" where
  "redis_AddToken lib db tokenID docID userID permissions expirationSeconds contents attempts s =
     (if rd_isCluster db then Some (s, Some (Panicked ''addToken not supported with clusters. Use JWT instead.''))
      else executeWatch (redis_token_tx lib db (getToken tokenID) docID userID permissions expirationSeconds contents)
          [getToken tokenID] attempts s)"

definition hash_field :: "string \<Rightarrow> (string \<times> string) list \<Rightarrow> string" where
  "hash_field f h = (case map_of h f of None \<Rightarrow> [] | Some v \<Rightarrow> v)"

definition redis_GetToken ::
    "gotime \<Rightarrow> redis_store \<Rightarrow> string \<Rightarrow> goerror + string \<times> string \<times> string" where
  "redis_GetToken now s token0 =
     (case cmd_hgetall now (getToken token0) s of
        Inl err \<Rightarrow> Inl err
      | Inr m \<Rightarrow>
          if m \<noteq> [] then Inr (hash_field ''docID'' m, hash_field ''userID'' m, hash_field ''permissions'' m)
          else Inl ErrMissing)"

text \<open>\<open>tx.HSet\<close> outside a pipeline is executed at once, so that nothing here is retried.\<close>

definition redis_UpdateUser ::
    "redisDB \<Rightarrow> gotime \<Rightarrow> redis_store \<Rightarrow> string \<Rightarrow> string \<Rightarrow> redis_store \<times> goerror option" where
  "redis_UpdateUser db now s userID permissions =
     (if rd_isCluster db then (s, Some (Panicked ''updateUser not supported with clusters. Use JWT instead.''))
      else case cmd_smembers now (userKey userID) s of
             Inl err \<Rightarrow> (s, Some (Panicked (error_text err)))
           | Inr tokens \<Rightarrow>
               (fold (\<lambda>t s. if cmd_exists now t s then cmd_hset now t [(''permissions'', permissions)] s else s)
                  tokens s, None))"

section \<open>Maintenance\<close>

text \<open>
  \<open>runMaintenance\<close> has three phases, each one transaction: the sets of tokens of the user
  keys that the scan found, which of the tokens exist, and the removals.
\<close>

fun read_sets :: "gotime \<Rightarrow> string list \<Rightarrow> redis_store \<Rightarrow> (string \<times> string list) list outcome" where
  "read_sets now [] s = Ok []"
| "read_sets now (k # ks) s =
     (case cmd_smembers now k s of
        Inl _ \<Rightarrow> Panic
      | Inr ts \<Rightarrow> bindo (read_sets now ks s) (\<lambda>m. Ok (AList.update k ts m)))"

definition existing_tokens :: "gotime \<Rightarrow> (string \<times> string list) list \<Rightarrow> redis_store \<Rightarrow> string list" where
  "existing_tokens now userTokens s =
     filter (\<lambda>t. cmd_exists now t s) (remdups (concat (map snd userTokens)))"

definition clean_set :: "gotime \<Rightarrow> string list \<Rightarrow> string \<times> string list \<Rightarrow> redis_store \<Rightarrow> redis_store" where
  "clean_set now have_tokens = (\<lambda>(userid, tokenList) s.
     let gone = filter (\<lambda>t. t \<notin> set have_tokens) tokenList;
         s1 = fold (cmd_srem now userid) gone s
     in if length gone = length tokenList then cmd_del userid s1 else s1)"

definition remove_tokens ::
    "gotime \<Rightarrow> (string \<times> string list) list \<Rightarrow> string list \<Rightarrow> redis_store \<Rightarrow> redis_store" where
  "remove_tokens now userTokens have_tokens s = fold (clean_set now have_tokens) userTokens s"

text \<open>The phases, with the writes of others between them.\<close>

definition runMaintenance ::
    "gotime \<Rightarrow> string list \<Rightarrow> redis_write list \<Rightarrow> redis_write list \<Rightarrow> redis_store \<Rightarrow> redis_store outcome" where
  "runMaintenance now userkeys others1 others2 s =
     bindo (read_sets now userkeys s) (\<lambda>userTokens.
       let s1 = apply_writes others1 s;
           have_tokens = existing_tokens now userTokens s1;
           s2 = apply_writes others2 s1
       in Ok (remove_tokens now userTokens have_tokens s2))"

section \<open>The kinds of values\<close>

text \<open>Each prefix has values of one kind, so that no command fails for the kind.\<close>

definition kind_ok :: "string \<Rightarrow> redis_value \<Rightarrow> bool" where
  "kind_ok k v \<longleftrightarrow>
     (has_prefix k ''zwibbler:'' \<longrightarrow> (\<exists>b. v = RString b))
     \<and> (has_prefix k ''zwibbler-keys:'' \<or> has_prefix k ''zwibbler-token:'' \<longrightarrow> (\<exists>h. v = RHash h))
     \<and> (has_prefix k ''zwibbler-user:'' \<longrightarrow> (\<exists>xs. v = RSet xs))"

definition kinds_ok :: "redis_store \<Rightarrow> bool" where
  "kinds_ok s \<longleftrightarrow> (\<forall>k e. s k = Some e \<longrightarrow> kind_ok k (re_value e))"

lemma kinds_upd: "kinds_ok s \<Longrightarrow> kind_ok k (re_value e) \<Longrightarrow> kinds_ok (s(k \<mapsto> e))"
  by (simp add: kinds_ok_def)

lemma kinds_del [intro]: "kinds_ok s \<Longrightarrow> kinds_ok (s(k := None))"
  by (simp add: kinds_ok_def)

lemma kind_prefixes [simp]:
  "kind_ok (getDocID d) v \<longleftrightarrow> (\<exists>b. v = RString b)"
  "kind_ok (getKeys d) v \<longleftrightarrow> (\<exists>h. v = RHash h)"
  "kind_ok (getToken t) v \<longleftrightarrow> (\<exists>h. v = RHash h)"
  "kind_ok (userKey u) v \<longleftrightarrow> (\<exists>xs. v = RSet xs)"
  by (simp_all add: kind_ok_def has_prefix_def getDocID_def getKeys_def getToken_def userKey_def)

lemma distinct_prefixes [simp]:
  "getDocID d \<noteq> getKeys d'" "getKeys d' \<noteq> getDocID d" "getDocID d \<noteq> getToken t" "getToken t \<noteq> getDocID d"
  "getDocID d \<noteq> userKey u" "userKey u \<noteq> getDocID d" "getToken t \<noteq> userKey u" "userKey u \<noteq> getToken t"
  "getKeys d \<noteq> getToken t" "getKeys d \<noteq> userKey u"
  "getDocID d = getDocID d' \<longleftrightarrow> d = d'" "getToken t = getToken t' \<longleftrightarrow> t = t'"
  by (simp_all add: getDocID_def getKeys_def getToken_def userKey_def)

lemma alive_Some: "alive now s k = Some e \<Longrightarrow> s k = Some e"
  by (auto simp: alive_def split: option.splits if_splits)

lemma alive_put: "alive now (s(k \<mapsto> e)) j = (if j \<noteq> k then alive now s j
    else case re_expires e of None \<Rightarrow> Some e | Some t \<Rightarrow> if t \<le> now then None else Some e)"
  by (simp add: alive_def)

lemma alive_del: "alive now (s(k := None)) j = (if j = k then None else alive now s j)"
  by (simp add: alive_def)

lemma alive_kind: "kinds_ok s \<Longrightarrow> alive now s k = Some e \<Longrightarrow> kind_ok k (re_value e)"
  by (auto simp: kinds_ok_def dest!: alive_Some)

lemma kinds_cmd_expire: "kinds_ok s \<Longrightarrow> kinds_ok (cmd_expire lib now k ttl s)"
  by (auto simp: cmd_expire_def alive_kind intro!: kinds_upd split: option.splits)

lemma kinds_cmd_hset: "kinds_ok s \<Longrightarrow> kind_ok k (RHash []) \<Longrightarrow> kinds_ok (cmd_hset now k fvs s)"
  by (auto simp: cmd_hset_def kind_ok_def intro!: kinds_upd split: option.splits redis_value.splits)

lemma kinds_cmd_srem: "kinds_ok s \<Longrightarrow> kinds_ok (cmd_srem now k x s)"
  by (auto simp: cmd_srem_def intro!: kinds_upd dest: alive_kind split: option.splits redis_value.splits)
    (auto simp: kind_ok_def dest!: alive_kind)

lemma kinds_cmd_append: "kinds_ok s \<Longrightarrow> kinds_ok (cmd_append now (getDocID d) b s)"
  by (auto simp: cmd_append_def intro!: kinds_upd split: option.splits redis_value.splits)

lemma kinds_cmd_set: "kinds_ok s \<Longrightarrow> kinds_ok (cmd_set now (getDocID d) b ttl s)"
  by (auto simp: cmd_set_def intro!: kinds_upd)

lemma kinds_cmd_sadd: "kinds_ok s \<Longrightarrow> kinds_ok (cmd_sadd now (userKey u) x s)"
  by (auto simp: cmd_sadd_def intro!: kinds_upd split: option.splits redis_value.splits)

lemmas kinds_cmds = kinds_cmd_expire kinds_cmd_hset kinds_cmd_append kinds_cmd_set kinds_cmd_sadd

section \<open>Atomicity of the transactions\<close>

definition run_atomic :: "(gotime \<Rightarrow> redis_store \<Rightarrow> 'r attempt) \<Rightarrow> gotime \<Rightarrow> redis_store \<Rightarrow> redis_store \<times> 'r" where
  "run_atomic watchfn now s = (case watchfn now s of Return r \<Rightarrow> (s, r) | Commit pipe r \<Rightarrow> (pipe s, r))"

text \<open>What a transaction reads is among the keys it watches.\<close>

definition reads_only :: "string list \<Rightarrow> (gotime \<Rightarrow> redis_store \<Rightarrow> 'r attempt) \<Rightarrow> bool" where
  "reads_only ks watchfn \<longleftrightarrow> (\<forall>now s s'. (\<forall>k\<in>set ks. s k = s' k) \<longrightarrow> watchfn now s = watchfn now s')"

lemma apply_writes_simps [simp]:
  "apply_writes [] s = s" "apply_writes ((k, e) # ws) s = apply_writes ws (s(k := e))"
  "apply_writes (ws @ ws') s = apply_writes ws' (apply_writes ws s)"
  by (simp_all add: apply_writes_def)

lemma apply_writes_other: "(\<forall>w\<in>set ws. fst w \<noteq> k) \<Longrightarrow> apply_writes ws s k = s k"
  by (induction ws arbitrary: s) auto

lemma executeWatch_atomic:
  assumes "reads_only ks watchfn" and "executeWatch watchfn ks attempts s = Some (s', r)"
  shows "\<exists>n before after now m. before @ after = concat (map snd (take n attempts)) \<and> now \<in> fst ` set attempts
    \<and> run_atomic watchfn now (apply_writes before s) = (m, r) \<and> s' = apply_writes after m"
  using assms(2)
proof (induction attempts arbitrary: s)
  case (Cons a attempts)
  obtain now others where a: "a = (now, others)" by force
  let ?s1 = "apply_writes others s"
  show ?case
  proof (cases "watchfn now s")
    case (Return r')
    with Cons.prems have "run_atomic watchfn now (apply_writes [] s) = (s, r)" "s' = apply_writes others s"
      by (simp_all add: a run_atomic_def)
    then show ?thesis
      by (intro exI [of _ 1] exI [of _ "[]"] exI [of _ others] exI [of _ now] exI [of _ s]) (simp add: a)
  next
    case (Commit pipe r')
    show ?thesis
    proof (cases "\<exists>w\<in>set others. fst w \<in> set ks")
      case True
      with Cons.prems Commit have "executeWatch watchfn ks attempts ?s1 = Some (s', r)"
        by (simp add: a)
      from Cons.IH [OF this] obtain n before after now' m where
        "before @ after = concat (map snd (take n attempts))" "now' \<in> fst ` set attempts"
        "run_atomic watchfn now' (apply_writes before ?s1) = (m, r)" "s' = apply_writes after m"
        by blast
      then show ?thesis
        by (intro exI [of _ "Suc n"] exI [of _ "others @ before"] exI [of _ after] exI [of _ now'] exI [of _ m])
          (simp add: a)
    next
      case False
      then have "\<forall>k\<in>set ks. s k = ?s1 k"
        by (metis apply_writes_other)
      then have "watchfn now s = watchfn now ?s1"
        using assms(1) unfolding reads_only_def by blast
      then have "watchfn now ?s1 = Commit pipe r'"
        using Commit by simp
      with Cons.prems Commit False have "run_atomic watchfn now (apply_writes others s) = (s', r)"
        by (simp add: a run_atomic_def)
      then show ?thesis
        by (intro exI [of _ 1] exI [of _ others] exI [of _ "[]"] exI [of _ now] exI [of _ s']) (simp add: a)
    qed
  qed
qed simp

lemma reads_only_alive:
  assumes "\<And>now (s :: redis_store) s'. (\<And>k. k \<in> set ks \<Longrightarrow> alive now s k = alive now s' k) \<Longrightarrow> watchfn now s = watchfn now s'"
  shows "reads_only ks watchfn"
  unfolding reads_only_def
proof (intro allI impI)
  fix now and s s' :: redis_store
  assume "\<forall>k\<in>set ks. s k = s' k"
  then have "alive now s k = alive now s' k" if "k \<in> set ks" for k
    using that by (simp add: alive_def)
  then show "watchfn now s = watchfn now s'" by (rule assms)
qed

lemma reads_only_get: "reads_only [docID] (redis_get_tx db docID mode init)"
  by (rule reads_only_alive) (simp add: redis_get_tx_def cmd_get_def)

lemma reads_only_append: "reads_only [getDocID d] (redis_append_tx lib db d old new)"
  by (rule reads_only_alive) (simp add: redis_append_tx_def cmd_strlen_def cmd_get_def)

lemma reads_only_key: "reads_only [k] (redis_key_tx lib db k old key json)"
  by (rule reads_only_alive) (simp add: redis_key_tx_def cmd_hgetall_def)

text \<open>The loop ends with the first attempt that only reads or that nobody disturbs.\<close>

lemma executeWatch_returns:
  assumes "(now, others) \<in> set attempts" and "\<forall>w\<in>set others. fst w \<notin> set ks"
  shows "executeWatch watchfn ks attempts s \<noteq> None"
  using assms by (induction attempts arbitrary: s) (auto simp: Let_def split: attempt.splits)

section \<open>Documents\<close>

text \<open>A document as a call at \<open>now\<close> finds it.\<close>

definition redis_live :: "gotime \<Rightarrow> redis_store \<Rightarrow> string \<Rightarrow> bytes option" where
  "redis_live now s d = (case cmd_get now (getDocID d) s of Inr doc \<Rightarrow> doc | Inl _ \<Rightarrow> None)"

lemma redis_live_get: "kinds_ok s \<Longrightarrow> cmd_get now (getDocID d) s = Inr (redis_live now s d)"
  using alive_kind [of s now "getDocID d"]
  by (fastforce simp: redis_live_def cmd_get_def split: option.splits redis_value.splits)

lemma redis_live_set: "redis_live now (cmd_set now (getDocID d) b ttl s) = (redis_live now s)(d \<mapsto> b)"
  by (auto simp: redis_live_def cmd_get_def cmd_set_def alive_def time_add_def less_eq_gotime_def fun_eq_iff)

text \<open>
  C9: A transaction that watches what it reads is atomic, whatever others write meanwhile and
  however often it is repeated: an append that returns had the result and the effect of one
  that runs undisturbed at some moment between the writes of the others.
\<close>

theorem redis_append_atomic:
  assumes "redis_AppendDocument lib db d old new attempts s = Some (s', r)"
  shows "\<exists>n before after now m. before @ after = concat (map snd (take n attempts)) \<and> now \<in> fst ` set attempts
    \<and> run_atomic (redis_append_tx lib db d old new) now (apply_writes before s) = (m, r)
    \<and> s' = apply_writes after m"
  by (rule executeWatch_atomic [OF reads_only_append assms [unfolded redis_AppendDocument_def]])

text \<open>
  A library for the examples: a key is its value, and \<open>EXPIRE\<close> gets whole seconds, at least
  one, as go-redis does.
\<close>

definition demo_lib :: redis_lib where
  "demo_lib = \<lparr>json_marshal = \<lambda>k. Inr (key_Value k),
     json_unmarshal = \<lambda>s. Inr \<lparr>key_Version = 1, key_Name = ''k'', key_Value = s\<rparr>,
     expire_seconds = \<lambda>d. if 0 < d \<and> d < second then 1 else d div second, field_order = \<lambda>h. h\<rparr>"

theorem redis_append_atomic_witness:
  "\<exists>s' now m. redis_AppendDocument demo_lib (newGeneralRedisDB False) ''d'' 1 [8]
       [(Time 0, [(getDocID ''d'', Some \<lparr>re_value = RString [7], re_expires = None\<rparr>)]), (Time 1, [])]
       [getDocID ''d'' \<mapsto> \<lparr>re_value = RString [6], re_expires = None\<rparr>] = Some (s', 2, None)
     \<and> now \<in> {Time 0, Time 1} \<and> redis_live (Time 2) s' ''d'' = Some [7, 8]
     \<and> (\<exists>before. run_atomic (redis_append_tx demo_lib (newGeneralRedisDB False) ''d'' 1 [8]) now
          (apply_writes before [getDocID ''d'' \<mapsto> \<lparr>re_value = RString [6], re_expires = None\<rparr>]) = (m, 2, None))"
proof -
  let ?att = "[(Time 0, [(getDocID ''d'', Some \<lparr>re_value = RString [7], re_expires = None\<rparr>)]), (Time 1, [])]"
  let ?s = "[getDocID ''d'' \<mapsto> \<lparr>re_value = RString [6], re_expires = None\<rparr>]"
  let ?s' = "[getDocID ''d'' \<mapsto> \<lparr>re_value = RString [7, 8], re_expires = None\<rparr>]"
  have "redis_AppendDocument demo_lib (newGeneralRedisDB False) ''d'' 1 [8] ?att ?s = Some (?s', 2, None)"
    by (simp add: redis_AppendDocument_def redis_append_tx_def cmd_strlen_def cmd_get_def alive_def
        cmd_append_def getRedisExpiration_def newGeneralRedisDB_def u64_len_def Let_def)
  moreover have "redis_live (Time 2) ?s' ''d'' = Some [7, 8]"
    by (simp add: redis_live_def cmd_get_def alive_def)
  ultimately show ?thesis
    using redis_append_atomic [of demo_lib "newGeneralRedisDB False" "''d''" 1 "[8]" ?att ?s ?s' "(2, None)"]
    by auto
qed

text \<open>
  \<open>AppendDocument\<close> does not keep the interface's promise to return \<open>ErrMissing\<close>: the length
  of an absent document is 0, so an append at offset 0 creates it, without an expiration if
  none is set, and an append elsewhere is a conflict.
\<close>

theorem redis_append_creates_missing:
  assumes "kinds_ok s" and "redis_live now s d = None"
  shows "(if old = 0
     then \<exists>s'. redis_AppendDocument lib db d old new [(now, [])] s = Some (s', u64_len new, None)
       \<and> (getRedisExpiration db \<le> 0 \<longrightarrow> redis_live now s' = (redis_live now s)(d \<mapsto> new))
     else redis_AppendDocument lib db d old new [(now, [])] s = Some (s, 0, Some ErrConflict))"
proof -
  have "cmd_get now (getDocID d) s = Inr None"
    using redis_live_get [OF assms(1), of now d] assms(2) by simp
  then have al: "alive now s (getDocID d) = None" and len: "cmd_strlen now (getDocID d) s = Inr 0"
    by (auto simp: cmd_get_def cmd_strlen_def split: option.splits redis_value.splits)
  have "redis_live now (cmd_append now (getDocID d) new s) = (redis_live now s)(d \<mapsto> new)"
    by (simp add: redis_live_def cmd_get_def cmd_append_def al alive_put fun_eq_iff)
  moreover have "redis_AppendDocument lib db d old new [(now, [])] s = (if old = 0
      then Some (let s1 = cmd_append now (getDocID d) new s; e = getRedisExpiration db in
        if e > 0 then cmd_expire lib now (getKeys d) e (cmd_expire lib now (getDocID d) e s1) else s1,
        u64_len new, None)
      else Some (s, 0, Some ErrConflict))"
    by (simp add: redis_AppendDocument_def redis_append_tx_def len Let_def)
  ultimately show ?thesis by (cases "old = 0") (simp_all add: Let_def)
qed

theorem redis_append_creates_missing_witness:
  "\<exists>s'. redis_AppendDocument demo_lib (newGeneralRedisDB False) ''d'' 0 [7] [(Time 0, [])] Map.empty
      = Some (s', 1, None) \<and> redis_live (Time 0) s' ''d'' = Some [7]"
proof -
  have "redis_live (Time 0) Map.empty ''d'' = None"
    by (simp add: redis_live_def cmd_get_def alive_def)
  from redis_append_creates_missing [OF _ this, of 0 demo_lib "newGeneralRedisDB False" "[7]"]
  show ?thesis
    by (fastforce simp: kinds_ok_def getRedisExpiration_def newGeneralRedisDB_def u64_len_def)
qed

section \<open>Expiration\<close>

text \<open>
  C27: The expiration given to Redis is exact up to the largest number of seconds that fits a
  \<open>Duration\<close>, some 292 years. From the next number on the product wraps around, to a negative
  one at first, and then documents are stored for ever.
\<close>

theorem getRedisExpiration_bounds:
  assumes "0 < rd_expiration db"
  shows "- (2 ^ 63) \<le> getRedisExpiration db \<and> getRedisExpiration db < 2 ^ 63
    \<and> (rd_expiration db \<le> 9223372036 \<longrightarrow> getRedisExpiration db = rd_expiration db * 1000000000)
    \<and> (9223372036 < rd_expiration db \<and> rd_expiration db \<le> 18446744073
        \<longrightarrow> getRedisExpiration db < 0 \<and> re_expires (the (cmd_set now k b (getRedisExpiration db) s k)) = None)"
proof -
  have eq: "getRedisExpiration db = wrap_int (rd_expiration db * 1000000000)"
    using assms by (simp add: getRedisExpiration_def second_def go_defs)
  have small: "wrap_int (rd_expiration db * 1000000000) = rd_expiration db * 1000000000"
    if "rd_expiration db \<le> 9223372036"
    using that assms by (intro wrap_int_id) auto
  have big: "wrap_int (rd_expiration db * 1000000000) < 0"
    if "9223372036 < rd_expiration db" "rd_expiration db \<le> 18446744073"
  proof -
    let ?x = "rd_expiration db * 1000000000 + 2 ^ 63 - 2 ^ 64"
    have "(?x + 2 ^ 64) mod 2 ^ 64 = ?x mod 2 ^ 64" by (rule mod_add_self2)
    also have "\<dots> = ?x" using that by (intro mod_pos_pos_trivial) auto
    finally show ?thesis using that by (simp add: wrap_int_def add.commute)
  qed
  show ?thesis
    using wrap_int_bounds [of "rd_expiration db * 1000000000"] small big
    by (auto simp: eq cmd_set_def)
qed

theorem getRedisExpiration_bounds_witness:
  "getRedisExpiration \<lparr>rd_expiration = 3600, rd_isCluster = False\<rparr> = 3600000000000
   \<and> getRedisExpiration \<lparr>rd_expiration = 10000000000, rd_isCluster = False\<rparr> < 0"
  using getRedisExpiration_bounds [of "\<lparr>rd_expiration = 3600, rd_isCluster = False\<rparr>"]
    getRedisExpiration_bounds [of "\<lparr>rd_expiration = 10000000000, rd_isCluster = False\<rparr>"]
  by simp

section \<open>Maintenance\<close>

lemma fold_srem:
  assumes "alive now s k = Some e" and "re_value e = RSet xs" and "gone \<noteq> []"
  shows "fold (cmd_srem now k) gone s =
    (if filter (\<lambda>t. t \<notin> set gone) xs = [] then s(k := None)
     else s(k \<mapsto> e\<lparr>re_value := RSet (filter (\<lambda>t. t \<notin> set gone) xs)\<rparr>))"
  using assms
proof (induction gone arbitrary: s e xs)
  case (Cons g gone)
  have rm: "removeAll g xs = filter (\<lambda>t. t \<noteq> g) xs"
    by (induction xs) auto
  have "cmd_srem now k t (s(k := None)) = s(k := None)" for t
    by (simp add: cmd_srem_def alive_del)
  then have dead: "fold (cmd_srem now k) gone (s(k := None)) = s(k := None)"
    by (induction gone) simp_all
  have step: "cmd_srem now k g s = (if removeAll g xs = [] then s(k := None)
      else s(k \<mapsto> e\<lparr>re_value := RSet (removeAll g xs)\<rparr>))"
    using Cons.prems by (simp add: cmd_srem_def)
  show ?case
  proof (cases "removeAll g xs = [] \<or> gone = []")
    case True
    then show ?thesis
      using dead rm by (auto simp: step filter_empty_conv)
  next
    case False
    let ?e = "e\<lparr>re_value := RSet (removeAll g xs)\<rparr>"
    define s2 where "s2 = s(k \<mapsto> ?e)"
    have "alive now s2 k = Some ?e"
      using Cons.prems(1) by (auto simp: s2_def alive_def split: option.splits if_splits)
    note IH = Cons.IH [OF this, of "removeAll g xs"]
    have "filter (\<lambda>t. t \<notin> set gone) (removeAll g xs) = filter (\<lambda>t. t \<notin> set (g # gone)) xs"
      by (simp add: rm conj_commute)
    moreover have "s2(k := v) = s(k := v)" for v by (simp add: s2_def)
    moreover have "fold (cmd_srem now k) (g # gone) s = fold (cmd_srem now k) gone s2"
      using False by (simp add: step s2_def)
    ultimately show ?thesis using IH False by simp
  qed
qed simp

text \<open>One user's set after its tokens were checked: it has the tokens that exist, and no other key changes.\<close>

lemma clean_set_members:
  assumes "cmd_smembers now k s = Inr xs"
  shows "cmd_smembers now k (clean_set now have_tokens (k, xs) s) = Inr (filter (\<lambda>t. t \<in> set have_tokens) xs)"
    and "j \<noteq> k \<Longrightarrow> clean_set now have_tokens (k, xs) s j = s j"
proof -
  let ?gone = "filter (\<lambda>t. t \<notin> set have_tokens) xs"
  have keep: "filter (\<lambda>t. t \<notin> set ?gone) xs = filter (\<lambda>t. t \<in> set have_tokens) xs"
    by (rule filter_cong) auto
  have all: "length ?gone = length xs \<longleftrightarrow> filter (\<lambda>t. t \<in> set have_tokens) xs = []"
    using sum_length_filter_compl [of "\<lambda>t. t \<in> set have_tokens" xs] by (auto simp del: length_filter_conv_card)
  have "cmd_smembers now k (clean_set now have_tokens (k, xs) s) = Inr (filter (\<lambda>t. t \<in> set have_tokens) xs)
      \<and> (j \<noteq> k \<longrightarrow> clean_set now have_tokens (k, xs) s j = s j)"
  proof (cases "alive now s k")
    case None
    with assms have "xs = []" by (simp add: cmd_smembers_def)
    then show ?thesis
      by (simp add: clean_set_def cmd_del_def cmd_smembers_def alive_del)
  next
    case (Some e)
    with assms have e: "re_value e = RSet xs"
      by (simp add: cmd_smembers_def split: redis_value.splits)
    have live: "alive now (s(k \<mapsto> e\<lparr>re_value := v\<rparr>)) k = Some (e\<lparr>re_value := v\<rparr>)" for v
      using Some by (auto simp: alive_def split: option.splits if_splits)
    show ?thesis
    proof (cases "?gone = []")
      case True
      then show ?thesis
        using assms all by (auto simp: clean_set_def cmd_del_def cmd_smembers_def alive_del filter_empty_conv
            filter_id_conv)
    next
      case False
      note fold_srem [OF Some e False, unfolded keep]
      then show ?thesis
        using all live by (auto simp: clean_set_def Let_def cmd_del_def cmd_smembers_def alive_del)
    qed
  qed
  then show "cmd_smembers now k (clean_set now have_tokens (k, xs) s) = Inr (filter (\<lambda>t. t \<in> set have_tokens) xs)"
    and "j \<noteq> k \<Longrightarrow> clean_set now have_tokens (k, xs) s j = s j" by auto
qed

lemma smembers_cong: "s k = s' k \<Longrightarrow> cmd_smembers now k s = cmd_smembers now k s'"
  by (simp add: cmd_smembers_def alive_def)

lemma remove_tokens_members:
  assumes "distinct (map fst m)" and "\<And>k xs. (k, xs) \<in> set m \<Longrightarrow> cmd_smembers now k s = Inr xs"
  shows "(\<forall>(k, xs)\<in>set m. cmd_smembers now k (remove_tokens now m hv s) = Inr (filter (\<lambda>t. t \<in> set hv) xs))
    \<and> (\<forall>j. j \<notin> fst ` set m \<longrightarrow> remove_tokens now m hv s j = s j)"
  using assms
proof (induction m arbitrary: s)
  case (Cons a m)
  obtain k xs where a: "a = (k, xs)" by force
  let ?s = "clean_set now hv (k, xs) s"
  have k: "cmd_smembers now k s = Inr xs" using Cons.prems(2) by (simp add: a)
  note cl = clean_set_members [OF k, where have_tokens = hv]
  have "cmd_smembers now k' ?s = Inr xs'" if "(k', xs') \<in> set m" for k' xs'
  proof -
    have "k' \<noteq> k" using Cons.prems(1) that by (auto simp: a rev_image_eqI)
    then show ?thesis
      using cl(2) [of k'] smembers_cong [of ?s k' s now] Cons.prems(2) [of k' xs'] that by simp
  qed
  from Cons.IH [OF _ this] Cons.prems(1)
  have IH: "\<forall>(k, xs)\<in>set m. cmd_smembers now k (remove_tokens now m hv ?s) = Inr (filter (\<lambda>t. t \<in> set hv) xs)"
    "\<forall>j. j \<notin> fst ` set m \<longrightarrow> remove_tokens now m hv ?s j = ?s j"
    by (simp_all add: a)
  have "k \<notin> fst ` set m" using Cons.prems(1) by (simp add: a)
  then have "cmd_smembers now k (remove_tokens now m hv ?s) = Inr (filter (\<lambda>t. t \<in> set hv) xs)"
    using IH(2) cl(1) smembers_cong [of "remove_tokens now m hv ?s" k ?s now] by simp
  with IH cl(2) show ?case by (auto simp: a remove_tokens_def)
qed (simp add: remove_tokens_def)

lemma update_new: "k \<notin> fst ` set m \<Longrightarrow> set (AList.update k v m) = insert (k, v) (set m)"
  by (induction m) auto

lemma read_sets_map:
  assumes "\<And>k. k \<in> set ks \<Longrightarrow> cmd_smembers now k s = Inr (f k)"
  shows "\<exists>m. read_sets now ks s = Ok m \<and> distinct (map fst m) \<and> set m = (\<lambda>k. (k, f k)) ` set ks"
  using assms
proof (induction ks)
  case (Cons k ks)
  then obtain m where m: "read_sets now ks s = Ok m" "distinct (map fst m)" "set m = (\<lambda>k. (k, f k)) ` set ks"
    by auto
  have "set (AList.update k (f k) m) = insert (k, f k) (set m)"
  proof (cases "k \<in> fst ` set m")
    case True
    then have "(k, f k) \<in> set m" using m(3) by auto
    moreover from this have "map_of m k = Some (f k)" using m(2) by simp
    ultimately show ?thesis by (auto simp: update_triv)
  qed (rule update_new)
  then show ?case
    using m Cons.prems by (auto simp: distinct_update)
qed simp

text \<open>
  C26: Maintenance that nobody disturbs leaves in the set of every user the scan found exactly
  the tokens that still exist, and changes nothing else in the store.
\<close>

theorem runMaintenance_correct:
  assumes "kinds_ok s" and "\<forall>k\<in>set userkeys. \<exists>u. k = userKey u"
  shows "\<exists>s'. runMaintenance now userkeys [] [] s = Ok s'
    \<and> (\<forall>k\<in>set userkeys. \<exists>xs. cmd_smembers now k s = Inr xs
         \<and> cmd_smembers now k s' = Inr (filter (\<lambda>t. cmd_exists now t s) xs))
    \<and> (\<forall>j. j \<notin> set userkeys \<longrightarrow> s' j = s j)"
proof -
  have "\<exists>xs. cmd_smembers now k s = Inr xs" if "k \<in> set userkeys" for k
    using that assms alive_kind [OF assms(1), of now k]
    by (fastforce simp: cmd_smembers_def split: option.splits redis_value.splits)
  then obtain f where f: "cmd_smembers now k s = Inr (f k)" if "k \<in> set userkeys" for k
    by metis
  then obtain m where m: "read_sets now userkeys s = Ok m" "distinct (map fst m)"
      "set m = (\<lambda>k. (k, f k)) ` set userkeys"
    using read_sets_map [of userkeys now s f] by blast
  let ?have = "existing_tokens now m s" and ?s' = "remove_tokens now m (existing_tokens now m s) s"
  have ex: "t \<in> set ?have \<longleftrightarrow> cmd_exists now t s" if "k \<in> set userkeys" "t \<in> set (f k)" for k t
    using that m(3) by (force simp: existing_tokens_def)
  have "cmd_smembers now k s = Inr xs" if "(k, xs) \<in> set m" for k xs
    using that m(3) f by auto
  note rm = remove_tokens_members [OF m(2) this, of ?have]
  have "cmd_smembers now k ?s' = Inr (filter (\<lambda>t. cmd_exists now t s) (f k))" if k: "k \<in> set userkeys" for k
  proof -
    have "cmd_smembers now k ?s' = Inr (filter (\<lambda>t. t \<in> set ?have) (f k))"
      using rm m(3) k by blast
    also have "filter (\<lambda>t. t \<in> set ?have) (f k) = filter (\<lambda>t. cmd_exists now t s) (f k)"
      using ex [OF k] by (rule filter_cong [OF refl])
    finally show ?thesis .
  qed
  moreover have "?s' j = s j" if "j \<notin> set userkeys" for j
    using rm m(3) that by (simp add: image_image)
  ultimately show ?thesis
    using f by (auto simp: runMaintenance_def m(1) Let_def)
qed

text \<open>User \<open>u\<close> has a token that exists and one that has expired.\<close>

definition demo_store :: redis_store where
  "demo_store =
     [userKey ''u'' \<mapsto> \<lparr>re_value = RSet [getToken ''a'', getToken ''b''], re_expires = None\<rparr>,
      getToken ''a'' \<mapsto> \<lparr>re_value = RHash [(''docID'', ''d'')], re_expires = Some (Time 9)\<rparr>,
      getToken ''b'' \<mapsto> \<lparr>re_value = RHash [(''docID'', ''d'')], re_expires = Some (Time 5)\<rparr>]"

lemma demo_store_kinds: "kinds_ok demo_store"
  unfolding demo_store_def by (intro kinds_upd) (simp_all add: kinds_ok_def)

theorem runMaintenance_correct_witness:
  "\<exists>s'. runMaintenance (Time 7) [userKey ''u'', userKey ''u''] [] [] demo_store = Ok s'
     \<and> cmd_smembers (Time 7) (userKey ''u'') s' = Inr [getToken ''a'']"
proof -
  have "cmd_smembers (Time 7) (userKey ''u'') demo_store = Inr [getToken ''a'', getToken ''b'']"
    by (simp add: cmd_smembers_def alive_def demo_store_def)
  moreover have "cmd_exists (Time 7) (getToken ''a'') demo_store" "\<not> cmd_exists (Time 7) (getToken ''b'') demo_store"
    by (simp_all add: cmd_exists_def alive_def demo_store_def less_eq_gotime_def)
  ultimately show ?thesis
    using runMaintenance_correct [OF demo_store_kinds, of "[userKey ''u'', userKey ''u'']" "Time 7"]
    by auto
qed

lemma srem_other: "j \<noteq> k \<Longrightarrow> fold (cmd_srem now k) ts s j = s j"
  by (induction ts arbitrary: s) (auto simp: cmd_srem_def split: option.splits redis_value.splits)

lemma clean_set_all_gone:
  assumes "\<forall>t\<in>set xs. t \<notin> set have_tokens"
  shows "clean_set now have_tokens (k, xs) s = s(k := None)"
proof -
  have "filter (\<lambda>t. t \<notin> set have_tokens) xs = xs" using assms by (simp add: filter_id_conv)
  then show ?thesis
    by (auto simp: clean_set_def cmd_del_def fun_eq_iff srem_other)
qed

text \<open>
  Maintenance can lose a token that was added while it runs. All the user's tokens have
  expired; after maintenance has looked them up, a token is added for the user; then
  maintenance deletes the user's set, the new token in it. The token is still good, but a
  change of the user's permissions no longer reaches it.
\<close>

theorem maintenance_loses_new_token:
  assumes "cmd_smembers now (userKey u) s = Inr xs" and "\<forall>t\<in>set xs. \<not> cmd_exists now t s"
    and "redis_AddToken lib db t d u p e contents [(now, [])] s = Some (s2, None)"
    and "apply_writes others s = s2"
  shows "\<exists>s'. runMaintenance now [userKey u] [] others s = Ok s'
    \<and> redis_GetToken now s' t = redis_GetToken now s2 t
    \<and> redis_UpdateUser db now s' u p' = (s', None)"
proof -
  let ?s' = "s2(userKey u := None)"
  have "existing_tokens now [(userKey u, xs)] s = []"
    using assms(2) by (simp add: existing_tokens_def filter_empty_conv)
  then have "runMaintenance now [userKey u] [] others s = Ok ?s'"
    using clean_set_all_gone [of xs "[]" now "userKey u" s2] assms(1,4)
    by (simp add: runMaintenance_def remove_tokens_def Let_def)
  moreover have "redis_GetToken now ?s' t = redis_GetToken now s2 t"
    by (simp add: redis_GetToken_def cmd_hgetall_def alive_del)
  moreover have "redis_UpdateUser db now ?s' u p' = (?s', None)"
    using assms(3) by (auto simp: redis_UpdateUser_def redis_AddToken_def cmd_smembers_def alive_del split: if_splits)
  ultimately show ?thesis by blast
qed

theorem maintenance_loses_new_token_witness:
  "\<exists>s2 others s'. redis_AddToken demo_lib (newGeneralRedisDB False) ''c'' ''d'' ''u'' ''rw'' 100 [] [(Time 20, [])] demo_store
       = Some (s2, None)
     \<and> runMaintenance (Time 20) [userKey ''u''] [] others demo_store = Ok s'
     \<and> redis_GetToken (Time 20) s' ''c'' = Inr (''d'', ''u'', ''rw'')
     \<and> redis_UpdateUser (newGeneralRedisDB False) (Time 20) s' ''u'' ''r'' = (s', None)"
proof -
  let ?h = "\<lparr>re_value = RHash [(''userID'', ''u''), (''docID'', ''d''), (''permissions'', ''rw'')],
      re_expires = Some (Time 99000000020)\<rparr>"
  let ?u = "\<lparr>re_value = RSet [getToken ''c'', getToken ''a'', getToken ''b''], re_expires = None\<rparr>"
  let ?s2 = "demo_store(getToken ''c'' \<mapsto> ?h, userKey ''u'' \<mapsto> ?u)"
  let ?others = "[(getToken ''c'', Some ?h), (userKey ''u'', Some ?u)]"
  have add: "redis_AddToken demo_lib (newGeneralRedisDB False) ''c'' ''d'' ''u'' ''rw'' 100 [] [(Time 20, [])] demo_store
      = Some (?s2, None)"
    by (simp add: redis_AddToken_def newGeneralRedisDB_def redis_token_tx_def cmd_hgetall_def alive_put
        cmd_hset_def cmd_expire_def cmd_sadd_def demo_store_def demo_lib_def Let_def alive_def time_sub_def
        max_duration_def second_def time_add_def less_eq_gotime_def)
  have mem: "cmd_smembers (Time 20) (userKey ''u'') demo_store = Inr [getToken ''a'', getToken ''b'']"
    by (simp add: cmd_smembers_def alive_def demo_store_def)
  have gone: "\<forall>t\<in>set [getToken ''a'', getToken ''b'']. \<not> cmd_exists (Time 20) t demo_store"
    by (simp add: cmd_exists_def alive_def demo_store_def less_eq_gotime_def)
  have "redis_GetToken (Time 20) ?s2 ''c'' = Inr (''d'', ''u'', ''rw'')"
    by (simp add: redis_GetToken_def cmd_hgetall_def alive_put hash_field_def less_eq_gotime_def)
  with maintenance_loses_new_token [OF mem gone add, of ?others "''r''"] add show ?thesis
    by (metis apply_writes_simps(1,2))
qed

text \<open>
  With a creation mode other than the three, which no caller checks, \<open>GetDocument\<close> replaces
  an existing document by the initial data and reports that it has created it.
\<close>

theorem redis_unknown_mode_overwrites:
  assumes "kinds_ok s" and "mode \<notin> {PossiblyCreate, NeverCreate, AlwaysCreate}"
  shows "\<exists>s'. redis_GetDocument db d mode init [(now, [])] s = Some (s', Inr (init, True))
    \<and> redis_live now s' = (redis_live now s)(d \<mapsto> init)"
  using assms redis_live_get [OF assms(1), of now d]
  by (auto simp: redis_GetDocument_def redis_get_tx_def Let_def redis_live_set split: option.splits)

theorem redis_unknown_mode_overwrites_witness:
  "\<exists>s'. redis_GetDocument (newGeneralRedisDB False) ''d'' 3 [] [(Time 0, [])]
       [getDocID ''d'' \<mapsto> \<lparr>re_value = RString [1, 2], re_expires = None\<rparr>] = Some (s', Inr ([], True))
     \<and> redis_live (Time 0) s' ''d'' = Some []"
proof -
  have "kinds_ok [getDocID ''d'' \<mapsto> \<lparr>re_value = RString [1, 2], re_expires = None\<rparr>]"
    by (simp add: kinds_ok_def)
  from redis_unknown_mode_overwrites [OF this, of 3 "newGeneralRedisDB False" "''d''" "[]" "Time 0"] show ?thesis
    by (auto simp: go_defs)
qed

section \<open>The operations keep the kinds\<close>

lemma apply_writes_kinds:
  assumes "\<forall>(k, e)\<in>set ws. \<forall>x. e = Some x \<longrightarrow> kind_ok k (re_value x)" and "kinds_ok s"
  shows "kinds_ok (apply_writes ws s)"
  using assms
proof (induction ws arbitrary: s)
  case (Cons w ws)
  obtain k e where w: "w = (k, e)" by force
  have "kinds_ok (s(k := e))"
    using Cons.prems by (cases e) (auto simp: w intro: kinds_upd)
  then show ?case using Cons by (simp add: w)
qed simp

lemma executeWatch_kinds:
  assumes "\<And>now s pipe r. watchfn now s = Commit pipe r \<Longrightarrow> \<forall>s'. kinds_ok s' \<longrightarrow> kinds_ok (pipe s')"
    and "\<forall>(now, ws)\<in>set attempts. \<forall>(k, e)\<in>set ws. \<forall>x. e = Some x \<longrightarrow> kind_ok k (re_value x)"
    and "kinds_ok s" and "executeWatch watchfn ks attempts s = Some (s', r)"
  shows "kinds_ok s'"
  using assms(2-4)
proof (induction attempts arbitrary: s)
  case (Cons a attempts)
  obtain now ws where a: "a = (now, ws)" by force
  have ws: "kinds_ok (apply_writes ws s)"
    using Cons.prems by (intro apply_writes_kinds) (auto simp: a)
  show ?case
  proof (cases "watchfn now s")
    case (Commit pipe r')
    then show ?thesis
      using Cons assms(1) [OF Commit] ws by (auto simp: a Let_def split: if_splits)
  qed (use Cons ws in \<open>simp add: a\<close>)
qed simp

text \<open>So do the pipelines of all transactions.\<close>

lemma commits_kinds:
  "redis_get_tx db (getDocID d) mode init now s = Commit pipe r \<Longrightarrow> kinds_ok s' \<Longrightarrow> kinds_ok (pipe s')"
  "redis_append_tx lib db d old new now s = Commit pipe r2 \<Longrightarrow> kinds_ok s' \<Longrightarrow> kinds_ok (pipe s')"
  "redis_key_tx lib db (getKeys d) v key json now s = Commit pipe r3 \<Longrightarrow> kinds_ok s' \<Longrightarrow> kinds_ok (pipe s')"
  "redis_token_tx lib db (getToken t) d u p e contents now s = Commit pipe r4 \<Longrightarrow> kinds_ok s' \<Longrightarrow> kinds_ok (pipe s')"
  by (auto simp: redis_get_tx_def redis_append_tx_def redis_key_tx_def redis_token_tx_def Let_def
      kinds_cmds split: sum.splits option.splits if_splits)

text \<open>
  The calls that change the store, each with the fields of the server that makes it, the time,
  its attempts to commit and what others write meanwhile. When the attempts run out without a
  commit, only the others have written.
\<close>

datatype redis_call = Do_get string int bytes | Do_append string u64 bytes | Do_set_key string int Key
  | Do_delete string | Do_add_token string string string string int bytes | Do_update_user string string
  | Do_maintain "string list" "redis_write list" "redis_write list"

definition attempted :: "(gotime \<times> redis_write list) list \<Rightarrow> redis_store \<Rightarrow> (redis_store \<times> 'r) option \<Rightarrow> redis_store" where
  "attempted attempts s res = (case res of
     Some (s', r) \<Rightarrow> s' | None \<Rightarrow> fold (\<lambda>(now, ws). apply_writes ws) attempts s)"

fun redis_do ::
    "redis_lib \<Rightarrow> redisDB \<Rightarrow> gotime \<Rightarrow> (gotime \<times> redis_write list) list \<Rightarrow> redis_call \<Rightarrow> redis_store \<Rightarrow> redis_store" where
  "redis_do lib db now attempts (Do_get d mode init) s =
     attempted attempts s (redis_GetDocument db d mode init attempts s)"
| "redis_do lib db now attempts (Do_append d old new) s =
     attempted attempts s (redis_AppendDocument lib db d old new attempts s)"
| "redis_do lib db now attempts (Do_set_key d old key) s =
     attempted attempts s (redis_SetDocumentKey lib db d old key attempts s)"
| "redis_do lib db now attempts (Do_delete d) s = fst (redis_DeleteDocument s d)"
| "redis_do lib db now attempts (Do_add_token t d u p e contents) s =
     attempted attempts s (redis_AddToken lib db t d u p e contents attempts s)"
| "redis_do lib db now attempts (Do_update_user u p) s = fst (redis_UpdateUser db now s u p)"
| "redis_do lib db now attempts (Do_maintain userkeys others1 others2) s =
     (case runMaintenance now userkeys others1 others2 s of Ok s' \<Rightarrow> s' | _ \<Rightarrow> s)"

text \<open>The others are servers like this one, or at least write values of the right kinds.\<close>

definition writes_ok :: "redis_write list \<Rightarrow> bool" where
  "writes_ok ws \<longleftrightarrow> (\<forall>(k, e)\<in>set ws. \<forall>x. e = Some x \<longrightarrow> kind_ok k (re_value x))"

fun others_ok :: "(gotime \<times> redis_write list) list \<Rightarrow> redis_call \<Rightarrow> bool" where
  "others_ok attempts (Do_maintain userkeys others1 others2) \<longleftrightarrow>
     (\<forall>(now, ws)\<in>set attempts. writes_ok ws) \<and> writes_ok others1 \<and> writes_ok others2"
| "others_ok attempts call \<longleftrightarrow> (\<forall>(now, ws)\<in>set attempts. writes_ok ws)"

lemma kinds_writes: "writes_ok ws \<Longrightarrow> kinds_ok s \<Longrightarrow> kinds_ok (apply_writes ws s)"
  unfolding writes_ok_def by (rule apply_writes_kinds)

lemma attempted_kinds:
  assumes commits: "\<And>now s pipe r s'. watchfn now s = Commit pipe r \<Longrightarrow> kinds_ok s' \<Longrightarrow> kinds_ok (pipe s')"
    and others: "\<forall>(now, ws)\<in>set attempts. writes_ok ws" and s: "kinds_ok s"
  shows "kinds_ok (attempted attempts s (executeWatch watchfn ks attempts s))"
proof (cases "executeWatch watchfn ks attempts s")
  case None
  have "kinds_ok (fold (\<lambda>(now, ws). apply_writes ws) attempts s)"
    using others s
    by (induction attempts arbitrary: s) (auto simp: kinds_writes)
  with None show ?thesis by (simp add: attempted_def)
next
  case (Some x)
  then show ?thesis
    using executeWatch_kinds [of watchfn attempts s ks] commits others s
    by (cases x) (auto simp: attempted_def writes_ok_def)
qed

lemma kinds_cmd_hset_there: "kinds_ok s \<Longrightarrow> cmd_exists now k s \<Longrightarrow> kinds_ok (cmd_hset now k fvs s)"
  by (auto simp: cmd_hset_def cmd_exists_def intro!: kinds_upd dest: alive_kind split: option.splits redis_value.splits)
    (auto simp: kind_ok_def dest!: alive_kind)

lemma kinds_fold: "kinds_ok s \<Longrightarrow> (\<And>x s. kinds_ok s \<Longrightarrow> kinds_ok (f x s)) \<Longrightarrow> kinds_ok (fold f xs s)"
  by (induction xs arbitrary: s) simp_all

lemma kinds_clean_set: "kinds_ok s \<Longrightarrow> kinds_ok (clean_set now have_tokens x s)"
  by (cases x) (auto simp: clean_set_def Let_def cmd_del_def intro!: kinds_fold kinds_cmd_srem kinds_del)

lemma redis_do_kinds:
  assumes "kinds_ok s" and "others_ok attempts call"
  shows "kinds_ok (redis_do lib db now attempts call s)"
proof (cases call)
  case (Do_get d mode init)
  then show ?thesis
    using assms by (auto simp: redis_GetDocument_def intro!: attempted_kinds intro: commits_kinds(1))
next
  case (Do_append d old new)
  then show ?thesis
    using assms by (auto simp: redis_AppendDocument_def intro!: attempted_kinds intro: commits_kinds(2))
next
  case (Do_set_key d old key)
  then show ?thesis
    using assms
    by (cases "json_marshal lib key")
      (auto simp: redis_SetDocumentKey_def attempted_def [of _ _ "Some _"] intro!: attempted_kinds intro: commits_kinds(3))
next
  case (Do_delete d)
  with assms show ?thesis by (auto simp: redis_DeleteDocument_def cmd_del_def)
next
  case (Do_add_token t d u p e contents)
  then show ?thesis
    using assms
    by (cases "rd_isCluster db")
      (auto simp: redis_AddToken_def attempted_def [of _ _ "Some _"] intro!: attempted_kinds intro: commits_kinds(4))
next
  case (Do_update_user u p)
  with assms show ?thesis
    by (auto simp: redis_UpdateUser_def intro!: kinds_fold kinds_cmd_hset_there split: sum.splits)
next
  case (Do_maintain userkeys others1 others2)
  with assms show ?thesis
    by (cases "read_sets now userkeys s")
      (auto simp: runMaintenance_def remove_tokens_def Let_def
        intro!: kinds_fold kinds_clean_set kinds_writes)
qed



section \<open>The interface\<close>

text \<open>
  The operations on the database and its store, as calls that no other client of the Redis
  server disturbs. \<open>CheckHealth\<close> is a ping, which only an error of the network fails.
\<close>

definition undisturbed ::
    "gotime \<Rightarrow> (redisDB \<Rightarrow> (gotime \<times> redis_write list) list \<Rightarrow> redis_store \<Rightarrow> (redis_store \<times> 'r) option) \<Rightarrow>
     redisDB \<times> redis_store \<Rightarrow> (redisDB \<times> redis_store) \<times> 'r" where
  "undisturbed now call = (\<lambda>(db, s). let (s', r) = the (call db [(now, [])] s) in ((db, s'), r))"

definition redis_CheckHealth :: "redisDB \<times> redis_store \<Rightarrow> goerror option" where
  "redis_CheckHealth dbs = None"

definition redis_ops :: "redis_lib \<Rightarrow> gotime \<Rightarrow> (redisDB \<times> redis_store) documentDB" where
  "redis_ops lib now =
     \<lparr>GetDocument = (\<lambda>dbs d mode init. undisturbed now (\<lambda>db. redis_GetDocument db d mode init) dbs),
      AppendDocument = (\<lambda>dbs d old new. undisturbed now (\<lambda>db. redis_AppendDocument lib db d old new) dbs),
      SetDocumentKey = (\<lambda>dbs d v k. apsnd Ok (undisturbed now (\<lambda>db. redis_SetDocumentKey lib db d v k) dbs)),
      GetDocumentKeys = (\<lambda>(db, s) d. ((db, s), redis_GetDocumentKeys lib now s d)),
      SetExpiration = (\<lambda>(db, s) seconds. (redis_SetExpiration db seconds, s)),
      DeleteDocument = (\<lambda>(db, s) d. apfst (Pair db) (redis_DeleteDocument s d)),
      AddToken = (\<lambda>dbs t d u p e contents. undisturbed now (\<lambda>db. redis_AddToken lib db t d u p e contents) dbs),
      GetToken = (\<lambda>(db, s) t. ((db, s), redis_GetToken now s t)),
      UpdateUser = (\<lambda>(db, s) u p. apfst (Pair db) (redis_UpdateUser db now s u p)),
      CheckHealth = redis_CheckHealth\<rparr>"

lemma undisturbed_watch:
  "undisturbed now (\<lambda>db. executeWatch (f db) ks) (db, s) = (case run_atomic (f db) now s of (s', r) \<Rightarrow> ((db, s'), r))"
  by (simp add: undisturbed_def run_atomic_def split: attempt.splits)

lemma redis_ops_simps:
  "GetDocument (redis_ops lib now) (db, s) d mode init =
     (case run_atomic (redis_get_tx db (getDocID d) mode init) now s of (s', r) \<Rightarrow> ((db, s'), r))"
  "AppendDocument (redis_ops lib now) (db, s) d old new =
     (case run_atomic (redis_append_tx lib db d old new) now s of (s', r) \<Rightarrow> ((db, s'), r))"
  "SetDocumentKey (redis_ops lib now) (db, s) d v k = (case json_marshal lib k of
       Inl err \<Rightarrow> ((db, s), Ok (Some (OtherError err)))
     | Inr json \<Rightarrow> (case run_atomic (redis_key_tx lib db (getKeys d) v k json) now s of (s', r) \<Rightarrow> ((db, s'), Ok r)))"
  "GetDocumentKeys (redis_ops lib now) (db, s) d = ((db, s), redis_GetDocumentKeys lib now s d)"
  "GetToken (redis_ops lib now) (db, s) t = ((db, s), redis_GetToken now s t)"
  by (auto simp: redis_ops_def redis_GetDocument_def redis_AppendDocument_def redis_SetDocumentKey_def
      undisturbed_watch undisturbed_def run_atomic_def split: sum.splits attempt.splits)

text \<open>What the documents are does not depend on when values expire that are alive.\<close>

lemma redis_live_cong:
  assumes "\<And>d. map_option re_value (alive now s' (getDocID d)) = map_option re_value (alive now s (getDocID d))"
  shows "redis_live now s' = redis_live now s"
proof
  fix d
  show "redis_live now s' d = redis_live now s d"
    using assms [of d] by (auto simp: redis_live_def cmd_get_def split: option.splits)
qed

lemma redis_live_hset: "redis_live now (cmd_hset now (getKeys d) fvs s) = redis_live now s"
  by (rule redis_live_cong) (auto simp: cmd_hset_def alive_put split: option.splits redis_value.splits)

lemma redis_live_put:
  assumes "re_value e = RString b" and "\<And>t. re_expires e = Some t \<Longrightarrow> \<not> t \<le> now"
  shows "redis_live now (s(getDocID d \<mapsto> e)) = (redis_live now s)(d \<mapsto> b)"
  using assms by (auto simp: redis_live_def cmd_get_def alive_put fun_eq_iff split: option.splits)

lemma redis_live_append:
  assumes "kinds_ok s" and "finds True (redis_live now s d) doc"
  shows "redis_live now (cmd_append now (getDocID d) new s) = (redis_live now s)(d \<mapsto> doc @ new)"
proof (cases "alive now s (getDocID d)")
  case None
  then have "doc = []" using assms(2) by (simp add: redis_live_def cmd_get_def finds_def)
  have "redis_live now (s(getDocID d \<mapsto> \<lparr>re_value = RString new, re_expires = None\<rparr>)) = (redis_live now s)(d \<mapsto> new)"
    by (rule redis_live_put) simp_all
  with None \<open>doc = []\<close> show ?thesis by (simp add: cmd_append_def)
next
  case (Some e)
  then obtain b where b: "re_value e = RString b" using alive_kind [OF assms(1) Some] by auto
  have "\<not> t \<le> now" if "re_expires e = Some t" for t
    using Some that by (auto simp: alive_def split: option.splits if_splits)
  moreover have "doc = b" using Some assms(2) b by (simp add: redis_live_def cmd_get_def finds_def)
  ultimately have "redis_live now (s(getDocID d \<mapsto> e\<lparr>re_value := RString (b @ new)\<rparr>)) = (redis_live now s)(d \<mapsto> doc @ new)"
    by (intro redis_live_put) simp_all
  with Some b show ?thesis by (simp add: cmd_append_def)
qed

text \<open>How go-redis rounds the time to live: what is positive stays positive.\<close>

locale redis_client =
  fixes lib :: redis_lib
  assumes expire_positive: "0 < ttl \<Longrightarrow> 0 < expire_seconds lib ttl"
begin

lemma redis_live_expire: "0 < ttl \<Longrightarrow> redis_live now (cmd_expire lib now k ttl s) = redis_live now s"
  using expire_positive [of ttl]
  by (intro redis_live_cong)
    (auto simp: cmd_expire_def alive_put time_add_def second_def less_eq_gotime_def split: option.splits)

lemma redis_append:
  assumes "kinds_ok s" and "finds True (redis_live now s d) doc"
  shows "\<exists>s'. AppendDocument (redis_ops lib now) (db, s) d old new = (if u64_len doc \<noteq> old
        then ((db, s), u64_len doc, Some ErrConflict) else ((db, s'), u64_len (doc @ new), None))
    \<and> redis_live now s' = (redis_live now s)(d \<mapsto> doc @ new)"
proof -
  have "cmd_strlen now (getDocID d) s = Inr (u64_len doc)"
    using assms(2) by (auto simp: cmd_strlen_def redis_live_get [OF assms(1)] finds_def u64_len_def split: option.splits)
  then show ?thesis
    using redis_live_append [OF assms, of new]
    by (cases "0 < getRedisExpiration db")
      (auto simp: redis_ops_simps run_atomic_def redis_append_tx_def u64_len_append redis_live_expire Let_def)
qed

end

lemma redis_keys_return: "redis_GetDocumentKeys lib now s d \<noteq> Inl (Panicked text0)"
proof -
  have "unmarshal_all lib fs \<noteq> Inl (Panicked text0)" for fs
    by (induction fs) (auto split: sum.splits)
  then show ?thesis
    by (auto simp: redis_GetDocumentKeys_def cmd_hgetall_def WRONGTYPE_def split: sum.splits option.splits redis_value.splits)
qed

sublocale redis_client \<subseteq> store: document_store "redis_ops lib now" "\<lambda>(db, s). redis_live now s"
    "\<lambda>(db, s). kinds_ok s" True for now
proof (unfold_locales, goal_cases)
  case (5 dbs d mode init)
  then show ?case
    by (auto simp: redis_ops_simps run_atomic_def intro: commits_kinds(1) split: attempt.splits)
next
  case (7 dbs d doc old new)
  then show ?case using redis_append [of "snd dbs" now d doc "fst dbs" old new] by (auto split: if_splits)
next
  case (8 dbs d doc new)
  then show ?case using redis_append [of "snd dbs" now d doc "fst dbs" "u64_len doc" new] by auto
next
  case (9 dbs d old new)
  then show ?case
    by (auto simp: redis_ops_simps run_atomic_def intro: commits_kinds(2) split: attempt.splits)
next
  case (10 dbs d v k)
  then show ?case
    by (auto simp: redis_ops_simps run_atomic_def redis_key_tx_def redis_live_hset redis_live_expire Let_def
        split: sum.splits option.splits)
next
  case (11 dbs d v k)
  then show ?case
    by (auto simp: redis_ops_simps run_atomic_def intro: commits_kinds(3) split: sum.splits attempt.splits)
next
  case (12 dbs d v k)
  then show ?case by (auto simp: redis_ops_simps split: sum.splits prod.splits)
qed (auto simp: redis_ops_simps run_atomic_def redis_get_tx_def redis_live_get redis_live_set go_defs Let_def
    kinds_cmd_set redis_keys_return split: option.splits if_splits)

interpretation demo_redis: redis_client demo_lib
  by unfold_locales (auto simp: demo_lib_def second_def pos_imp_zdiv_pos_iff)

end
