(* ===== verification/Databases.thy ===== *)
theory Databases
  imports MemoryDB SqlxDB RedisDB
begin

text \<open>
  The implementations of \<open>DocumentDB\<close> side by side. As long as nothing expires, the memory
  database and the SQL database answer any calls on documents, at any times, as the
  specification \<open>doc_spec\<close> says, and so like each other. The Redis database does for
  \<open>GetDocument\<close> only: its \<open>AppendDocument\<close> creates an absent document (theory \<open>RedisDB\<close>).
\<close>

fun run_docs ::
    "(gotime \<Rightarrow> 'db \<Rightarrow> doc_op \<Rightarrow> 'db \<times> doc_result) \<Rightarrow> 'db \<Rightarrow> (gotime \<times> doc_op) list \<Rightarrow> 'db \<times> doc_result list" where
  "run_docs step db [] = (db, [])"
| "run_docs step db ((now, op) # ops) =
     (let (db1, r) = step now db op; (db2, rs) = run_docs step db1 ops in (db2, r # rs))"

fun spec_docs :: "(string \<rightharpoonup> bytes) \<Rightarrow> (gotime \<times> doc_op) list \<Rightarrow> (string \<rightharpoonup> bytes) \<times> doc_result list" where
  "spec_docs docs [] = (docs, [])"
| "spec_docs docs ((now, op) # ops) =
     (let (docs1, r) = doc_spec docs op; (docs2, rs) = spec_docs docs1 ops in (docs2, r # rs))"

text \<open>An implementation whose documents do not depend on the time of the call.\<close>

locale lasting_documents =
  fixes get :: "gotime \<Rightarrow> 'db \<Rightarrow> string \<Rightarrow> int \<Rightarrow> bytes \<Rightarrow> 'db \<times> (goerror + bytes \<times> bool)"
    and live :: "gotime \<Rightarrow> 'db \<Rightarrow> string \<Rightarrow> bytes option"
    and ok :: "'db \<Rightarrow> bool"
    and app :: "gotime \<Rightarrow> 'db \<Rightarrow> string \<Rightarrow> u64 \<Rightarrow> bytes \<Rightarrow> 'db \<times> u64 \<times> goerror option"
    and del :: "'db \<Rightarrow> string \<Rightarrow> 'db \<times> goerror option"
  assumes contents: "document_contents (get now) (live now) ok (app now) del"
    and timeless: "ok db \<Longrightarrow> live now db = live now' db"
begin

lemma run_docs_spec:
  assumes "ok db" and "\<forall>(now, op)\<in>set ops. known_op op"
  shows "(let (db', rs) = run_docs (\<lambda>now. doc_do (get now) (app now) del) db ops in (live now db', rs))
      = spec_docs (live now db) ops"
  using assms
proof (induction ops arbitrary: db)
  case (Cons a ops)
  obtain t op where a: "a = (t, op)" by force
  obtain db1 r where d: "doc_do (get t) (app t) del db op = (db1, r)" by force
  have "known_op op" using Cons.prems(2) by (simp add: a)
  from document_contents.doc_do_spec [OF contents Cons.prems(1) this, of t]
  have one: "doc_spec (live now db) op = (live now db1, r)" "ok db1"
    using timeless [of db t now] timeless [of db1 t now] Cons.prems(1) by (simp_all add: d)
  have "\<forall>(now, op)\<in>set ops. known_op op" using Cons.prems(2) by simp
  note IH = Cons.IH [OF one(2) this, symmetric]
  show ?case by (simp add: a d one(1) IH case_prod_beta Let_def)
qed simp

end

interpretation memory: lasting_documents "\<lambda>now. GetDocument (memory_ops now)" mem_live
  "\<lambda>db. mem_expiration db = 0" "\<lambda>now. AppendDocument (memory_ops now)" mem_DeleteDocument
proof (rule lasting_documents.intro)
  fix now
  show "document_contents (GetDocument (memory_ops now)) (mem_live now) (\<lambda>db. mem_expiration db = 0)
      (AppendDocument (memory_ops now)) mem_DeleteDocument"
    by (rule mem_contents.contents_on) (simp_all add: mem_ops_expiration)
qed (simp add: mem_live_no_expiry)

lemma sql_expiration_frame [simp]:
  "sql_expiration (sql_clean now db) = sql_expiration db"
  "sql_expiration (update_doc d f db) = sql_expiration db"
  by (simp_all add: sql_clean_def delete_tokens_def Let_def update_doc_def)

lemma sql_ops_expiration:
  "sql_expiration (fst (sql_get drv now db d mode init)) = sql_expiration db"
  "sql_expiration (fst (sql_AppendDocument drv now db d old new)) = sql_expiration db"
  "sql_expiration (fst (sql_DeleteDocument drv db d)) = sql_expiration db"
  by (auto simp: sql_get_def sql_GetDocument_def sql_AppendDocument_def sql_DeleteDocument_def Let_def
      insert_doc_def split: option.splits)

sublocale blob_driver \<subseteq> lasting: lasting_documents "sql_get drv" sql_live
  "\<lambda>db. tables_ok db \<and> sql_expiration db = 0" "sql_AppendDocument drv" "sql_DeleteDocument drv"
proof (rule lasting_documents.intro)
  fix now
  show "document_contents (sql_get drv now) (sql_live now) (\<lambda>db. tables_ok db \<and> sql_expiration db = 0)
      (sql_AppendDocument drv now) (sql_DeleteDocument drv)"
    by (rule docs.contents_on) (simp_all add: sql_ops_expiration docs.get_ok docs.append_ok docs.delete_ok)
qed (simp add: sql_live_def sql_clean_def fun_eq_iff)

context blob_driver
begin

lemmas sql_run_spec = lasting.run_docs_spec

end

text \<open>
  C8: As long as nothing expires, the memory and the SQL database cannot be told apart by
  calls on documents. With no expiration set in either database, a driver that reads blobs as
  they were written and stores any text, and the same documents at the start, any calls of \<open>GetDocument\<close> in the three modes, \<open>AppendDocument\<close> and
  \<open>DeleteDocument\<close> at any times have the same results, those of the specification, and leave
  the same documents.
\<close>

theorem databases_agree:
  assumes "blob_driver drv" and "tables_ok sdb" and "sql_expiration sdb = 0" and "mem_expiration mdb = 0"
    and "mem_live now mdb = sql_live now sdb" and "\<forall>(t, op)\<in>set ops. known_op op"
    and "run_docs (\<lambda>t. doc_do (mem_GetDocument t) (mem_AppendDocument t) mem_DeleteDocument) mdb ops = (mdb', rs)"
    and "run_docs (\<lambda>t. doc_do (sql_get drv t) (sql_AppendDocument drv t) (sql_DeleteDocument drv)) sdb ops = (sdb', rs')"
  shows "rs = rs' \<and> mem_live now mdb' = sql_live now sdb' \<and> (sql_live now sdb', rs') = spec_docs (sql_live now sdb) ops"
proof -
  have "(mem_live now mdb', rs) = spec_docs (mem_live now mdb) ops"
    using memory.run_docs_spec [OF assms(4,6), of now] assms(7) by (simp add: memory_ops_def)
  moreover have "(sql_live now sdb', rs') = spec_docs (sql_live now sdb) ops"
    using blob_driver.sql_run_spec [OF assms(1) _ assms(6), of sdb now] assms(2,3,8) by simp
  ultimately show ?thesis using assms(5) by (metis prod.inject)
qed

theorem databases_agree_witness:
  "snd (run_docs (\<lambda>t. doc_do (mem_GetDocument t) (mem_AppendDocument t) mem_DeleteDocument) NewMemoryDB
      [(Time 1, Get ''d'' 0 [1]), (Time 2, Append ''d'' 1 [2]), (Time 3, Get ''d'' 1 [])])
    = snd (run_docs (\<lambda>t. doc_do (sql_get sqlite_driver t) (sql_AppendDocument sqlite_driver t) (sql_DeleteDocument sqlite_driver))
      (NewSQLXConnection (Time 0) [] [] [])
      [(Time 1, Get ''d'' 0 [1]), (Time 2, Append ''d'' 1 [2]), (Time 3, Get ''d'' 1 [])])"
proof -
  let ?ops = "[(Time 1, Get ''d'' 0 [1]), (Time 2, Append ''d'' 1 [2]), (Time 3, Get ''d'' 1 [])]"
  let ?sdb = "NewSQLXConnection (Time 0) [] [] []"
  obtain mdb' rs where
    "run_docs (\<lambda>t. doc_do (mem_GetDocument t) (mem_AppendDocument t) mem_DeleteDocument) NewMemoryDB ?ops = (mdb', rs)"
    by (rule prod.exhaust)
  moreover obtain sdb' rs' where
    "run_docs (\<lambda>t. doc_do (sql_get sqlite_driver t) (sql_AppendDocument sqlite_driver t) (sql_DeleteDocument sqlite_driver)) ?sdb ?ops
       = (sdb', rs')"
    by (rule prod.exhaust)
  moreover have "tables_ok ?sdb" "sql_expiration ?sdb = 0" "mem_live (Time 0) NewMemoryDB = sql_live (Time 0) ?sdb"
    by (simp_all add: NewSQLXConnection_def sql_clean_def tables_ok_def mem_live_no_expiry NewMemoryDB_def
        sql_live_def find_doc_def fun_eq_iff)
  ultimately show ?thesis
    using databases_agree [OF sqlite.blob_driver_axioms, of ?sdb NewMemoryDB "Time 0" ?ops mdb' rs sdb' rs']
    by (simp add: go_defs NewMemoryDB_def)
qed

end
