(* ===== verification/SqlService.thy ===== *)
theory SqlService
  imports System Databases
begin

text \<open>
  The connections of \<open>client.go\<close> with the SQL database of \<open>sqlxdb.go\<close>. The handlers know the
  database only through its interface, so that what holds for every \<open>served_store\<close> holds
  here as soon as the driver reads blobs as they were written and the engine stores any text,
  as SQLite does. A panic of \<open>MustExec\<close> goes through \<open>SetDocumentKey\<close> and ends the connection;
  with a column \<open>version\<close> that takes every number too, no client can bring it about in a document
  that is there.
\<close>

section \<open>The SQL database as a store that is served\<close>

sublocale blob_driver \<subseteq> served: served_store "sql_ops drv" sql_live tables_ok False
  by (rule served_store.intro) (rule store.document_store_axioms)

lemma sql_ops_keep_expiration:
  "sql_expiration (fst (GetDocument (sql_ops drv now) db d mode init)) = sql_expiration db"
  "sql_expiration (fst (AppendDocument (sql_ops drv now) db d old new)) = sql_expiration db"
  "sql_expiration (fst (SetDocumentKey (sql_ops drv now) db d v k)) = sql_expiration db"
  "sql_expiration (fst (GetDocumentKeys (sql_ops drv now) db d)) = sql_expiration db"
  "sql_expiration (fst (GetToken (sql_ops drv now) db t)) = sql_expiration db"
  by (simp_all add: sql_ops_def sql_ops_expiration sql_SetKey_docs sql_GetDocumentKeys_def sql_GetToken_def)

text \<open>Without expiration, what the database holds does not depend on the time.\<close>

lemma sql_live_lasting: "sql_expiration db = 0 \<Longrightarrow> sql_live now db = sql_live now' db"
  by (simp add: sql_live_def sql_clean_def fun_eq_iff)

locale wide_driver = blob_driver +
  assumes any_version: "version_fits drv v"
begin

lemma key_of_live_document:
  assumes "sql_expiration db = 0" and "sql_live now db d \<noteq> None"
  shows "\<exists>e. snd (sql_SetDocumentKey drv db d v k) = Ok e"
proof -
  have "find_doc d db \<noteq> None" using assms by (simp add: sql_live_def sql_clean_def)
  then show ?thesis
    by (auto simp: sql_SetDocumentKey_def insert_key_def update_key_def any_version any_text fits_any split: option.splits)
qed

end

sublocale wide_driver \<subseteq> unexpired: lasting_store "sql_ops drv" sql_live "\<lambda>db. tables_ok db \<and> sql_expiration db = 0" False
proof (rule lasting_store.intro)
  show "served_store (sql_ops drv) sql_live (\<lambda>db. tables_ok db \<and> sql_expiration db = 0) False"
    by (intro served_store.intro store.store_on)
      (simp_all add: sql_ops_keep_expiration store.get_ok store.append_ok store.key_ok
        store.keys_ok store.token_ok)
  show "lasting_store_axioms (sql_ops drv) sql_live (\<lambda>db. tables_ok db \<and> sql_expiration db = 0)"
  proof
    fix db now now'
    assume "tables_ok db \<and> sql_expiration db = 0"
    then show "sql_live now db = sql_live now' db" using sql_live_lasting by blast
  next
    fix db now d v k
    assume "tables_ok db \<and> sql_expiration db = 0" "sql_live now db d \<noteq> None"
    then show "\<exists>e. snd (SetDocumentKey (sql_ops drv now) db d v k) = Ok e"
      using key_of_live_document by (simp add: sql_ops_def)
  qed
qed

context blob_driver
begin

lemmas sql_runClient = served.runClient_verdict

end

context wide_driver
begin

lemmas sql_serial_delivers = unexpired.serial_delivers

end

interpretation sqlite_wide: wide_driver sqlite_driver
  by unfold_locales (simp add: sqlite_driver_def)

section \<open>Connections\<close>

text \<open>
  C33: A connection with the SQL database, with any driver that reads blobs as they were
  written and stores any text, never hangs, keeps the hub in order and the constraints of the
  tables, and leaves its session when it ends. Two things only can make it panic: a first
  message that is an init message with an offset of 2 to the 63 or more, and a later message
  that sets a session key.
\<close>

theorem sql_connection_outcome:
  assumes "blob_driver drv" and "world_ok w" and "tables_ok (w_db w)" and "w_clients w r = None"
    and "\<forall>x\<in>set reads. read_ok x"
    and "runClient (sql_ops drv) jwt r reads end_time w = (w', v)"
  shows "v \<in> {Go_on, Hang_up, Panics} \<and> world_ok w' \<and> tables_ok (w_db w')
    \<and> (v \<noteq> Go_on \<longrightarrow> (\<forall>d. r \<notin> members (w_hub w') d))
    \<and> (v = Panics \<longrightarrow> session_key_read (tl reads)
        \<or> (\<exists>now message rest m. reads = (now, Ok message) # rest
            \<and> decodeInitMessage message = Ok m \<and> 2 ^ 63 \<le> im_Offset m))"
  using blob_driver.sql_runClient [OF assms(1-6)] unfolding int_of_u64_negative by blast

text \<open>A message that sets the session key \<open>k\<close>, which must not be there yet.\<close>

definition demo_key :: setKeyMessage where
  "demo_key = \<lparr>sk_MessageType = 3, sk_More = 0, sk_RequestID = 4,
     sk_Lifetime = 1, sk_OldVersion = 0, sk_NewVersion = 1, sk_NameLength = 1, sk_Name = ''k'',
     sk_ValueLength = 1, sk_Value = ''v''\<rparr>"

definition demo_key_bytes :: bytes where
  "demo_key_bytes = encode [] (setKeyMessage_refl demo_key)"

lemma demo_key_decode: "decode_setKeyMessage demo_key_bytes = Ok demo_key"
  unfolding demo_key_bytes_def
  by (rule setKeyMessage_roundtrip) (simp_all add: demo_key_def encode_enc setKeyMessage_refl_def)

theorem sql_connection_outcome_witness:
  "let (w', v) = runClient (sql_ops sqlite_driver) no_jwt 5
     [(Time 0, Ok (demo_init_bytes 0 0 ''d'' [1])), (Time 1, Ok demo_key_bytes)] (Time 2)
     \<lparr>w_db = demo_sql, w_hub = newHub, w_clients = Map.empty\<rparr>
   in world_ok w' \<and> tables_ok (w_db w')"
proof -
  let ?reads = "[(Time 0, Ok (demo_init_bytes 0 0 ''d'' [1])), (Time 1, Ok demo_key_bytes)]"
  let ?w = "\<lparr>w_db = demo_sql, w_hub = newHub, w_clients = Map.empty\<rparr>"
  obtain w' v where e: "runClient (sql_ops sqlite_driver) no_jwt 5 ?reads (Time 2) ?w = (w', v)"
    by (metis surj_pair)
  have w: "world_ok ?w" by (simp add: world_ok_def newHub_def ids_ok_def)
  have db: "tables_ok (w_db ?w)" by (simp add: demo_sql_ok)
  have r: "\<forall>x\<in>set ?reads. read_ok x"
    by (simp add: read_ok_def demo_init_length) (simp add: demo_key_bytes_def demo_key_def encode_enc setKeyMessage_refl_def)
  show ?thesis
    using sql_connection_outcome [OF sqlite.blob_driver_axioms w db _ r e] by (auto simp: e)
qed

text \<open>
  C35: Which messages panic, with any driver: one that sets a session key does if and only if
  the engine does not take the document ID or the name as a text, so that the query fails, or
  it has the key's current version (0 if there is none) and the row cannot be written, which
  panics in \<open>MustExec\<close>: the client's document is gone, deleted or expired while the client is
  connected, or the new version, the value, or in a new row the document ID or the name, does
  not fit its column.
\<close>

theorem sql_session_key_panics_iff:
  assumes "tables_ok (w_db w)" and "w_clients w r = Some c"
    and "sets_session_key data" and "decode_setKeyMessage data = Ok m"
    and "\<not> (has_prefix (sk_Name m) ''admin:'' \<and> \<not> cl_adminPermission c)"
  shows "snd (handle_message (sql_ops drv now) r data w) = Panics \<longleftrightarrow>
    \<not> takes_text drv (cl_docID c) \<or> \<not> takes_text drv (sk_Name m)
    \<or> uint (sk_OldVersion m) = current_version (w_db w) (cl_docID c) (sk_Name m)
      \<and> (find_doc (cl_docID c) (w_db w) = None \<or> \<not> version_fits drv (uint (sk_NewVersion m))
         \<or> \<not> fits drv Key_value (sk_Value m)
         \<or> find_key (cl_docID c) (sk_Name m) (w_db w) = None
           \<and> \<not> (text_fits drv Key_docID (cl_docID c) \<and> text_fits drv Key_name (sk_Name m)))"
proof -
  let ?key = "\<lparr>key_Version = uint (sk_NewVersion m), key_Name = sk_Name m, key_Value = sk_Value m\<rparr>"
  obtain db' res where k: "sql_SetDocumentKey drv (w_db w) (cl_docID c) (uint (sk_OldVersion m)) ?key = (db', res)"
    by (metis surj_pair)
  have "sk_Lifetime m \<noteq> 0" "data \<noteq> []" "hd data = setKeyMessageType"
    using assms(3,4) by (auto simp: sets_session_key_def)
  then have "snd (handle_message (sql_ops drv now) r data w) = Panics \<longleftrightarrow> res = Panic"
    using assms(2,4,5) k
    by (cases data) (auto simp: handle_message_def processSetKey_def set_key_def sql_ops_def go_defs Let_def
      split: outcome.splits option.splits)
  then show ?thesis
    using sql_SetKey_outcome [OF assms(1) refl, of drv "cl_docID c" ?key "uint (sk_OldVersion m)"] k
    by (auto simp: key_text_fits_def split: if_splits)
qed

text \<open>A client of document \<open>d\<close>, and that document deleted.\<close>

definition orphan_world :: "sqlDB world" where
  "orphan_world = \<lparr>w_db = fst (sql_DeleteDocument sqlite_driver demo_sql ''d''), w_hub = newHub,
      w_clients = Map.empty(5 \<mapsto> (new_client 5)\<lparr>cl_docID := ''d''\<rparr>)\<rparr>"

theorem sql_session_key_panics_iff_witness:
  "snd (handle_message (sql_ops sqlite_driver (Time 0)) 5 demo_key_bytes orphan_world) = Panics"
proof -
  have head: "demo_key_bytes \<noteq> [] \<and> hd demo_key_bytes = setKeyMessageType" by code_simp
  have db: "sql_docs (w_db orphan_world) = [] \<and> sql_keys (w_db orphan_world) = [] \<and> sql_tokens (w_db orphan_world) = []"
    by code_simp
  have c: "w_clients orphan_world 5 = Some ((new_client 5)\<lparr>cl_docID := ''d''\<rparr>)"
    by (simp add: orphan_world_def)
  have "tables_ok (w_db orphan_world)" using db by (simp add: tables_ok_def)
  then show ?thesis
    using sql_session_key_panics_iff [OF _ c, of demo_key_bytes demo_key sqlite_driver "Time 0"] demo_key_decode head db
    by (simp add: sets_session_key_def demo_key_def has_prefix_def current_version_def sql_keymap_def find_key_def find_doc_def)
qed

end
