(* ===== verification/RedisService.thy ===== *)
theory RedisService
  imports System RedisDB
begin

text \<open>
  The connections of \<open>client.go\<close> with the Redis database of \<open>redisdb.go\<close>, as long as no other
  server writes to the same Redis server. Redis satisfies the interface the handlers rely on
  but for one point: an append to an absent document creates it. No handler panics, since no
  operation the handlers call does; and a document that goes while its clients are connected
  can come back.
\<close>

section \<open>The Redis database as a store that is served\<close>

text \<open>Nothing in the store expires that a document is made of, and nothing will.\<close>

definition redis_lasts :: "redisDB \<times> redis_store \<Rightarrow> bool" where
  "redis_lasts = (\<lambda>(db, s). kinds_ok s \<and> getRedisExpiration db \<le> 0
     \<and> (\<forall>d e. s (getDocID d) = Some e \<longrightarrow> re_expires e = None))"

lemma redis_lasts_live:
  assumes "redis_lasts (db, s)"
  shows "redis_live now s = redis_live now' s"
proof -
  have "alive now s (getDocID d) = alive now' s (getDocID d)" for d
    using assms by (auto simp: redis_lasts_def alive_def split: option.splits)
  then show ?thesis by (simp add: redis_live_def cmd_get_def fun_eq_iff)
qed

lemma redis_lasts_upd:
  assumes "redis_lasts (db, s)" and "kinds_ok s'"
    and "\<And>d e. s' (getDocID d) = Some e \<Longrightarrow> s (getDocID d) = Some e \<or> re_expires e = None"
  shows "redis_lasts (db, s')"
  using assms by (fastforce simp: redis_lasts_def)

lemma redis_lasts_get: "redis_lasts dbs \<Longrightarrow> redis_lasts (fst (GetDocument (redis_ops lib now) dbs d mode init))"
  by (cases dbs)
    (auto simp: redis_ops_simps run_atomic_def redis_get_tx_def Let_def cmd_set_def redis_lasts_def
      intro!: kinds_upd split: sum.splits option.splits if_splits)

lemma redis_lasts_append: "redis_lasts dbs \<Longrightarrow> redis_lasts (fst (AppendDocument (redis_ops lib now) dbs d old new))"
  by (cases dbs)
    (auto simp: redis_ops_simps run_atomic_def redis_append_tx_def Let_def cmd_append_def redis_lasts_def
      intro!: kinds_upd dest: alive_Some split: sum.splits option.splits if_splits redis_value.splits)

lemma redis_lasts_key: "redis_lasts dbs \<Longrightarrow> redis_lasts (fst (SetDocumentKey (redis_ops lib now) dbs d v k))"
  by (cases dbs)
    (auto simp: redis_ops_simps run_atomic_def redis_key_tx_def Let_def cmd_hset_def redis_lasts_def
      intro!: kinds_upd split: sum.splits option.splits if_splits redis_value.splits)

sublocale redis_client \<subseteq> served: served_store "redis_ops lib" "\<lambda>now (db, s). redis_live now s"
    "\<lambda>(db, s). kinds_ok s" True
  by (rule served_store.intro) (rule store.document_store_axioms)

sublocale redis_client \<subseteq> unexpired: lasting_store "redis_ops lib" "\<lambda>now (db, s). redis_live now s"
    redis_lasts True
proof (rule lasting_store.intro)
  show "served_store (redis_ops lib) (\<lambda>now (db, s). redis_live now s) redis_lasts True"
    by (intro served_store.intro store.store_on)
      (auto simp: redis_lasts_get redis_lasts_append redis_lasts_key redis_ops_simps(4,5), simp add: redis_lasts_def)
  show "lasting_store_axioms (redis_ops lib) (\<lambda>now (db, s). redis_live now s) redis_lasts"
    by unfold_locales
      (auto simp: redis_ops_simps intro: redis_lasts_live [THEN fun_cong] split: sum.splits prod.splits)
qed

context redis_client
begin

lemmas redis_runClient = served.runClient_verdict

lemmas redis_serial_delivers = unexpired.serial_delivers

lemmas redis_processAppend_cases = store.processAppend_cases

end

lemma redis_no_key_panics: "\<not> key_panics (redis_ops lib) ok"
  by (auto simp: key_panics_def redis_ops_def)

section \<open>Documents that come back\<close>

text \<open>
  C40: With Redis, an append of a client that is still connected brings back a document that
  was deleted or has expired meanwhile, if it is at offset 0: where the other databases answer
  that the document does not exist, the document is there again, with the data of the append.
  A client that may only read does it too; its data is dropped, and the document is empty.
\<close>

theorem redis_append_recreates_document:
  assumes "redis_client lib" and "w_db w = (db, s)" and "kinds_ok s" and "redis_live now s (cl_docID c) = None"
    and "decodeAppendMessage data = Ok m" and "ap_Offset m = 0"
  shows "\<exists>w' s'. processAppend (redis_ops lib now) r c data w = (w', Go_on) \<and> w_db w' = (db, s')
    \<and> redis_live now s' = (redis_live now s)(cl_docID c \<mapsto> if cl_writePermission c then ap_Data m else [])"
proof -
  let ?data = "if cl_writePermission c then ap_Data m else []"
  have "finds True (redis_live now s (cl_docID c)) []" using assms(4) by (simp add: finds_def)
  then obtain s' where a: "AppendDocument (redis_ops lib now) (db, s) (cl_docID c) 0 ?data = ((db, s'), u64_len ?data, None)"
      and live: "redis_live now s' = (redis_live now s)(cl_docID c \<mapsto> ?data)"
    using redis_client.redis_append [OF assms(1,3), of now "cl_docID c" "[]" db 0 ?data] by (auto simp: u64_len_def)
  have "\<exists>w'. processAppend (redis_ops lib now) r c data w = (w', Go_on) \<and> w_db w' = (db, s')"
    using a by (cases "cl_writePermission c") (simp_all add: processAppend_def assms(2,5,6) Let_def)
  with live show ?thesis by blast
qed

definition demo_redis :: "redisDB \<times> redis_store" where
  "demo_redis = (newGeneralRedisDB False, Map.empty)"

theorem redis_append_recreates_document_witness:
  "\<exists>w' s'. processAppend (redis_ops demo_lib (Time 0)) 5 ((new_client 5)\<lparr>cl_docID := ''d''\<rparr>) (demo_append 0)
       \<lparr>w_db = demo_redis, w_hub = newHub, w_clients = Map.empty\<rparr> = (w', Go_on)
     \<and> w_db w' = (newGeneralRedisDB False, s') \<and> redis_live (Time 0) s' ''d'' = Some []"
proof -
  let ?w = "\<lparr>w_db = demo_redis, w_hub = newHub, w_clients = Map.empty\<rparr>"
  obtain m where m: "decodeAppendMessage (demo_append 0) = Ok m" "ap_Offset m = 0"
    using demo_append_decode [of 0] by auto
  have "redis_live (Time 0) Map.empty ''d'' = None" by (simp add: redis_live_def cmd_get_def alive_def)
  then show ?thesis
    using redis_append_recreates_document [OF demo_redis.redis_client_axioms, of ?w "newGeneralRedisDB False" Map.empty
        "Time 0" "(new_client 5)\<lparr>cl_docID := ''d''\<rparr>" "demo_append 0" m 5] m
    by (auto simp: demo_redis_def kinds_ok_def new_client_def)
qed

end
