(* ===== verification/Protocol.thy ===== *)
theory Protocol
  imports Framing
begin

text \<open>
  The properties of the wire protocol: what one side encodes and frames, the other side
  reads back; decoding any input ends in a message or an error; and the frame sizes for
  which sending cannot work.
\<close>

section \<open>Decoding\<close>

text \<open>
  C5: No input makes the decoder of a client's message panic or run forever: whatever bytes
  a client sends, it returns a message or an error. (The first byte is read before, and
  \<open>readMessage\<close> never returns fewer than two.)
\<close>

theorem decode_client_messages_safe:
  assumes "length data < 2 ^ 62" and "data \<noteq> []"
  shows "safe (decodeInitMessage data) \<and> safe (decodeAppendMessage data)
    \<and> safe (decode_setKeyMessage data) \<and> safe (decode_broadcastMessage data)"
  using decodeInitMessage_safe decodeAppendMessage_safe decode_setKeyMessage_safe
    decode_broadcastMessage_safe assms by blast

theorem decode_client_messages_safe_witness:
  "safe (decode_setKeyMessage [3, 0, 0, 1, 1, 0, 0, 0, 0, 0, 0, 0, 1, 255, 255, 255, 255, 65])"
  using decode_client_messages_safe
    [of "[3, 0, 0, 1, 1, 0, 0, 0, 0, 0, 0, 0, 1, 255, 255, 255, 255, 65]"] by simp

text \<open>
  C21: An init message of version 3, and one of version 2, encoded by a client is decoded to
  the same field values; version 2 gets generation 0.
\<close>

theorem init_message_roundtrip:
  assumes "im_ProtocolVersion m = 3" and "unat (im_DocIDLength m) = length (im_DocID m)"
    and "length (encode [] (initMessage_refl m)) < 2 ^ 63"
    and "im2_MessageType m2 = initMessageType" and "im2_ProtocolVersion m2 = 2"
    and "unat (im2_DocIDLength m2) = length (im2_DocID m2)"
    and "length (encode [] (initMessageV2_refl m2)) < 2 ^ 63"
  shows "decodeInitMessage (encode [] (initMessage_refl m)) = Ok m
    \<and> decodeInitMessage (encode [] (initMessageV2_refl m2)) = Ok (init_of_V2 m2)"
  using decodeInitMessage_V2 decodeInitMessage_V3 assms by blast

theorem init_message_roundtrip_witness:
  "let m = \<lparr>im_MessageType = 1, im_More = 0, im_ProtocolVersion = 3, im_MaxMessageSize = 1000,
        im_CreationMode = 2, im_Generation = 9, im_Offset = 77, im_DocIDLength = 3,
        im_DocID = ''doc'', im_Data = [1, 2]\<rparr>
   in decodeInitMessage (encode [] (initMessage_refl m)) = Ok m"
proof -
  let ?m = "\<lparr>im_MessageType = 1, im_More = 0, im_ProtocolVersion = 3, im_MaxMessageSize = 1000,
        im_CreationMode = 2, im_Generation = 9, im_Offset = 77, im_DocIDLength = 3,
        im_DocID = ''doc'', im_Data = [1, 2]\<rparr>"
  let ?m2 = "\<lparr>im2_MessageType = 1, im2_More = 0, im2_ProtocolVersion = 2, im2_MaxMessageSize = 0,
        im2_CreationMode = 0, im2_Offset = 0, im2_DocIDLength = 1, im2_DocID = ''x'',
        im2_Data = []\<rparr>"
  from init_message_roundtrip [of ?m ?m2] show ?thesis
    by (simp add: go_defs encode_enc initMessage_refl_def initMessageV2_refl_def)
qed

text \<open>
  An append message of either version, a broadcast and a set-key message survive the
  trip too, whatever data, name and value they carry.
\<close>

theorem client_message_roundtrip:
  assumes "ap_MessageType m = appendMessageType" and "length (encode [] (appendMessage_refl m)) < 2 ^ 63"
    and "ap2_MessageType m2 = appendV2MessageType"
    and "length (encode [] (appendMessageV2_refl m2)) < 2 ^ 63"
    and "length (encode [] (broadcastMessage_refl b)) < 2 ^ 63"
    and "unat (sk_NameLength k) = length (sk_Name k)" and "unat (sk_ValueLength k) = length (sk_Value k)"
    and "length (encode [] (setKeyMessage_refl k)) < 2 ^ 63"
  shows "decodeAppendMessage (encode [] (appendMessage_refl m)) = Ok m
    \<and> decodeAppendMessage (encode [] (appendMessageV2_refl m2)) = Ok (append_of_V2 m2)
    \<and> decode_broadcastMessage (encode [] (broadcastMessage_refl b)) = Ok b
    \<and> decode_setKeyMessage (encode [] (setKeyMessage_refl k)) = Ok k"
  using decodeAppendMessage_V2 decodeAppendMessage_V3 broadcastMessage_roundtrip
    setKeyMessage_roundtrip assms by blast

theorem client_message_roundtrip_witness:
  "let k = \<lparr>sk_MessageType = 3, sk_More = 0, sk_RequestID = 4, sk_Lifetime = 1, sk_OldVersion = 0,
        sk_NewVersion = 1, sk_NameLength = 2, sk_Name = ''ab'', sk_ValueLength = 1, sk_Value = ''v''\<rparr>
   in decode_setKeyMessage (encode [] (setKeyMessage_refl k)) = Ok k"
proof -
  let ?m = "\<lparr>ap_MessageType = 5, ap_More = 0, ap_Generation = 0, ap_Offset = 3, ap_Data = [1]\<rparr>"
  let ?m2 = "\<lparr>ap2_MessageType = 2, ap2_More = 0, ap2_Offset = 3, ap2_Data = []\<rparr>"
  let ?b = "\<lparr>bm_MessageType = 4, bm_More = 0, bm_DataLength = 1, bm_Data = [8]\<rparr>"
  let ?k = "\<lparr>sk_MessageType = 3, sk_More = 0, sk_RequestID = 4, sk_Lifetime = 1, sk_OldVersion = 0,
        sk_NewVersion = 1, sk_NameLength = 2, sk_Name = ''ab'', sk_ValueLength = 1, sk_Value = ''v''\<rparr>"
  from client_message_roundtrip [of ?m ?m2 ?b ?k] show ?thesis
    by (simp add: go_defs encode_enc appendMessage_refl_def appendMessageV2_refl_def
        broadcastMessage_refl_def setKeyMessage_refl_def)
qed

section \<open>Frames\<close>

text \<open>
  C6: For a maximum message size of at least 3 and a network that accepts every frame, the
  sender returns; every frame it wrote is between 2 bytes and the maximum; and the reader
  puts the message together again, with only its ``more'' byte (which the sender
  overwrites) changed, and leaves the frames of the next message alone.
\<close>

theorem sendMessage_readMessage:
  assumes "3 \<le> maxSize" and "2 \<le> length data" and "\<And>k. nw k"
  shows "\<exists>frames. sendMessage nw data maxSize = Some (frames, Ok ())
    \<and> (\<forall>f\<in>set frames. 2 \<le> length f \<and> int (length f) \<le> maxSize)
    \<and> (\<forall>next. readMessage (frames @ next) = Ok (data[1 := more_flag data maxSize], next))"
  using sendMessage_frames [OF assms(1,2), of nw] all_frames_length [OF assms(1,2)]
    readMessage_all_frames [OF assms(1,2)] assms(3)
  by (auto simp: sent_prefix_def)

theorem sendMessage_readMessage_witness:
  "\<exists>frames. sendMessage (\<lambda>_. True) [5, 0, 1, 2, 3, 4, 5, 6] 4 = Some (frames, Ok ())
     \<and> readMessage frames = Ok ([5, 1, 1, 2, 3, 4, 5, 6], [])"
  using sendMessage_readMessage [of 4 "[5, 0, 1, 2, 3, 4, 5, 6]" "\<lambda>_. True"]
  by (auto simp: more_flag_def dest: spec [of _ "[]"])

text \<open>
  C31: A client may ask for a maximum message size of 2, which the init message allows. Then
  the sender never returns from the first message longer than that: it writes empty
  continuation frames for ever. With a maximum of 1 it panics.
\<close>

theorem sendMessage_tiny_maximum:
  assumes "2 < length data" and "\<And>k. nw k"
  shows "sendMessage nw data 2 = None
    \<and> (\<exists>frames. sendMessage nw data 1 = Some (frames, Panic))"
proof -
  have d: "drop (nat 2) (data[1 := 1]) \<noteq> []" using assms(1) by simp
  have "sendMessage nw data 2 = send_rest nw 0 [take (nat 2) (data[1 := 1])] (drop (nat 2) (data[1 := 1])) 2"
    using assms(1) by (simp add: sendMessage_def Let_def)
  also have "\<dots> = None"
    by (rule send_rest_two [OF assms(2) d])
  finally have "sendMessage nw data 2 = None" .
  moreover have "sendMessage nw data 1 = Some ([take 1 (data[1 := 1])], Panic)"
    using assms by (simp add: sendMessage_def Let_def) (subst send_rest.simps, auto)
  ultimately show ?thesis by blast
qed

theorem sendMessage_tiny_maximum_witness:
  "sendMessage (\<lambda>_. True) (encode [] (ackNackMessage_refl
     \<lparr>an_MessageType = 0x81, an_More = 0, an_Ack = 1, an_Offset = 5\<rparr>)) 2 = None"
  using sendMessage_tiny_maximum [of "encode [] (ackNackMessage_refl
     \<lparr>an_MessageType = 0x81, an_More = 0, an_Ack = 1, an_Offset = 5\<rparr>)" "\<lambda>_. True"]
  by (simp add: encode_enc ackNackMessage_refl_def)

end
