(* ===== verification/Collaboration.thy ===== *)
theory Collaboration
  imports SqlService RedisService Protocol
begin

text \<open>
  The parts put together. From the frames a client sends to the verdict on its connection;
  from the handlers of many clients, through their queues, writers and frames, to the copies
  of the document at the other ends; with the memory, the SQL and the Redis database.
\<close>

section \<open>Connections fed with frames\<close>

lemma reads_of_framed:
  assumes "well_framed False frames" and "frame_bytes frames < 2 ^ 62"
  shows "\<forall>x\<in>set (reads_of nows frames). read_ok x"
  using assms
proof (induction nows arbitrary: frames)
  case (Cons now nows)
  consider (error) "readMessage frames = Err read_error"
    | (message) m rest where "readMessage frames = Ok (m, rest)" "well_framed False rest" "2 \<le> length m"
        "length m + frame_bytes rest \<le> frame_bytes frames"
    using readMessage_loop_framed [of None frames] Cons.prems(1) by (auto simp: readMessage_def)
  then show ?case
  proof cases
    case message
    with Cons.IH [of rest] Cons.prems(2) show ?thesis by (simp add: read_ok_def)
  qed (simp add: read_ok_def)
qed simp

text \<open>The connection from its frames to its end, with any database in which no key panics.\<close>

context served_store
begin

lemma frames_verdict:
  assumes "world_ok w" and "ok (w_db w)" and "w_clients w r = None" and "\<not> key_panics ops_at ok"
    and "well_framed False frames" and "frame_bytes frames < 2 ^ 62"
    and run: "runClient ops_at jwt r (reads_of nows frames) end_time w = (w', v)"
  shows "v \<in> {Go_on, Hang_up, Panics} \<and> world_ok w' \<and> ok (w_db w')
    \<and> (v \<noteq> Go_on \<longrightarrow> (\<forall>d. r \<notin> members (w_hub w') d))
    \<and> (v = Panics \<longrightarrow> (\<exists>message rest m. readMessage frames = Ok (message, rest)
          \<and> decodeInitMessage message = Ok m \<and> 2 ^ 63 \<le> im_Offset m))"
proof -
  have "\<exists>rest. readMessage frames = outcome.Ok (message, rest)"
    if "reads_of nows frames = (now, outcome.Ok message) # more" for now message more
    using that by (cases nows) (auto split: outcome.splits)
  then show ?thesis
    using runClient_verdict [OF assms(1-3) reads_of_framed [OF assms(5,6)] run] assms(4)
    by (auto simp: int_of_u64_negative)
qed

end

text \<open>
  C1: A client that frames its messages as the protocol says, whatever bytes it puts in them,
  cannot make the server hang, and can make it panic with nothing but an init message whose
  offset is 2 to the 63 or more (which does panic it if the document exists, see C39): the
  connection of the memory database, from the frames to its end, is served or hung up, or
  panics at such a message. However it ends, the hub is in order afterwards, and a connection
  that has ended is in no session.
\<close>

theorem connection_frames_safe:
  assumes "world_ok w" and "w_clients w r = None"
    and "well_framed False frames" and "frame_bytes frames < 2 ^ 62"
    and "runClient memory_ops jwt r (reads_of nows frames) end_time w = (w', v)"
  shows "v \<in> {Go_on, Hang_up, Panics} \<and> world_ok w'
    \<and> (v \<noteq> Go_on \<longrightarrow> (\<forall>d. r \<notin> members (w_hub w') d))
    \<and> (v = Panics \<longrightarrow> (\<exists>message rest m. readMessage frames = Ok (message, rest)
          \<and> decodeInitMessage message = Ok m \<and> 2 ^ 63 \<le> im_Offset m))"
  using memory.frames_verdict [OF assms(1) TrueI assms(2) memory_no_key_panics assms(3-5)] by blast

text \<open>An init message in two frames and an append.\<close>

definition demo_frames :: "bytes list" where
  "demo_frames = all_frames (demo_init_bytes 0 1 ''d'' []) 20 @ all_frames (demo_append 2) 20"

lemma demo_framed:
  "well_framed False demo_frames" "frame_bytes demo_frames < 2 ^ 62"
  "readMessage demo_frames = Ok (message, rest) \<Longrightarrow> decodeInitMessage message = Ok m \<Longrightarrow> im_Offset m < 2 ^ 63"
proof -
  have "well_framed False demo_frames \<and> frame_bytes demo_frames < 100
      \<and> (case readMessage demo_frames of Ok (m, _) \<Rightarrow>
           (case decodeInitMessage m of Ok i \<Rightarrow> im_Offset i = 1 | _ \<Rightarrow> False) | _ \<Rightarrow> False)"
    by code_simp
  then show "well_framed False demo_frames" "frame_bytes demo_frames < 2 ^ 62"
    "readMessage demo_frames = Ok (message, rest) \<Longrightarrow> decodeInitMessage message = Ok m \<Longrightarrow> im_Offset m < 2 ^ 63"
    by simp_all
qed

theorem connection_frames_safe_witness:
  "snd (runClient memory_ops no_jwt 9 (reads_of [Time 0, Time 1, Time 2] demo_frames) (Time 3) demo_world)
     \<in> {Go_on, Hang_up}"
proof -
  obtain w' v where e:
    "runClient memory_ops no_jwt 9 (reads_of [Time 0, Time 1, Time 2] demo_frames) (Time 3) demo_world = (w', v)"
    by (metis surj_pair)
  have "v \<in> {Go_on, Hang_up}"
    using connection_frames_safe [OF demo_world_ok demo_world_clients(3) demo_framed(1,2) e] demo_framed(3)
    by (auto simp: not_le [symmetric])
  then show ?thesis by (simp only: e snd_conv)
qed

context redis_client
begin

lemmas redis_frames = served.frames_verdict

end

section \<open>Copies of the document\<close>

text \<open>
  C2: As long as handlers do not interleave and no document is deleted or expires,
  collaboration works from end to end. Take any execution that starts with an empty memory
  database, and a client of a document with a maximum message size of at least 3. When its
  writer has written all that was queued for it, and waits, the frames written, joined again
  at the other end and replayed on what the client had when it connected (what its init
  message creates the document with, or as many bytes as it says), with its own appends as
  they are acknowledged, give exactly the document in the database, and each of its appends
  has been answered. So the copies of all clients agree.
\<close>

theorem clients_converge:
  assumes "serial memory_ops NewMemoryDB log w"
    and "r \<in> members (w_hub w) d" and "w_clients w r = Some c" and "3 \<le> cl_maxSize c"
    and "mem_live now (w_db w) d = Some doc" and "length doc < 2 ^ 62"
    and "queued_by es = cl_queued c" and "\<And>n. Fail n \<notin> set es"
    and "wr_pc (writer_run (new_client r) es) = Waiting"
  shows "\<exists>start frames. starts r log start
    \<and> transmit (wr_sent (writer_run (new_client r) es)) (cl_maxSize c) = Some frames
    \<and> replay (read_all frames) (start, sent_by r log) = Some (doc, [])"
  by (rule lasting.serial_delivers [OF assms(1) _ assms(2,3,5-9,4)]) (simp add: NewMemoryDB_def)

theorem clients_converge_witness:
  "\<exists>c start frames. w_clients (both_appended memory_ops NewMemoryDB) 6 = Some c \<and> starts 6 shared_log start
     \<and> transmit (wr_sent (writer_run (new_client 6) (write_out (cl_queued c)))) (cl_maxSize c) = Some frames
     \<and> replay (read_all frames) (start, sent_by 6 shared_log) = Some ([1, 2, 7, 7], [])"
proof -
  let ?w = "both_appended memory_ops NewMemoryDB"
  have doc: "6 \<in> members (w_hub ?w) ''d''" "mem_live (Time 9) (w_db ?w) ''d'' = Some [1, 2, 7, 7]" by code_simp+
  have "(case w_clients ?w 6 of None \<Rightarrow> False | Some c \<Rightarrow> 3 \<le> cl_maxSize c)" by code_simp
  then obtain c where c: "w_clients ?w 6 = Some c" "3 \<le> cl_maxSize c" by (auto split: option.splits)
  have "length ([1, 2, 7, 7] :: bytes) < 2 ^ 62" by simp
  with clients_converge [OF memory_serial doc(1) c doc(2), of "write_out (cl_queued c)"] write_out_done [of "cl_queued c"] c(1)
  show ?thesis by blast
qed

text \<open>The same clients with empty tables in SQLite.\<close>

definition demo_tables :: sqlDB where
  "demo_tables = NewSQLXConnection (Time 0) [] [] []"

lemma demo_tables_ok: "tables_ok demo_tables" "sql_expiration demo_tables = 0"
  by code_simp+

lemma sql_serial: "serial (sql_ops sqlite_driver) demo_tables shared_log (both_appended (sql_ops sqlite_driver) demo_tables)"
proof (rule both_appended_serial)
  show "w_clients (one_connected (sql_ops sqlite_driver) demo_tables) 6 = None" by code_simp
  show "joined (both_connected (sql_ops sqlite_driver) demo_tables) 5" by (rule joined_eval) code_simp
  show "joined (one_appended (sql_ops sqlite_driver) demo_tables) 6" by (rule joined_eval) code_simp
qed

text \<open>
  C3: Collaboration works from end to end with the SQL database too: with any driver that reads
  blobs as they were written and an engine that stores any text and every version, as SQLite
  does, and from any tables in order that do not expire, the frames written for a client, joined and replayed on what it had when it
  connected, give exactly the document in the tables.
\<close>

theorem sql_clients_converge:
  assumes "wide_driver drv" and "tables_ok db0" and "sql_expiration db0 = 0"
    and "serial (sql_ops drv) db0 log w"
    and "r \<in> members (w_hub w) d" and "w_clients w r = Some c" and "3 \<le> cl_maxSize c"
    and "sql_live now (w_db w) d = Some doc" and "length doc < 2 ^ 62"
    and "queued_by es = cl_queued c" and "\<And>n. Fail n \<notin> set es"
    and "wr_pc (writer_run (new_client r) es) = Waiting"
  shows "\<exists>start frames. starts r log start
    \<and> transmit (wr_sent (writer_run (new_client r) es)) (cl_maxSize c) = Some frames
    \<and> replay (read_all frames) (start, sent_by r log) = Some (doc, [])"
  by (rule wide_driver.sql_serial_delivers [OF assms(1,4) _ assms(5,6,8-12,7)]) (simp add: assms(2,3))

theorem sql_clients_converge_witness:
  "\<exists>c start frames. w_clients (both_appended (sql_ops sqlite_driver) demo_tables) 6 = Some c \<and> starts 6 shared_log start
     \<and> transmit (wr_sent (writer_run (new_client 6) (write_out (cl_queued c)))) (cl_maxSize c) = Some frames
     \<and> replay (read_all frames) (start, sent_by 6 shared_log) = Some ([1, 2, 7, 7], [])"
proof -
  let ?w = "both_appended (sql_ops sqlite_driver) demo_tables"
  have doc: "6 \<in> members (w_hub ?w) ''d''" "sql_live (Time 9) (w_db ?w) ''d'' = Some [1, 2, 7, 7]" by code_simp+
  have "(case w_clients ?w 6 of None \<Rightarrow> False | Some c \<Rightarrow> 3 \<le> cl_maxSize c)" by code_simp
  then obtain c where c: "w_clients ?w 6 = Some c" "3 \<le> cl_maxSize c" by (auto split: option.splits)
  have "length ([1, 2, 7, 7] :: bytes) < 2 ^ 62" by simp
  with sql_clients_converge [OF sqlite_wide.wide_driver_axioms demo_tables_ok sql_serial doc(1) c doc(2),
      of "write_out (cl_queued c)"] write_out_done [of "cl_queued c"] c(1)
  show ?thesis by blast
qed

section \<open>Redis\<close>

lemma redis_serial: "serial (redis_ops demo_lib) demo_redis shared_log (both_appended (redis_ops demo_lib) demo_redis)"
proof (rule both_appended_serial)
  show "w_clients (one_connected (redis_ops demo_lib) demo_redis) 6 = None" by code_simp
  show "joined (both_connected (redis_ops demo_lib) demo_redis) 5" by (rule joined_eval) code_simp
  show "joined (one_appended (redis_ops demo_lib) demo_redis) 6" by (rule joined_eval) code_simp
qed



text \<open>
  A connection with Redis is as safe as one with memory: whatever bytes a client puts in its
  frames, the connection does not hang, and panics at nothing but an init message with an offset
  of 2 to the 63 or more; values keep the right kinds, and a connection that has ended is in no
  session.
\<close>

theorem redis_frames_safe:
  assumes "redis_client lib" and "world_ok w" and "kinds_ok (snd (w_db w))" and "w_clients w r = None"
    and "well_framed False frames" and "frame_bytes frames < 2 ^ 62"
    and "runClient (redis_ops lib) jwt r (reads_of nows frames) end_time w = (w', v)"
  shows "v \<in> {Go_on, Hang_up, Panics} \<and> world_ok w' \<and> kinds_ok (snd (w_db w'))
    \<and> (v \<noteq> Go_on \<longrightarrow> (\<forall>d. r \<notin> members (w_hub w') d))
    \<and> (v = Panics \<longrightarrow> (\<exists>message rest m. readMessage frames = Ok (message, rest)
          \<and> decodeInitMessage message = Ok m \<and> 2 ^ 63 \<le> im_Offset m))"
  using redis_client.redis_frames [OF assms(1,2) _ assms(4) redis_no_key_panics assms(5-7)] assms(3)
  by (simp add: case_prod_beta)

theorem redis_frames_safe_witness:
  "snd (runClient (redis_ops demo_lib) no_jwt 9 (reads_of [Time 0, Time 1, Time 2] demo_frames) (Time 3)
     \<lparr>w_db = demo_redis, w_hub = newHub, w_clients = Map.empty\<rparr>) \<in> {Go_on, Hang_up}"
proof -
  let ?w = "\<lparr>w_db = demo_redis, w_hub = newHub, w_clients = Map.empty\<rparr>"
  obtain w' v where e:
    "runClient (redis_ops demo_lib) no_jwt 9 (reads_of [Time 0, Time 1, Time 2] demo_frames) (Time 3) ?w = (w', v)"
    by (metis surj_pair)
  have w: "world_ok ?w" by (simp add: world_ok_def newHub_def ids_ok_def)
  have k: "kinds_ok (snd (w_db ?w))" by (simp add: demo_redis_def kinds_ok_def)
  have "v \<in> {Go_on, Hang_up}"
    using redis_frames_safe [OF demo_redis.redis_client_axioms w k _ demo_framed(1,2) e] demo_framed(3)
    by (auto simp: not_le [symmetric])
  then show ?thesis by (simp only: e snd_conv)
qed

end
