(* ===== verification/SqlSchemas.thy ===== *)
theory SqlSchemas
  imports SqlxDB
begin

text \<open>
  The schemas and connections of \<open>sqlitedb.go\<close>, \<open>mariadb.go\<close>, \<open>mysql.go\<close> and
  \<open>postgresql.go\<close>. The schemas are data: statements with the names and types of the source.
  The three declare the same tables with the same constraints, which are those that the
  statements of \<open>SqlxDB\<close> check, and differ in the types of columns. What the drivers do with
  a connection string and with several statements at once is a parameter.
\<close>

section \<open>Schemas\<close>

datatype column_option = Primary_key | Unique

datatype table_constraint = Unique_columns "string list"
  | Cascading_reference string string string

datatype statement = Pragma string
  | Create_table string "(string \<times> string \<times> column_option list) list" "table_constraint list"
  | Create_index string string string

definition sqliteSchema :: "statement list" where
  "sqliteSchema = [
     Pragma ''foreign_keys=ON'',
     Create_table ''ZwibblerDocs''
       [(''docid'', ''TEXT'', [Primary_key]), (''lastAccess'', ''INTEGER'', []), (''data'', ''BLOB'', [])] [],
     Create_table ''ZwibblerKeys''
       [(''docID'', ''TEXT'', []), (''name'', ''TEXT'', []), (''value'', ''TEXT'', []), (''version'', ''NUMBER'', [])]
       [Unique_columns [''docID'', ''name''], Cascading_reference ''docID'' ''ZwibblerDocs'' ''docID''],
     Create_table ''ZwibblerTokens''
       [(''tokenID'', ''TEXT'', [Unique]), (''docID'', ''TEXT'', []), (''userID'', ''TEXT'', []),
        (''permissions'', ''TEXT'', []), (''expiration'', ''INTEGER'', [])] [],
     Create_index ''ZwibblerTokenUserIndex'' ''ZwibblerTokens'' ''userID'']"

definition mariadbSchema :: "statement list" where
  "mariadbSchema = [
     Create_table ''ZwibblerDocs''
       [(''docID'', ''TEXT'', [Primary_key]), (''lastAccess'', ''BIGINT'', []), (''data'', ''LONGBLOB'', [])] [],
     Create_table ''ZwibblerKeys''
       [(''docID'', ''TEXT'', []), (''name'', ''TEXT'', []), (''value'', ''MEDIUMTEXT'', []), (''version'', ''INT'', [])]
       [Unique_columns [''docID'', ''name''], Cascading_reference ''docID'' ''ZwibblerDocs'' ''docid''],
     Create_table ''ZwibblerTokens''
       [(''tokenID'', ''TEXT'', [Unique]), (''docID'', ''TEXT'', []), (''userID'', ''TEXT'', []),
        (''permissions'', ''TEXT'', []), (''expiration'', ''BIGINT'', [])] [],
     Create_index ''ZwibblerTokenUserIndex'' ''ZwibblerTokens'' ''userID'']"

definition mysqlSchema :: "statement list" where
  "mysqlSchema = mariadbSchema"

definition postgresqlSchema :: "statement list" where
  "postgresqlSchema = [
     Create_table ''ZwibblerDocs''
       [(''docid'', ''TEXT'', [Primary_key]), (''lastAccess'', ''BIGINT'', []), (''data'', ''BYTEA'', [])] [],
     Create_table ''ZwibblerKeys''
       [(''docID'', ''TEXT'', []), (''name'', ''TEXT'', []), (''value'', ''TEXT'', []), (''version'', ''INT'', [])]
       [Unique_columns [''docID'', ''name''], Cascading_reference ''docID'' ''ZwibblerDocs'' ''docID''],
     Create_table ''ZwibblerTokens''
       [(''tokenID'', ''TEXT'', [Unique]), (''docID'', ''TEXT'', []), (''userID'', ''TEXT'', []),
        (''permissions'', ''TEXT'', []), (''expiration'', ''BIGINT'', [])] [],
     Create_index ''ZwibblerTokenUserIndex'' ''ZwibblerTokens'' ''userID'']"

section \<open>Connections\<close>

text \<open>The arguments of \<open>NewSQLXConnection\<close>.\<close>

record sql_connection =
  sc_driverName :: string
  sc_dataSourceName :: string
  sc_schema :: "statement list"
  sc_maxOpenConnections :: int
  sc_rebind :: bool

definition NewSQLITEDB :: "string \<Rightarrow> sql_connection" where
  "NewSQLITEDB filename = \<lparr>sc_driverName = ''sqlite3'',
     sc_dataSourceName = ''file:'' @ filename @ ''?_busy_timeout=5000&mode=rwc&_journal_mode=WAL&cache=shared'',
     sc_schema = sqliteSchema, sc_maxOpenConnections = 1, sc_rebind = False\<rparr>"

definition NewMariaDBConnection :: "string \<Rightarrow> string \<Rightarrow> string \<Rightarrow> string \<Rightarrow> sql_connection" where
  "NewMariaDBConnection server user password dbname = \<lparr>sc_driverName = ''mysql'',
     sc_dataSourceName = user @ '':'' @ password @ ''@('' @ server @ '')/'' @ dbname @ ''?multiStatements=true'',
     sc_schema = mariadbSchema, sc_maxOpenConnections = 1, sc_rebind = False\<rparr>"

definition NewMySQLConnection :: "string \<Rightarrow> string \<Rightarrow> string \<Rightarrow> string \<Rightarrow> sql_connection" where
  "NewMySQLConnection server user password dbname = \<lparr>sc_driverName = ''mysql'',
     sc_dataSourceName = user @ '':'' @ password @ ''@('' @ server @ '')/'' @ dbname,
     sc_schema = mysqlSchema, sc_maxOpenConnections = 1, sc_rebind = False\<rparr>"

definition NewPostgreSQLConnection :: "string \<Rightarrow> string \<Rightarrow> string \<Rightarrow> string \<Rightarrow> sql_connection" where
  "NewPostgreSQLConnection server user password dbname = \<lparr>sc_driverName = ''postgres'',
     sc_dataSourceName = ''postgres://'' @ user @ '':'' @ password @ ''@'' @ server @ ''/'' @ dbname @ ''?sslmode=disable'',
     sc_schema = postgresqlSchema, sc_maxOpenConnections = 1, sc_rebind = True\<rparr>"

text \<open>
  \<open>rebindQuery\<close>: the placeholders of a query, for the connection that was made last in the
  process. \<open>sqlx.Rebind(sqlx.DOLLAR, query)\<close> is the first argument.
\<close>

definition rebindQuery :: "(string \<Rightarrow> string) \<Rightarrow> bool \<Rightarrow> string \<Rightarrow> string" where
  "rebindQuery rebind shouldRebind query = (if shouldRebind then rebind query else query)"

text \<open>
  \<open>NewSQLXConnection\<close> with its arguments. \<open>connects\<close> says whether \<open>sqlx.Connect\<close> succeeds,
  \<open>executes\<close> whether the driver, with this data source, runs the schema as one query; both
  failures panic. The tables are those the database has afterwards. The flag for the
  placeholders is a variable of the package.
\<close>

definition open_connection ::
    "(string \<Rightarrow> string \<Rightarrow> bool) \<Rightarrow> (string \<Rightarrow> string \<Rightarrow> statement list \<Rightarrow> bool) \<Rightarrow>
     gotime \<Rightarrow> doc_row list \<Rightarrow> key_row list \<Rightarrow> token_row list \<Rightarrow> sql_connection \<Rightarrow> bool \<Rightarrow> bool \<times> sqlDB outcome" where
  "open_connection connects executes now docs keys tokens sc shouldRebind =
     (sc_rebind sc,
      if \<not> connects (sc_driverName sc) (sc_dataSourceName sc) then Panic
      else if \<not> executes (sc_driverName sc) (sc_dataSourceName sc) (sc_schema sc) then Panic
      else Ok (NewSQLXConnection now docs keys tokens))"

section \<open>One database in three dialects\<close>

text \<open>
  A schema without what only concerns a dialect: case of names, which SQL ignores, the types,
  and pragmas.
\<close>

definition lower_char :: "char \<Rightarrow> char" where
  "lower_char c = (let n = of_char c :: nat in if 65 \<le> n \<and> n \<le> 90 then char_of (n + 32) else c)"

abbreviation lower :: "string \<Rightarrow> string" where
  "lower \<equiv> map lower_char"

fun plain_constraint :: "table_constraint \<Rightarrow> table_constraint" where
  "plain_constraint (Unique_columns cs) = Unique_columns (map lower cs)"
| "plain_constraint (Cascading_reference c t k) = Cascading_reference (lower c) (lower t) (lower k)"

fun plain :: "statement \<Rightarrow> statement list" where
  "plain (Pragma p) = []"
| "plain (Create_table t cs ks) = [Create_table (lower t) (map (\<lambda>(n, ty, opts). (lower n, [], opts)) cs) (map plain_constraint ks)]"
| "plain (Create_index i t c) = [Create_index (lower i) (lower t) (lower c)]"

definition plain_schema :: "statement list \<Rightarrow> statement list" where
  "plain_schema schema = concat (map plain schema)"

fun column_type :: "string \<Rightarrow> string \<Rightarrow> statement list \<Rightarrow> string option" where
  "column_type t c [] = None"
| "column_type t c (Create_table t' cs ks # schema) =
     (if lower t' = lower t then map_option fst (map_of (map (\<lambda>(n, d). (lower n, d)) cs) (lower c))
      else column_type t c schema)"
| "column_type t c (_ # schema) = column_type t c schema"

text \<open>The integers that fit a column, by its type; the other types take any.\<close>

definition column_fits :: "string \<Rightarrow> int \<Rightarrow> bool" where
  "column_fits ty n \<longleftrightarrow> (if ty = ''INT'' then - (2 ^ 31) \<le> n \<and> n < 2 ^ 31
     else if ty = ''BIGINT'' then - (2 ^ 63) \<le> n \<and> n < 2 ^ 63 else True)"

definition version_column :: "statement list \<Rightarrow> int \<Rightarrow> bool" where
  "version_column schema n \<longleftrightarrow> (case column_type ''ZwibblerKeys'' ''version'' schema of
     None \<Rightarrow> False | Some ty \<Rightarrow> column_fits ty n)"

text \<open>How many bytes a text column of MariaDB holds, by its type.\<close>

fun column_name :: "sql_column \<Rightarrow> string \<times> string" where
  "column_name Doc_docid = (''ZwibblerDocs'', ''docid'')"
| "column_name Key_docID = (''ZwibblerKeys'', ''docID'')"
| "column_name Key_name = (''ZwibblerKeys'', ''name'')"
| "column_name Key_value = (''ZwibblerKeys'', ''value'')"
| "column_name Token_tokenID = (''ZwibblerTokens'', ''tokenID'')"
| "column_name Token_docID = (''ZwibblerTokens'', ''docID'')"
| "column_name Token_userID = (''ZwibblerTokens'', ''userID'')"
| "column_name Token_permissions = (''ZwibblerTokens'', ''permissions'')"

definition mariadb_limit :: "sql_column \<Rightarrow> nat" where
  "mariadb_limit col = (case column_name col of (t, c) \<Rightarrow>
     (case column_type t c mariadbSchema of
        None \<Rightarrow> 0 | Some ty \<Rightarrow> if ty = ''TEXT'' then 2 ^ 16 - 1 else if ty = ''MEDIUMTEXT'' then 2 ^ 24 - 1 else 0))"

text \<open>
  The drivers of MariaDB and PostgreSQL, as their documentation has them: blobs are read as
  they were written, and duplicates are reported in their own words. The order of rows of a
  query without \<open>ORDER BY\<close> is that of insertion here. Which texts the encoding of the database
  takes, and what its indexes demand of a text, is a parameter; MariaDB limits the length too.
\<close>

definition mariadb_driver :: "(string \<Rightarrow> bool) \<Rightarrow> (sql_column \<Rightarrow> string \<Rightarrow> bool) \<Rightarrow> sql_driver" where
  "mariadb_driver valid indexes = \<lparr>scan_blob = Some, row_order = \<lambda>ks. ks, version_fits = version_column mariadbSchema,
     takes_text = valid, text_fits = \<lambda>col t. length t \<le> mariadb_limit col \<and> indexes col t,
     refusal = ''Error 1406: Data too long for column'',
     duplicate_text = ''Error 1062: Duplicate entry for key tokenID''\<rparr>"

definition postgres_driver :: "(string \<Rightarrow> bool) \<Rightarrow> (sql_column \<Rightarrow> string \<Rightarrow> bool) \<Rightarrow> sql_driver" where
  "postgres_driver valid indexes = \<lparr>scan_blob = Some, row_order = \<lambda>ks. ks, version_fits = version_column postgresqlSchema,
     takes_text = valid, text_fits = indexes, refusal = ''pq: invalid byte sequence for encoding'',
     duplicate_text = ''pq: duplicate key value violates unique constraint''\<rparr>"

lemma version_columns:
  "version_column sqliteSchema n"
  "version_column mariadbSchema n \<longleftrightarrow> - (2 ^ 31) \<le> n \<and> n < 2 ^ 31"
  "version_column postgresqlSchema n \<longleftrightarrow> - (2 ^ 31) \<le> n \<and> n < 2 ^ 31"
proof -
  have "column_type ''ZwibblerKeys'' ''version'' sqliteSchema = Some ''NUMBER''"
    "column_type ''ZwibblerKeys'' ''version'' mariadbSchema = Some ''INT''"
    "column_type ''ZwibblerKeys'' ''version'' postgresqlSchema = Some ''INT''" by code_simp+
  then show "version_column sqliteSchema n"
    "version_column mariadbSchema n \<longleftrightarrow> - (2 ^ 31) \<le> n \<and> n < 2 ^ 31"
    "version_column postgresqlSchema n \<longleftrightarrow> - (2 ^ 31) \<le> n \<and> n < 2 ^ 31"
    by (simp_all add: version_column_def column_fits_def)
qed

lemma mariadb_limits: "mariadb_limit col = (if col = Key_value then 2 ^ 24 - 1 else 2 ^ 16 - 1)"
proof -
  have "(case column_name col of (t, c) \<Rightarrow> column_type t c mariadbSchema) =
      Some (if col = Key_value then ''MEDIUMTEXT'' else ''TEXT'')"
    by (cases col; simp only:; code_simp)
  then show ?thesis by (simp add: mariadb_limit_def case_prod_beta)
qed

lemma sqlite_version_column: "version_fits sqlite_driver = version_column sqliteSchema"
  by (simp add: sqlite_driver_def version_columns fun_eq_iff)

text \<open>
  The schemas agree on the tables, their columns, and all constraints, so that one model of the
  tables serves all drivers; they differ in the range of a key's version, where only SQLite has
  room for every version that a client can send, and in the length of texts: the name of a key
  that a client can send, and its value, can be too long for MariaDB.
\<close>

theorem schemas_agree:
  "plain_schema mariadbSchema = plain_schema sqliteSchema \<and> plain_schema postgresqlSchema = plain_schema sqliteSchema
   \<and> plain_schema mysqlSchema = plain_schema sqliteSchema
   \<and> (\<forall>v :: u32. version_fits sqlite_driver (uint v))
   \<and> (\<forall>v :: u32. version_fits (mariadb_driver valid indexes) (uint v) = (v < 2 ^ 31))
   \<and> (\<forall>v :: u32. version_fits (postgres_driver valid indexes) (uint v) = (v < 2 ^ 31))
   \<and> (\<forall>t. 2 ^ 16 \<le> length t \<longrightarrow> \<not> fits (mariadb_driver valid indexes) Key_name t)
   \<and> (\<forall>t. 2 ^ 24 \<le> length t \<longrightarrow> \<not> fits (mariadb_driver valid indexes) Key_value t)"
proof -
  have v: "(- (2 ^ 31) \<le> uint v \<and> uint v < 2 ^ 31) = (v < 2 ^ 31)" for v :: u32
    by (simp add: word_less_def) (metis order_trans uint_ge_0 neg_le_0_iff_le zero_le_numeral)
  have "plain_schema mariadbSchema = plain_schema sqliteSchema" by code_simp
  moreover have "plain_schema postgresqlSchema = plain_schema sqliteSchema" by code_simp
  moreover have "version_fits sqlite_driver (uint v)"
      "version_fits (mariadb_driver valid indexes) (uint v) = (v < 2 ^ 31)"
      "version_fits (postgres_driver valid indexes) (uint v) = (v < 2 ^ 31)" for v :: u32
    using v [of v] by (simp_all add: sqlite_version_column mariadb_driver_def postgres_driver_def version_columns)
  moreover have "2 ^ 16 \<le> length t \<Longrightarrow> \<not> fits (mariadb_driver valid indexes) Key_name t"
      "2 ^ 24 \<le> length t \<Longrightarrow> \<not> fits (mariadb_driver valid indexes) Key_value t" for t
    by (simp_all add: fits_def mariadb_driver_def mariadb_limits)
  ultimately show ?thesis unfolding mysqlSchema_def by blast
qed

text \<open>
  \<open>NewMySQLConnection\<close> passes the whole schema as one query, as the others do, but does not
  ask the driver for \<open>multiStatements\<close>, which it refuses by default: it panics.
\<close>

theorem NewMySQLConnection_panics:
  assumes "\<And>source schema. executes ''mysql'' source schema \<Longrightarrow>
      length schema \<le> 1 \<or> str_contains source ''multiStatements=true''"
    and "\<not> str_contains (sc_dataSourceName (NewMySQLConnection server user password dbname)) ''multiStatements=true''"
  shows "snd (open_connection connects executes now docs keys tokens
    (NewMySQLConnection server user password dbname) b) = Panic"
proof -
  have "\<not> length mysqlSchema \<le> 1" by (simp add: mysqlSchema_def mariadbSchema_def)
  with assms(1) [of "sc_dataSourceName (NewMySQLConnection server user password dbname)" mysqlSchema] assms(2)
  show ?thesis by (auto simp: open_connection_def NewMySQLConnection_def)
qed

end
