(* ===== verification/Http.thy ===== *)
theory Http
  imports Client Webhooks "HOL-Library.Char_ord" "HOL-Library.List_Lexorder"
begin

text \<open>
  \<open>http.go\<close>: the wrappers of HTTP handlers, which turn panics into replies and add the headers
  for other origins, and \<open>MakeHTTPRequest\<close>, with which a webhook event is sent. The network,
  the parser of URLs and JSON are parameters. The lemmas: what \<open>RecoverErrors\<close> makes of a
  panic, and that the receiver of a webhook can read the event and the credentials back.
\<close>

section \<open>Replies\<close>

text \<open>\<open>http.ResponseWriter\<close>: headers count until the status is written, which counts once.\<close>

record reply_writer =
  rw_status :: "nat option"
  rw_headers :: "string \<rightharpoonup> string"
  rw_body :: bytes

definition new_writer :: reply_writer where
  "new_writer = \<lparr>rw_status = None, rw_headers = Map.empty, rw_body = []\<rparr>"

definition set_header :: "string \<Rightarrow> string \<Rightarrow> reply_writer \<Rightarrow> reply_writer" where
  "set_header k v rw = (if rw_status rw = None then rw\<lparr>rw_headers := (rw_headers rw)(k \<mapsto> v)\<rparr> else rw)"

definition write_header :: "nat \<Rightarrow> reply_writer \<Rightarrow> reply_writer" where
  "write_header code rw = (if rw_status rw = None then rw\<lparr>rw_status := Some code\<rparr> else rw)"

definition write_body :: "bytes \<Rightarrow> reply_writer \<Rightarrow> reply_writer" where
  "write_body b rw = (write_header 200 rw)\<lparr>rw_body := rw_body rw @ b\<rparr>"

text \<open>The status sent to the client: 200 if the handler never writes one.\<close>

definition reply_status :: "reply_writer \<Rightarrow> nat" where
  "reply_status rw = (case rw_status rw of None \<Rightarrow> 200 | Some code \<Rightarrow> code)"

section \<open>Panics as replies\<close>

text \<open>
  The values a handler panics with: \<open>httpError\<close> (\<open>HTTPPanic\<close>) or anything else, as it is
  printed. A handler takes and returns a state and its writer.
\<close>

datatype panic_value = HttpError nat string | PanicWith string

type_synonym 's handler_fun = "'s \<times> reply_writer \<Rightarrow> ('s \<times> reply_writer) \<times> panic_value option"

text \<open>Going on with a value, or panicking.\<close>

fun require :: "panic_value + 'a \<Rightarrow> ('a \<Rightarrow> 's handler_fun) \<Rightarrow> 's handler_fun" where
  "require (Inl p) f s = (s, Some p)"
| "require (Inr x) f s = f x s"

definition RecoverErrors :: "'s handler_fun \<Rightarrow> 's \<times> reply_writer \<Rightarrow> 's \<times> reply_writer" where
  "RecoverErrors fn s =
     (case fn s of
        (s', None) \<Rightarrow> s'
      | ((s', rw), Some p) \<Rightarrow>
          let (code, status) = (case p of HttpError c m \<Rightarrow> (c, m) | PanicWith m \<Rightarrow> (500, m))
          in (s', write_header code (set_header ''Status'' status rw)))"

definition CORS :: "string \<Rightarrow> string \<Rightarrow> 's handler_fun \<Rightarrow> 's handler_fun" where
  "CORS origin method fn = (\<lambda>(s, rw).
     let rw1 = (if origin \<noteq> [] then
           set_header ''Access-Control-Expose-Headers'' ''Status, Content-Type, Content-Length''
             (set_header ''Access-Control-Allow-Headers''
               ''Accept, Content-Type, Content-Length, Accept-Encoding, X-CSRF-Token, Authorization''
               (set_header ''Access-Control-Allow-Credentials'' ''true''
                 (set_header ''Access-Control-Allow-Methods'' ''POST, GET, OPTIONS, PUT, DELETE''
                   (set_header ''Access-Control-Allow-Origin'' origin rw))))
         else rw)
     in if method = ''OPTIONS'' then ((s, rw1), None) else fn (s, rw1))"

section \<open>Encodings of the Go library\<close>

text \<open>\<open>url.QueryEscape\<close>, on bytes as characters, and its inverse \<open>QueryUnescape\<close>.\<close>

definition unreserved :: "char \<Rightarrow> bool" where
  "unreserved c \<longleftrightarrow> c \<in> set ''ABCDEFGHIJKLMNOPQRSTUVWXYZabcdefghijklmnopqrstuvwxyz0123456789-_.~''"

definition hex_digits :: string where "hex_digits = ''0123456789ABCDEF''"

definition escape_char :: "char \<Rightarrow> string" where
  "escape_char c =
     (if unreserved c then [c]
      else if c = CHR '' '' then ''+''
      else [CHR 0x25, hex_digits ! (of_char c div 16), hex_digits ! (of_char c mod 16)])"

definition QueryEscape :: "string \<Rightarrow> string" where
  "QueryEscape s = concat (map escape_char s)"

definition unhex :: "char \<Rightarrow> nat option" where
  "unhex c = index_of c hex_digits"

fun QueryUnescape :: "string \<Rightarrow> string option" where
  "QueryUnescape [] = Some []"
| "QueryUnescape (c # s) =
     (if c = CHR 0x25 then
        (case s of
           x # y # rest \<Rightarrow>
             (case (unhex x, unhex y) of
                (Some h, Some l) \<Rightarrow> map_option ((#) (char_of (16 * h + l))) (QueryUnescape rest)
              | _ \<Rightarrow> None)
         | _ \<Rightarrow> None)
      else map_option ((#) (if c = CHR ''+'' then CHR '' '' else c)) (QueryUnescape s))"

text \<open>\<open>url.Values.Encode\<close> sorts by name. Each name has its values in the order they were added.\<close>

definition encode_values :: "(string \<times> string list) list \<Rightarrow> string" where
  "encode_values data =
     (let pairs = concat (map (\<lambda>(name, vs). map (\<lambda>v. QueryEscape name @ ''='' @ QueryEscape v) vs)
            (sort_key fst data))
      in case pairs of [] \<Rightarrow> [] | p # ps \<Rightarrow> p @ concat (map (\<lambda>q. ''&'' @ q) ps))"

text \<open>\<open>base64.StdEncoding.EncodeToString\<close>\<close>

definition sextet_char :: "nat \<Rightarrow> char" where
  "sextet_char n = base64_alphabet ! n"

fun base64_encode :: "bytes \<Rightarrow> string" where
  "base64_encode [] = []"
| "base64_encode [a] =
     (let x = unat a in [sextet_char (x div 4), sextet_char (x mod 4 * 16), CHR ''='', CHR ''=''])"
| "base64_encode [a, b] =
     (let x = unat a; y = unat b
      in [sextet_char (x div 4), sextet_char (x mod 4 * 16 + y div 16), sextet_char (y mod 16 * 4), CHR ''=''])"
| "base64_encode (a # b # c # rest) =
     (let x = unat a; y = unat b; z = unat c
      in [sextet_char (x div 4), sextet_char (x mod 4 * 16 + y div 16),
          sextet_char (y mod 16 * 4 + z div 64), sextet_char (z mod 64)] @ base64_encode rest)"

section \<open>Requests\<close>

text \<open>
  The arguments of \<open>MakeHTTPRequest\<close>: the JSON as it is marshalled, and the data with the
  values as they are formatted, one of them unless the value is a list.
\<close>

record http_args =
  ha_Method :: string
  ha_URI :: string
  ha_Headers :: "(string \<times> string) list"
  ha_Data :: "(string \<times> string list) list option"
  ha_Body :: "bytes option"
  ha_JSON :: "(goerror + bytes) option"
  ha_Username :: string
  ha_Password :: string

record out_request =
  or_method :: string
  or_uri :: string
  or_body :: "bytes option"
  or_headers :: "string \<rightharpoonup> string list"

record in_reply =
  ir_StatusCode :: nat
  ir_ContentType :: string
  ir_Body :: "goerror + bytes"

datatype reply_kind = Reply_string | Reply_bytes | Reply_other

record request_result =
  rr_Err :: "goerror option"
  rr_StatusCode :: nat
  rr_RawReply :: bytes
  rr_stored :: "bytes option"

text \<open>
  The libraries: whether \<open>http.NewRequest\<close> accepts a method and a URL, the exchange with the
  other server, the canonical form of a header's name, and unmarshalling a reply.
\<close>

record http_lib =
  NewRequest_ok :: "string \<Rightarrow> string \<Rightarrow> bool"
  client_Do :: "out_request \<Rightarrow> goerror + in_reply"
  canonical_key :: "string \<Rightarrow> string"
  json_reply :: "bytes \<Rightarrow> goerror option"

definition add_header :: "string \<Rightarrow> string \<Rightarrow> (string \<rightharpoonup> string list) \<Rightarrow> (string \<rightharpoonup> string list)" where
  "add_header k v h = h(k \<mapsto> (case h k of None \<Rightarrow> [v] | Some vs \<Rightarrow> vs @ [v]))"

fun decimal :: "nat \<Rightarrow> string" where
  "decimal n = (if n < 10 then [char_of (48 + n)] else decimal (n div 10) @ [char_of (48 + n mod 10)])"

text \<open>The body and its length: JSON first, then the data of a POST, then a body that is given.\<close>

definition request_body :: "http_args \<Rightarrow> bytes option" where
  "request_body args =
     (let json = (case ha_JSON args of Some (Inr b) \<Rightarrow> Some b | _ \<Rightarrow> None);
          data = (case ha_Data args of
              Some d \<Rightarrow> if ha_Method args = ''POST'' then Some (str_bytes (encode_values d)) else json
            | None \<Rightarrow> json)
      in case ha_Body args of Some b \<Rightarrow> Some b | None \<Rightarrow> data)"

definition request_uri :: "http_args \<Rightarrow> string" where
  "request_uri args =
     (case ha_Data args of
        Some d \<Rightarrow> if ha_Method args \<noteq> ''POST'' then ha_URI args @ ''?'' @ encode_values d else ha_URI args
      | None \<Rightarrow> ha_URI args)"

definition request_headers :: "http_lib \<Rightarrow> http_args \<Rightarrow> string \<rightharpoonup> string list" where
  "request_headers lib args =
     (let h0 = fold (\<lambda>(k, v). add_header (canonical_key lib k) v) (ha_Headers args) Map.empty;
          h1 = (if ha_Username args \<noteq> [] then
              add_header ''Authorization''
                (''Basic '' @ base64_encode (str_bytes (ha_Username args @ '':'' @ ha_Password args))) h0
            else h0);
          h2 = (if ha_JSON args \<noteq> None then h1(''Content-Type'' \<mapsto> [''application/json'']) else h1)
      in if ha_Method args = ''POST'' then
           h2(''Content-Type'' \<mapsto> [''application/x-www-form-urlencoded''],
              ''Content-Length'' \<mapsto> [decimal (case request_body args of None \<Rightarrow> 0 | Some b \<Rightarrow> length b)])
         else h2)"

definition build_request :: "http_lib \<Rightarrow> http_args \<Rightarrow> out_request" where
  "build_request lib args = \<lparr>or_method = ha_Method args, or_uri = request_uri args,
     or_body = request_body args, or_headers = request_headers lib args\<rparr>"

text \<open>
  A JSON error ends the call before the request. The error of \<open>NewRequest\<close> is dropped, and the
  nil request it returns then panics.
\<close>

definition MakeHTTPRequest :: "http_lib \<Rightarrow> http_args \<Rightarrow> reply_kind \<Rightarrow> request_result outcome" where
  "MakeHTTPRequest lib args reply =
     (let failed = (\<lambda>err. \<lparr>rr_Err = Some err, rr_StatusCode = 0, rr_RawReply = [], rr_stored = None\<rparr>) in
      case ha_JSON args of
        Some (Inl err) \<Rightarrow> Ok (failed err)
      | _ \<Rightarrow>
          if \<not> NewRequest_ok lib (ha_Method args) (request_uri args) then Panic
          else (case client_Do lib (build_request lib args) of
              Inl err \<Rightarrow> Ok (failed err)
            | Inr resp \<Rightarrow>
                (case ir_Body resp of
                   Inl err \<Rightarrow> Ok ((failed err)\<lparr>rr_StatusCode := ir_StatusCode resp\<rparr>)
                 | Inr data \<Rightarrow>
                     let res = \<lparr>rr_Err = None, rr_StatusCode = ir_StatusCode resp, rr_RawReply = data,
                           rr_stored = None\<rparr>
                     in if str_contains (ir_ContentType resp) ''application/json'' then
                          (case json_reply lib data of
                             Some err \<Rightarrow> Ok ((failed err)\<lparr>rr_StatusCode := ir_StatusCode resp\<rparr>)
                           | None \<Rightarrow> Ok res)
                        else if reply = Reply_other then Panic
                        else Ok (res\<lparr>rr_stored := Some data\<rparr>))))"

section \<open>Sending a webhook event\<close>

definition webhook_args :: "webhookEvent \<Rightarrow> http_args" where
  "webhook_args e = \<lparr>ha_Method = ''POST'', ha_URI = wh_url e, ha_Headers = [],
     ha_Data = Some [(''event'', [wh_name e]), (''documentID'', [wh_documentID e])],
     ha_Body = None, ha_JSON = None, ha_Username = wh_username e, ha_Password = wh_password e\<rparr>"

definition send :: "http_lib \<Rightarrow> webhookEvent \<Rightarrow> request_result outcome" where
  "send lib e = MakeHTTPRequest lib (webhook_args e) Reply_string"

section \<open>The encodings can be read back\<close>

lemma hex_digit: "n < 16 \<Longrightarrow> unhex (hex_digits ! n) = Some n"
  using index_of_distinct [of hex_digits n] by (simp add: unhex_def) (simp add: hex_digits_def)

lemma escape_unreserved: "unreserved c \<Longrightarrow> c \<noteq> CHR 0x25 \<and> c \<noteq> CHR ''+'' \<and> c \<noteq> CHR ''&'' \<and> c \<noteq> CHR ''=''"
  by (auto simp: unreserved_def)

lemma unescape_char: "QueryUnescape (escape_char c @ s) = map_option ((#) c) (QueryUnescape s)"
proof (cases "unreserved c \<or> c = CHR '' ''")
  case True
  then show ?thesis using escape_unreserved by (auto simp: escape_char_def)
next
  case False
  have "of_char c < (256 :: nat)" by (rule nat_of_char_less_256)
  then have "of_char c div 16 < (16 :: nat)" "of_char c mod 16 < (16 :: nat)"
    by (simp_all add: less_mult_imp_div_less)
  moreover have "char_of (16 * (of_char c div 16) + of_char c mod 16 :: nat) = c" by simp
  ultimately show ?thesis using False by (simp add: escape_char_def hex_digit)
qed

lemma unescape_escape: "QueryUnescape (QueryEscape s) = Some s"
  by (induction s) (simp_all add: QueryEscape_def unescape_char)

lemma escaped_chars: "c \<in> set (QueryEscape s) \<Longrightarrow> c \<noteq> CHR ''&'' \<and> c \<noteq> CHR ''=''"
proof -
  assume "c \<in> set (QueryEscape s)"
  then obtain x where "c \<in> set (escape_char x)" by (auto simp: QueryEscape_def)
  moreover have "hex_digits ! n \<noteq> CHR ''&'' \<and> hex_digits ! n \<noteq> CHR ''=''" if "n < 16" for n
    using that by (auto simp: hex_digits_def less_Suc_eq numeral_eq_Suc)
  moreover have "of_char x div 16 < (16 :: nat)" "of_char x mod 16 < (16 :: nat)"
    using nat_of_char_less_256 [of x] by (simp_all add: less_mult_imp_div_less)
  ultimately show ?thesis
    using escape_unreserved by (auto simp: escape_char_def split: if_splits)
qed

lemma sextet_sextet_char: "n < 64 \<Longrightarrow> sextet (sextet_char n) = Some n"
proof -
  assume n: "n < 64"
  have "distinct base64_alphabet" "length base64_alphabet = 64" by (simp_all add: base64_alphabet_def)
  with n index_of_distinct [of base64_alphabet n] show ?thesis
    by (simp add: sextet_def sextet_char_def)
qed

lemma sextet_padding: "sextet (CHR ''='') = None"
  by (simp add: sextet_def base64_alphabet_def)

lemma byte_bound: "unat (b :: u8) < 256"
  using unsigned_less [of b, where ?'a = nat] by simp

lemma byte_of_unat: "n = unat b \<Longrightarrow> word_of_nat n = (b :: u8)"
  by simp

lemma sextets_join:
  fixes a b c :: nat
  assumes "b < 256" and "c < 256"
  shows "a div 4 * 4 + (a mod 4 * 16 + b div 16) div 16 = a"
    and "(a mod 4 * 16 + b div 16) mod 16 * 16 + (b mod 16 * 4 + c div 64) div 4 = b"
    and "(b mod 16 * 4 + c div 64) mod 4 * 64 + c mod 64 = c"
proof -
  have "b div 16 < 16" "c div 64 < 4" using assms by (simp_all add: less_mult_imp_div_less)
  then have "(a mod 4 * 16 + b div 16) div 16 = a mod 4" "(a mod 4 * 16 + b div 16) mod 16 = b div 16"
      "(b mod 16 * 4 + c div 64) div 4 = b mod 16" "(b mod 16 * 4 + c div 64) mod 4 = c div 64"
    by simp_all
  then show "a div 4 * 4 + (a mod 4 * 16 + b div 16) div 16 = a"
    and "(a mod 4 * 16 + b div 16) mod 16 * 16 + (b mod 16 * 4 + c div 64) div 4 = b"
    and "(b mod 16 * 4 + c div 64) mod 4 * 64 + c mod 64 = c"
    by (simp_all only: div_mult_mod_eq)
qed

lemma sextet_bounds:
  fixes a b c :: nat
  assumes "a < 256" and "b < 256" and "c < 256"
  shows "a div 4 < 64" and "a mod 4 * 16 < 64" and "a mod 4 * 16 + b div 16 < 64" and "b mod 16 * 4 < 64"
    and "b mod 16 * 4 + c div 64 < 64" and "c mod 64 < 64"
proof -
  have "b div 16 < 16" "c div 64 < 4" "a mod 4 < 4" "b mod 16 < 16" using assms by (simp_all add: less_mult_imp_div_less)
  then show "a mod 4 * 16 < 64" "a mod 4 * 16 + b div 16 < 64" "b mod 16 * 4 < 64" "b mod 16 * 4 + c div 64 < 64"
    by linarith+
qed (use assms in \<open>simp_all add: less_mult_imp_div_less\<close>)

lemma base64_groups_encode: "base64_groups (base64_encode bs) = Some bs"
proof (induction bs rule: base64_encode.induct)
  case (2 a)
  show ?case
    using sextet_bounds [OF byte_bound [of a] byte_bound [of a] byte_bound [of a]] sextets_join(1) [of 0 0 "unat a"]
    by (simp add: Let_def sextet_sextet_char sextet_padding)
next
  case (3 a b)
  show ?case
    using sextet_bounds [OF byte_bound [of a] byte_bound [of b] byte_bound [of b]]
      sextets_join(1,2) [of "unat b" 0 "unat a"] byte_bound [of b]
    by (simp add: Let_def sextet_sextet_char sextet_padding byte_of_unat)
next
  case (4 a b c rest)
  note bounds = byte_bound [of a] byte_bound [of b] byte_bound [of c]
  show ?case
    using sextet_bounds [OF bounds] sextets_join(1,2) [OF bounds(2,3), of "unat a"]
      sextets_join(3) [OF bounds(2,3)] 4
    by (simp add: Let_def sextet_sextet_char byte_of_unat)
qed simp

lemma sextet_char_in: "n < 64 \<Longrightarrow> sextet_char n \<in> set base64_alphabet"
proof -
  assume n: "n < 64"
  have "length base64_alphabet = 64" by (simp add: base64_alphabet_def)
  with n show ?thesis by (simp add: sextet_char_def)
qed

lemma base64_encode_chars: "set (base64_encode bs) \<subseteq> insert (CHR ''='') (set base64_alphabet)"
proof (induction bs rule: base64_encode.induct)
  case (2 a)
  show ?case
    using sextet_bounds [OF byte_bound [of a] byte_bound [of a] byte_bound [of a]]
    by (simp add: Let_def sextet_char_in)
next
  case (3 a b)
  show ?case
    using sextet_bounds [OF byte_bound [of a] byte_bound [of b] byte_bound [of b]]
    by (simp add: Let_def sextet_char_in)
next
  case (4 a b c rest)
  then show ?case
    using sextet_bounds [OF byte_bound [of a] byte_bound [of b] byte_bound [of c]]
    by (simp add: Let_def sextet_char_in)
qed simp

lemma base64_roundtrip: "base64_decode (base64_encode bs) = Inr bs"
proof -
  have "CHR 0x0A \<notin> insert (CHR ''='') (set base64_alphabet)" "CHR 0x0D \<notin> insert (CHR ''='') (set base64_alphabet)"
    by (simp_all add: base64_alphabet_def)
  with base64_encode_chars [of bs]
  have "\<forall>c\<in>set (base64_encode bs). c \<noteq> CHR 0x0A \<and> c \<noteq> CHR 0x0D" by blast
  then have "filter (\<lambda>c. c \<noteq> CHR 0x0A \<and> c \<noteq> CHR 0x0D) (base64_encode bs) = base64_encode bs"
    by (simp add: filter_id_conv)
  then show ?thesis by (simp add: base64_decode_def base64_groups_encode)
qed

section \<open>What a webhook is sent\<close>

text \<open>
  The server that a webhook is sent to can read it: the request is a POST to the event's
  URL whose form has the document's ID and the event's name, each of which unescapes to what
  was sent and neither of which can be mistaken for another field, and with a user name the
  credentials can be decoded from its authorization header.
\<close>

theorem webhook_request_readable:
  "\<exists>d n. or_body (build_request lib (webhook_args e)) = Some (str_bytes (''documentID='' @ d @ ''&event='' @ n))
    \<and> QueryUnescape d = Some (wh_documentID e) \<and> QueryUnescape n = Some (wh_name e)
    \<and> CHR ''&'' \<notin> set d \<union> set n \<and> CHR ''='' \<notin> set d \<union> set n
    \<and> or_method (build_request lib (webhook_args e)) = ''POST''
    \<and> or_uri (build_request lib (webhook_args e)) = wh_url e
    \<and> (wh_username e \<noteq> [] \<longrightarrow>
        (\<exists>z. or_headers (build_request lib (webhook_args e)) ''Authorization'' = Some [''Basic '' @ z]
          \<and> base64_decode z = Inr (str_bytes (wh_username e @ '':'' @ wh_password e))))"
proof -
  have sorted: "sort_key fst [(''event'', [wh_name e]), (''documentID'', [wh_documentID e])]
      = [(''documentID'', [wh_documentID e]), (''event'', [wh_name e])]"
    by (simp add: less_char_def)
  have names: "QueryEscape ''documentID'' = ''documentID''" "QueryEscape ''event'' = ''event''"
    by (simp_all add: QueryEscape_def escape_char_def unreserved_def)
  show ?thesis
    by (rule exI [of _ "QueryEscape (wh_documentID e)"], rule exI [of _ "QueryEscape (wh_name e)"])
      (auto simp: build_request_def webhook_args_def request_body_def request_uri_def request_headers_def
        encode_values_def sorted names unescape_escape Let_def add_header_def base64_roundtrip
        dest: escaped_chars)
qed

definition demo_event :: webhookEvent where
  "demo_event = \<lparr>wh_sendBy = Time 0, wh_url = ''http://hook'', wh_name = ''idle-session'', wh_documentID = ''a&b c'',
     wh_username = ''me'', wh_password = ''x:y''\<rparr>"

text \<open>A network that is down.\<close>

definition offline :: http_lib where
  "offline = \<lparr>NewRequest_ok = \<lambda>_ _. True, client_Do = \<lambda>_. Inl (OtherError ''offline''),
     canonical_key = \<lambda>k. k, json_reply = \<lambda>_. None\<rparr>"

theorem webhook_request_readable_witness:
  "\<exists>z. or_headers (build_request offline (webhook_args demo_event)) ''Authorization'' = Some [''Basic '' @ z]
     \<and> base64_decode z = Inr (str_bytes ''me:x:y'')"
  using webhook_request_readable [of offline demo_event] by (auto simp: demo_event_def)

text \<open>
  The URL of the webhook is not checked when it is set. Sending an event to one that
  \<open>NewRequest\<close> does not accept panics, in a goroutine without a \<open>recover\<close>.
\<close>

theorem send_bad_url_panics:
  assumes "\<not> NewRequest_ok lib ''POST'' (wh_url e)"
  shows "send lib e = Panic"
  using assms by (simp add: send_def MakeHTTPRequest_def webhook_args_def request_uri_def)

text \<open>A POST with JSON is labelled as a form: the header of the JSON is overwritten.\<close>

theorem post_json_labelled_form:
  assumes "ha_JSON args = Some (Inr json)" and "ha_Method args = ''POST''" and "ha_Data args = None" and "ha_Body args = None"
  shows "or_body (build_request lib args) = Some json
    \<and> or_headers (build_request lib args) ''Content-Type'' = Some [''application/x-www-form-urlencoded'']"
  using assms by (simp add: build_request_def request_body_def request_headers_def Let_def)

end
