(* ===== verification/Server.thy ===== *)
theory Server
  imports Http Service
begin

text \<open>
  The HTTP handler (\<open>socket.go\<close>) and the server management API (\<open>management.go\<close>). A request
  that is not an upgrade to a websocket is answered here; one that is goes to \<open>runClient\<close>
  (theory \<open>Client\<close>). The state is the world of documents, hub and clients. The lemmas: without
  the secret nothing changes, and what deleting a document and updating a user do.
\<close>

section \<open>Requests\<close>

text \<open>
  What the code reads of a \<open>*http.Request\<close>: the method, two headers, the form values (empty
  if absent), the uploaded file \<open>contents\<close>, which may be missing or fail to be read, the user
  name and password of \<open>BasicAuth\<close>, and whether the query has \<open>ping\<close>.
\<close>

record http_request =
  rq_Method :: string
  rq_Upgrade :: string
  rq_Origin :: string
  FormValue :: "string \<Rightarrow> string"
  rq_file :: "goerror + (goerror + bytes)"
  BasicAuth :: "(string \<times> string) option"
  rq_ping :: bool

record Handler =
  zh_allowCompression :: bool
  zh_secretUser :: string
  zh_secretPassword :: string
  zh_webhookURL :: string

definition NewHandler :: Handler where
  "NewHandler = \<lparr>zh_allowCompression = True, zh_secretUser = [], zh_secretPassword = [], zh_webhookURL = []\<rparr>"

section \<open>Configuration\<close>

text \<open>
  The setters work on the handler and the hub, and pass what concerns other servers on to the
  swarm. \<open>EnableHAE\<close> has an empty body in this build.
\<close>

definition SetCompressionAllowed :: "bool \<Rightarrow> Handler \<times> hub \<Rightarrow> Handler \<times> hub" where
  "SetCompressionAllowed allowed = (\<lambda>(zh, h). (zh\<lparr>zh_allowCompression := allowed\<rparr>, h))"

definition security_info :: "hub \<Rightarrow> hub" where
  "security_info h = swarm_notify
     (SetSecurityInfo (hub_secretUser h) (hub_secretPassword h) (hub_jwtKey h) (hub_keyIsBase64 h)) h"

definition SetSecretUser :: "string \<Rightarrow> string \<Rightarrow> Handler \<times> hub \<Rightarrow> Handler \<times> hub" where
  "SetSecretUser username password = (\<lambda>(zh, h).
     let zh' = zh\<lparr>zh_secretUser := username, zh_secretPassword := password\<rparr>
     in (zh', security_info (setWebhook (zh_webhookURL zh') (zh_secretUser zh') (zh_secretPassword zh') h)))"

definition SetJWTKey :: "string \<Rightarrow> bool \<Rightarrow> Handler \<times> hub \<Rightarrow> Handler \<times> hub" where
  "SetJWTKey key keyIsBase64 = (\<lambda>(zh, h).
     (zh, security_info (h\<lparr>hub_jwtKey := key, hub_keyIsBase64 := keyIsBase64\<rparr>)))"

definition SetSwarmURLs :: "string list \<Rightarrow> Handler \<times> hub \<Rightarrow> Handler \<times> hub" where
  "SetSwarmURLs urls = (\<lambda>(zh, h). (zh, swarm_notify (SetUrls urls) h))"

definition handler_SetServerID :: "string \<Rightarrow> Handler \<times> hub \<Rightarrow> Handler \<times> hub" where
  "handler_SetServerID serverID = (\<lambda>(zh, h). (zh, swarm_notify (SetServerID serverID) h))"

definition EnableHAE :: "'hae \<Rightarrow> Handler \<times> hub \<Rightarrow> Handler \<times> hub" where
  "EnableHAE hae = (\<lambda>(zh, h). (zh, h))"

definition SetWebhookURL :: "string \<Rightarrow> Handler \<times> hub \<Rightarrow> Handler \<times> hub" where
  "SetWebhookURL url = (\<lambda>(zh, h).
     let zh' = zh\<lparr>zh_webhookURL := url\<rparr>
     in (zh', setWebhook (zh_webhookURL zh') (zh_secretUser zh') (zh_secretPassword zh') h))"

section \<open>The management API\<close>

definition verifyAuth :: "Handler \<Rightarrow> http_request \<Rightarrow> panic_value + unit" where
  "verifyAuth zh r =
     (let (username, password, ok) = (case BasicAuth r of
            None \<Rightarrow> ([], [], False) | Some (u, p) \<Rightarrow> (u, p, True));
          eq1 = (username = zh_secretUser zh);
          eq2 = (password = zh_secretPassword zh)
      in if \<not> ok \<or> \<not> eq1 \<or> \<not> eq2 \<or> zh_secretUser zh = [] \<and> zh_secretPassword zh = []
         then Inl (HttpError 401 ''Unauthorized'') else Inr ())"

definition mustGet :: "http_request \<Rightarrow> string \<Rightarrow> panic_value + string" where
  "mustGet r key =
     (if FormValue r key = [] then Inl (HttpError 400 (''Missing '' @ key)) else Inr (FormValue r key))"

text \<open>The contents are a form value, or a file if that is empty.\<close>

definition form_contents :: "http_request \<Rightarrow> panic_value + bytes" where
  "form_contents r =
     (if FormValue r ''contents'' \<noteq> [] then Inr (str_bytes (FormValue r ''contents''))
      else case rq_file r of
             Inl _ \<Rightarrow> Inl (HttpError 400 ''Missing contents'')
           | Inr (Inl err) \<Rightarrow> Inl (HttpError 400 (''Error reading contents: '' @ error_text err))
           | Inr (Inr b) \<Rightarrow> Inr b)"

definition handleCreateDocument :: "'db documentDB \<Rightarrow> Handler \<Rightarrow> http_request \<Rightarrow> 'db world handler_fun" where
  "handleCreateDocument ops zh r =
     require (verifyAuth zh r) (\<lambda>_.
     require (mustGet r ''documentID'') (\<lambda>docID.
     require (form_contents r) (\<lambda>contents. \<lambda>(w, rw).
       case GetDocument ops (w_db w) docID AlwaysCreate contents of
         (db', Inr _) \<Rightarrow> ((w\<lparr>w_db := db'\<rparr>, write_header 200 rw), None)
       | (db', Inl err) \<Rightarrow>
           if err = ErrExists then ((w\<lparr>w_db := db'\<rparr>, write_header 409 rw), None)
           else ((w\<lparr>w_db := db'\<rparr>, rw), Some (PanicWith (error_text err))))))"

definition handleDeleteDocument :: "'db documentDB \<Rightarrow> Handler \<Rightarrow> http_request \<Rightarrow> 'db world handler_fun" where
  "handleDeleteDocument ops zh r =
     require (verifyAuth zh r) (\<lambda>_.
     require (mustGet r ''documentID'') (\<lambda>docID. \<lambda>(w, rw).
       let w1 = hub_do (signalDocumentDeleted docID) w in
       case DeleteDocument ops (w_db w1) docID of
         (db', None) \<Rightarrow> ((w1\<lparr>w_db := db'\<rparr>, write_header 200 rw), None)
       | (db', Some err) \<Rightarrow> ((w1\<lparr>w_db := db'\<rparr>, rw), Some (PanicWith (error_text err)))))"

definition handleDumpDocument ::
    "'db documentDB \<Rightarrow> Handler \<Rightarrow> http_request \<Rightarrow> bool \<Rightarrow> 'db world handler_fun" where
  "handleDumpDocument ops zh r dump =
     require (verifyAuth zh r) (\<lambda>_.
     require (mustGet r ''documentID'') (\<lambda>docID. \<lambda>(w, rw).
       case GetDocument ops (w_db w) docID NeverCreate [] of
         (db', Inl err) \<Rightarrow>
           if err = ErrMissing then ((w\<lparr>w_db := db'\<rparr>, write_header 404 rw), None)
           else ((w\<lparr>w_db := db'\<rparr>, rw), Some (PanicWith (error_text err)))
       | (db', Inr (contents, _)) \<Rightarrow>
           ((w\<lparr>w_db := db'\<rparr>,
             if dump then write_body contents (set_header ''Content-Type'' ''text'' rw)
             else write_header 200 rw), None)))"

text \<open>\<open>parse\<close> is \<open>time.Parse\<close> with the layout RFC 1123, and the time's Unix seconds.\<close>

definition handleAddToken ::
    "(string \<Rightarrow> int option) \<Rightarrow> 'db documentDB \<Rightarrow> Handler \<Rightarrow> http_request \<Rightarrow> 'db world handler_fun" where
  "handleAddToken parse ops zh r =
     require (verifyAuth zh r) (\<lambda>_.
     require (mustGet r ''documentID'') (\<lambda>docID.
     require (mustGet r ''token'') (\<lambda>token0.
     require (mustGet r ''userID'') (\<lambda>userID.
     require (mustGet r ''expiration'') (\<lambda>expiration.
     require (case parse expiration of
         None \<Rightarrow> Inl (HttpError 400 ''Incorrect expires format'') | Some t \<Rightarrow> Inr t) (\<lambda>expirationTime. \<lambda>(w, rw).
       case AddToken ops (w_db w) token0 docID userID (FormValue r ''permissions'') expirationTime
           (str_bytes (FormValue r ''contents'')) of
         (db', None) \<Rightarrow> ((w\<lparr>w_db := db'\<rparr>, write_header 200 rw), None)
       | (db', Some err) \<Rightarrow>
           if err = ErrExists \<or> err = ErrConflict then ((w\<lparr>w_db := db'\<rparr>, write_header 409 rw), None)
           else ((w\<lparr>w_db := db'\<rparr>, rw), Some (PanicWith (error_text err)))))))))"

text \<open>\<open>order\<close> is the order in which the hub visits its sessions.\<close>

definition handleUpdateUser ::
    "string list \<Rightarrow> 'db documentDB \<Rightarrow> Handler \<Rightarrow> http_request \<Rightarrow> 'db world handler_fun" where
  "handleUpdateUser order ops zh r =
     require (verifyAuth zh r) (\<lambda>_.
     require (mustGet r ''userID'') (\<lambda>userID. \<lambda>(w, rw).
       case UpdateUser ops (w_db w) userID (FormValue r ''permissions'') of
         (db', None) \<Rightarrow>
           ((hub_do (updatePermissions order userID (FormValue r ''permissions'')) (w\<lparr>w_db := db'\<rparr>),
             write_header 200 rw), None)
       | (db', Some err) \<Rightarrow> ((w\<lparr>w_db := db'\<rparr>, rw), Some (PanicWith (error_text err)))))"

text \<open>
  The returned truth value, whether the request was a POST, is only there if no handler
  panicked.
\<close>

definition serveMAPI ::
    "(string \<Rightarrow> int option) \<Rightarrow> string list \<Rightarrow> 'db documentDB \<Rightarrow> Handler \<Rightarrow> http_request \<Rightarrow> 'db world handler_fun" where
  "serveMAPI parse order ops zh r s =
     (if rq_Method r = ''POST'' then
        let meth = FormValue r ''method'' in
        if meth = ''addToken'' then handleAddToken parse ops zh r s
        else if meth = ''updateUser'' then handleUpdateUser order ops zh r s
        else if meth = ''createDocument'' then handleCreateDocument ops zh r s
        else if meth = ''deleteDocument'' then handleDeleteDocument ops zh r s
        else if meth = ''dumpDocument'' then handleDumpDocument ops zh r True s
        else if meth = ''checkDocument'' then handleDumpDocument ops zh r False s
        else (s, Some (HttpError 400 (''Unknown '' @ [CHR 0x27] @ ''method'' @ [CHR 0x27] @ '' parameter'')))
      else (s, None))"

section \<open>The handler\<close>

text \<open>
  A request is answered, or its connection becomes a websocket, with or without compression,
  which \<open>runClient\<close> takes over. \<open>windows\<close> is the platform the server runs on, and
  \<open>upgraded\<close> whether the upgrade succeeds; if not, the library has answered.
\<close>

datatype 'w served = Page 'w reply_writer | Websocket 'w bool | No_upgrade 'w

definition ServeHTTP ::
    "(string \<Rightarrow> int option) \<Rightarrow> string list \<Rightarrow> bool \<Rightarrow> bool \<Rightarrow> 'db documentDB \<Rightarrow> Handler \<Rightarrow> http_request \<Rightarrow>
     'db world \<Rightarrow> 'db world served" where
  "ServeHTTP parse order windows upgraded ops zh r w =
     (if \<not> str_contains (rq_Upgrade r) ''websocket'' then
        let mapi = serveMAPI parse order ops zh r;
            (w1, rw) = RecoverErrors (CORS (rq_Origin r) (rq_Method r) mapi) (w, new_writer);
            handled = (rq_Method r = ''POST'' \<and> snd (CORS (rq_Origin r) (rq_Method r) mapi (w, new_writer)) = None)
        in if \<not> handled \<and> rq_Method r = ''GET'' \<and> rq_ping r then
             (case CheckHealth ops (w_db w1) of
                Some _ \<Rightarrow> Page w1 (write_body (str_bytes (''Database health check failed'' @ [CHR 0x0A]))
                   (write_header 500 (set_header ''X-Content-Type-Options'' ''nosniff''
                     (set_header ''Content-Type'' ''text/plain; charset=utf-8'' rw))))
              | None \<Rightarrow> Page w1 (write_body (str_bytes ''OK'') (set_header ''Content-Type'' ''text'' rw)))
           else if \<not> handled \<and> rq_Method r \<noteq> ''POST'' then
             Page w1 (write_body (str_bytes ''Zwibbler collaboration Server is running.'')
               (set_header ''Content-Type'' ''text'' rw))
           else Page w1 rw
      else if upgraded then
        Websocket w (\<not> (windows \<or> FormValue r ''compression'' = ''0'' \<or> \<not> zh_allowCompression zh))
      else No_upgrade w)"

section \<open>Nothing without the secret\<close>

definition authorized :: "Handler \<Rightarrow> http_request \<Rightarrow> bool" where
  "authorized zh r \<longleftrightarrow> BasicAuth r = Some (zh_secretUser zh, zh_secretPassword zh)
     \<and> (zh_secretUser zh, zh_secretPassword zh) \<noteq> ([], [])"

lemma verifyAuth_authorized:
  "verifyAuth zh r = (if authorized zh r then Inr () else Inl (HttpError 401 ''Unauthorized''))"
  by (auto simp: verifyAuth_def authorized_def split: option.splits)

lemma handlers_unauthorized:
  assumes "\<not> authorized zh r"
  shows "handleAddToken parse ops zh r s = (s, Some (HttpError 401 ''Unauthorized''))"
    and "handleUpdateUser order ops zh r s = (s, Some (HttpError 401 ''Unauthorized''))"
    and "handleCreateDocument ops zh r s = (s, Some (HttpError 401 ''Unauthorized''))"
    and "handleDeleteDocument ops zh r s = (s, Some (HttpError 401 ''Unauthorized''))"
    and "handleDumpDocument ops zh r dump s = (s, Some (HttpError 401 ''Unauthorized''))"
  using assms
  by (simp_all add: verifyAuth_authorized handleAddToken_def handleUpdateUser_def handleCreateDocument_def
      handleDeleteDocument_def handleDumpDocument_def)

lemma serveMAPI_unauthorized:
  assumes "\<not> authorized zh r"
  obtains "serveMAPI parse order ops zh r s = (s, None)" "rq_Method r \<noteq> ''POST''"
  | code m where "serveMAPI parse order ops zh r s = (s, Some (HttpError code m))" "rq_Method r = ''POST''"
      "code = 401 \<or> code = 400"
proof (cases "rq_Method r = ''POST''")
  case True
  have "\<exists>code m. serveMAPI parse order ops zh r s = (s, Some (HttpError code m)) \<and> (code = 401 \<or> code = 400)"
    using True by (simp add: serveMAPI_def Let_def handlers_unauthorized [OF assms])
  with True that(2) show ?thesis by blast
next
  case False
  then show ?thesis by (intro that(1)) (simp_all add: serveMAPI_def)
qed

lemma header_frames [simp]:
  "rw_status (set_header k v rw) = rw_status rw" "rw_body (set_header k v rw) = rw_body rw"
  "rw_body (write_header code rw) = rw_body rw"
  "rw_status new_writer = None" "rw_body new_writer = []"
  by (simp_all add: set_header_def write_header_def new_writer_def)

fun served_world :: "'w served \<Rightarrow> 'w" where
  "served_world (Page w rw) = w" | "served_world (Websocket w z) = w" | "served_world (No_upgrade w) = w"

text \<open>
  C7: Without the secret user name and password nobody changes or reads anything through the
  management API: any request leaves the documents, the hub and the clients as they are, and
  a POST is answered with status 401 or 400 and an empty page. If no secret is configured,
  no request is authorized.
\<close>

theorem management_requires_secret:
  assumes "\<not> authorized zh r"
  shows "served_world (ServeHTTP parse order windows upgraded ops zh r w) = w
    \<and> (\<forall>rw. rq_Method r = ''POST'' \<and> ServeHTTP parse order windows upgraded ops zh r w = Page w rw
        \<longrightarrow> reply_status rw \<in> {400, 401} \<and> rw_body rw = [])
    \<and> \<not> authorized NewHandler r"
proof -
  define rw1 where "rw1 = snd (fst (CORS (rq_Origin r) (rq_Method r) (\<lambda>s. (s, None)) (w, new_writer)))"
  have rw1: "rw_status rw1 = None" "rw_body rw1 = []"
    by (simp_all add: rw1_def CORS_def Let_def)
  have cors: "CORS (rq_Origin r) (rq_Method r) fn (w, new_writer)
      = (if rq_Method r = ''OPTIONS'' then ((w, rw1), None) else fn (w, rw1))" for fn :: "'a world handler_fun"
    by (simp add: CORS_def rw1_def Let_def)
  have none: "\<not> authorized NewHandler r" by (simp add: authorized_def NewHandler_def)
  show ?thesis
  proof (cases rule: serveMAPI_unauthorized [OF assms, of parse order ops "(w, rw1)"])
    case 1
    then show ?thesis
      using none by (auto simp: ServeHTTP_def cors RecoverErrors_def Let_def split: option.splits)
  next
    case (2 code m)
    then have "CORS (rq_Origin r) (rq_Method r) (serveMAPI parse order ops zh r) (w, new_writer)
        = ((w, rw1), Some (HttpError code m))"
      by (subst cors) simp
    with 2 show ?thesis
      using none rw1
      by (auto simp: ServeHTTP_def RecoverErrors_def Let_def reply_status_def write_header_def set_header_def)
  qed
qed

text \<open>A request of the management API, and a handler with a secret.\<close>

definition demo_request :: "(string \<times> string) list \<Rightarrow> (string \<times> string) option \<Rightarrow> http_request" where
  "demo_request form auth = \<lparr>rq_Method = ''POST'', rq_Upgrade = [], rq_Origin = [],
     FormValue = (\<lambda>k. case map_of form k of None \<Rightarrow> [] | Some v \<Rightarrow> v),
     rq_file = Inl (OtherError ''no such file''), BasicAuth = auth, rq_ping = False\<rparr>"

definition demo_handler :: Handler where
  "demo_handler = NewHandler\<lparr>zh_secretUser := ''me'', zh_secretPassword := ''x''\<rparr>"

theorem management_requires_secret_witness:
  "served_world (ServeHTTP (\<lambda>_. None) [] False False (memory_ops (Time 0)) demo_handler
      (demo_request [(''method'', ''deleteDocument''), (''documentID'', ''d'')] (Some (''me'', ''y''))) demo_world)
    = demo_world"
proof -
  have "\<not> authorized demo_handler
      (demo_request [(''method'', ''deleteDocument''), (''documentID'', ''d'')] (Some (''me'', ''y'')))"
    by (simp add: authorized_def demo_handler_def demo_request_def)
  from management_requires_secret [OF this] show ?thesis by blast
qed

section \<open>What authorized requests do\<close>

lemma signalDocumentDeleted_apply:
  assumes "hub_ok (h, cs)"
  shows "snd (signalDocumentDeleted d (h, cs)) q = map_option (\<lambda>c.
    if q \<in> members h d then notifyLostAccess errorDoesNotExist c else c) (cs q)"
proof (cases "hub_sessions h d")
  case None
  then show ?thesis by (simp add: signalDocumentDeleted_def members_def option.map_ident)
next
  case (Some s)
  have "distinct (sess_clients s)" using assms Some by (auto simp: session_ok_def)
  then show ?thesis
    by (auto simp: signalDocumentDeleted_def members_def Some each_client_apply option.map_ident)
qed

text \<open>
  C10: Deleting a document through the API deletes it in the database and nothing else there,
  and tells every client connected to it, which is marked closed, and no other client; the
  sessions stay until the clients are gone.
\<close>

theorem deleteDocument_correct:
  assumes "world_ok w" and "authorized zh r" and "rq_Method r = ''POST''" and "rq_Upgrade r = []"
    and "FormValue r ''method'' = ''deleteDocument''" and "FormValue r ''documentID'' = d" and "d \<noteq> []"
  shows "\<exists>w' rw. ServeHTTP parse order windows upgraded (memory_ops now) zh r w = Page w' rw \<and> reply_status rw = 200
    \<and> mem_live now (w_db w') = (mem_live now (w_db w))(d := None) \<and> w_hub w' = w_hub w
    \<and> (\<forall>q. w_clients w' q = map_option (\<lambda>c.
         if q \<in> members (w_hub w) d then notifyLostAccess errorDoesNotExist c else c) (w_clients w q))"
proof -
  let ?w1 = "hub_do (signalDocumentDeleted d) w"
  obtain db' where del: "DeleteDocument (memory_ops now) (w_db ?w1) d = (db', None)"
      and live: "mem_live now db' = (mem_live now (w_db w))(d := None)"
    using mem_contents.delete [of "w_db w" d] by (auto simp: memory_ops_def)
  let ?w' = "?w1\<lparr>w_db := db'\<rparr>"
  have "handleDeleteDocument (memory_ops now) zh r (w, rw) = ((?w', write_header 200 rw), None)" for rw
    using assms del by (simp add: handleDeleteDocument_def verifyAuth_authorized mustGet_def Let_def)
  then have "\<exists>rw. ServeHTTP parse order windows upgraded (memory_ops now) zh r w = Page ?w' rw \<and> reply_status rw = 200"
    using assms by (auto simp: ServeHTTP_def CORS_def RecoverErrors_def serveMAPI_def Let_def reply_status_def
        write_header_def set_header_def new_writer_def)
  moreover have "w_hub ?w' = w_hub w" by simp
  ultimately show ?thesis
    using live signalDocumentDeleted_apply [of "w_hub w" "w_clients w" d] assms(1)
    by (auto simp: world_ok_def)
qed

lemma demo_delete:
  "authorized demo_handler (demo_request form (Some (''me'', ''x'')))"
  "rq_Method (demo_request form auth) = ''POST''" "rq_Upgrade (demo_request form auth) = []"
  by (simp_all add: authorized_def demo_handler_def demo_request_def)

theorem deleteDocument_correct_witness:
  "\<exists>w' rw c. ServeHTTP (\<lambda>_. None) [] False False (memory_ops (Time 1)) demo_handler
       (demo_request [(''method'', ''deleteDocument''), (''documentID'', ''d'')] (Some (''me'', ''x''))) demo_world = Page w' rw
     \<and> reply_status rw = 200 \<and> mem_live (Time 1) (w_db w') ''d'' = None
     \<and> w_clients w' 6 = Some c \<and> cl_closed c"
proof -
  let ?r = "demo_request [(''method'', ''deleteDocument''), (''documentID'', ''d'')] (Some (''me'', ''x''))"
  have m: "FormValue ?r ''method'' = ''deleteDocument''" "FormValue ?r ''documentID'' = ''d''"
    by (simp_all add: demo_request_def)
  have "6 \<in> members (w_hub demo_world) ''d''" by (simp add: demo_world_clients demo_members)
  with deleteDocument_correct [OF demo_world_ok demo_delete(1,2,3) m, of "\<lambda>_. None" "[]" False False "Time 1"]
  show ?thesis
    by (fastforce simp: demo_world_clients notifyLostAccess_def)
qed

text \<open>
  C23: A change of a user's permissions through the API is made in both places: every token of
  the user in the database has the new permissions, and every connected client of the user
  is told, at once.
\<close>

theorem updateUser_correct:
  assumes "world_ok w" and "authorized zh r" and "rq_Method r = ''POST''" and "rq_Upgrade r = []"
    and "FormValue r ''method'' = ''updateUser''" and "FormValue r ''userID'' = u" and "u \<noteq> []"
    and "distinct order" and "set order = dom (hub_sessions (w_hub w))" and p: "p = FormValue r ''permissions''"
  shows "\<exists>w' rw. ServeHTTP parse order windows upgraded (memory_ops now) zh r w = Page w' rw \<and> reply_status rw = 200
    \<and> (\<forall>t. mem_tokens (w_db w') t = map_option (\<lambda>tok.
         if tok_userID tok = u then tok\<lparr>tok_permissions := p\<rparr> else tok) (mem_tokens (w_db w) t))
    \<and> (\<forall>q. w_clients w' q = map_option (\<lambda>c.
         if cl_userID c = u \<and> (\<exists>d. q \<in> members (w_hub w) d) then notifyPermissionChange p c else c) (w_clients w q))"
proof -
  let ?db = "fst (mem_UpdateUser (w_db w) u p)"
  let ?w' = "hub_do (updatePermissions order u p) (w\<lparr>w_db := ?db\<rparr>)"
  have "UpdateUser (memory_ops now) (w_db w) u p = (?db, None)"
    by (simp add: memory_ops_def mem_UpdateUser_def)
  then have "handleUpdateUser order (memory_ops now) zh r (w, rw) = ((?w', write_header 200 rw), None)" for rw
    using assms by (simp add: handleUpdateUser_def verifyAuth_authorized mustGet_def)
  then have "\<exists>rw. ServeHTTP parse order windows upgraded (memory_ops now) zh r w = Page ?w' rw \<and> reply_status rw = 200"
    using assms(3-5) by (auto simp: ServeHTTP_def CORS_def RecoverErrors_def serveMAPI_def Let_def reply_status_def
        write_header_def set_header_def new_writer_def)
  moreover have "w_clients ?w' q = map_option (\<lambda>c.
      if cl_userID c = u \<and> (\<exists>d. q \<in> members (w_hub w) d) then notifyPermissionChange p c else c) (w_clients w q)" for q
    using updatePermissions_after [OF _ assms(8,9), of "w_clients w" u p q] assms(1)
    by (simp add: world_ok_def)
  ultimately show ?thesis by (auto simp: UpdateUser_tokens)
qed

theorem updateUser_correct_witness:
  "\<exists>w' rw c. ServeHTTP (\<lambda>_. None) [''e'', ''d''] False False (memory_ops (Time 1)) demo_handler
       (demo_request [(''method'', ''updateUser''), (''userID'', ''u'')] (Some (''me'', ''x''))) demo_world = Page w' rw
     \<and> w_clients w' 5 = Some c \<and> \<not> cl_writePermission c"
proof -
  let ?r = "demo_request [(''method'', ''updateUser''), (''userID'', ''u'')] (Some (''me'', ''x''))"
  have m: "FormValue ?r ''method'' = ''updateUser''" "FormValue ?r ''userID'' = ''u''" "FormValue ?r ''permissions'' = []"
    by (simp_all add: demo_request_def)
  have o: "set [''e'', ''d''] = dom (hub_sessions (w_hub demo_world))"
    by (auto simp: demo_members demo_world_clients)
  have mem: "\<exists>d. 5 \<in> members (w_hub demo_world) d"
    using demo_members(1) by (intro exI [of _ "''d''"]) (simp add: demo_world_clients)
  have no_write: "\<not> cl_writePermission (notifyPermissionChange [] c)" for c
    by (simp add: notifyPermissionChange_def notifyLostAccess_def enqueueError_def enqueue_def Let_def)
  obtain w' rw where res: "ServeHTTP (\<lambda>_. None) [''e'', ''d''] False False (memory_ops (Time 1)) demo_handler ?r demo_world = Page w' rw"
    and cl: "\<forall>q. w_clients w' q = map_option (\<lambda>c. if cl_userID c = ''u'' \<and> (\<exists>d. q \<in> members (w_hub demo_world) d)
      then notifyPermissionChange [] c else c) (w_clients demo_world q)"
    using updateUser_correct [OF demo_world_ok demo_delete(1,2,3) m(1,2) _ _ o m(3) [symmetric],
        of "\<lambda>_. None" False False "Time 1"] by auto
  obtain c where "w_clients w' 5 = Some c" "\<not> cl_writePermission c"
    using spec [OF cl, of 5] mem no_write by (simp add: demo_world_clients)
  with res show ?thesis by blast
qed

end
