(* ===== verification/StressTest.thy ===== *)
theory StressTest
  imports Complex_Main Service
begin

text \<open>
  The load generator of \<open>stresstest.go\<close>: students, which connect to a document and read, and
  teachers, which also append to it, each append with the time it was sent at its start. It
  is a second implementation of the protocol, the client's side of it. A panic of a client
  sets \<open>abort\<close>, which ends the test (theory \<open>StressRun\<close>). Statistics are floating-point numbers in the code; here times are integers, which are
  exact as they have at most 33 bits, and their average is rational, without rounding.

  The lemmas: what the statistics say, the time stamps, and that server and teacher
  understand each other.
\<close>

section \<open>Arguments and statistics\<close>

record StressTestArgs =
  sa_Address :: string
  sa_DocumentID :: string
  sa_NumTeachers :: int
  sa_NumStudents :: int
  sa_DelayMS :: int
  sa_ChangeLength :: int

definition defaultChangeLength :: int where [go_defs]: "defaultChangeLength = 10"

text \<open>The defaults \<open>RunStressTest\<close> fills in.\<close>

definition stress_defaults :: "StressTestArgs \<Rightarrow> StressTestArgs" where
  "stress_defaults args =
     args\<lparr>sa_ChangeLength := (if sa_ChangeLength args \<le> 0 then defaultChangeLength
                             else if sa_ChangeLength args < 8 then 8 else sa_ChangeLength args),
          sa_DelayMS := (if sa_DelayMS args = 0 then 1000 else sa_DelayMS args)\<rparr>"

text \<open>Every message is then long enough for a time stamp.\<close>

lemma stress_defaults_length: "8 \<le> sa_ChangeLength (stress_defaults args)"
  by (simp add: stress_defaults_def defaultChangeLength_def)

text \<open>Students have the first numbers, then teachers.\<close>

definition stress_clients :: "StressTestArgs \<Rightarrow> (int \<times> bool) list" where
  "stress_clients args =
     map (\<lambda>i. (int i + 1, False)) [0..<nat (sa_NumStudents args)]
     @ map (\<lambda>i. (max 0 (sa_NumStudents args) + int i + 1, True)) [0..<nat (sa_NumTeachers args)]"

record stress_stats =
  st_docLength :: int
  st_numConnected :: int
  st_pingTime :: rat
  st_numSamples :: int
  st_minTime :: int
  st_maxTime :: int

text \<open>The fields of a new \<open>stressTestArgs\<close> that hold statistics.\<close>

definition no_stats :: stress_stats where
  "no_stats = \<lparr>st_docLength = 0, st_numConnected = 0, st_pingTime = 0, st_numSamples = 0,
     st_minTime = 0, st_maxTime = 0\<rparr>"

definition recordPingTime :: "int \<Rightarrow> int \<Rightarrow> stress_stats \<Rightarrow> stress_stats" where
  "recordPingTime fv docLength s =
     (let n = rat_of_int (st_numSamples s + 1) in
      s\<lparr>st_docLength := (if docLength > st_docLength s then docLength else st_docLength s),
        st_minTime := (if st_numSamples s > 0 then min (st_minTime s) fv else fv),
        st_maxTime := (if st_numSamples s > 0 then max (st_maxTime s) fv else fv),
        st_numSamples := st_numSamples s + 1,
        st_pingTime := st_pingTime s * ((n - 1) / n) + rat_of_int fv / n\<rparr>)"

definition recordConnection :: "stress_stats \<Rightarrow> stress_stats" where
  "recordConnection s = s\<lparr>st_numConnected := st_numConnected s + 1\<rparr>"

section \<open>Time stamps\<close>

text \<open>Milliseconds, rounded towards zero.\<close>

definition getUnixMilli :: "gotime \<Rightarrow> int" where
  "getUnixMilli now = sgn (unix_nano now) * (\<bar>unix_nano now\<bar> div 1000000)"

text \<open>The low four bytes, most significant first. A shorter slice panics.\<close>

definition encodeSendingMS :: "gotime \<Rightarrow> bytes \<Rightarrow> bytes option" where
  "encodeSendingMS now bs =
     (let ts = getUnixMilli now in
      if length bs < 4 then None
      else Some (bs[0 := word_of_int (and (drop_bit 24 ts) 0xff), 1 := word_of_int (and (drop_bit 16 ts) 0xff),
                    2 := word_of_int (and (drop_bit 8 ts) 0xff), 3 := word_of_int (and ts 0xff)]))"

definition decodeSendingMS :: "bytes \<Rightarrow> int option" where
  "decodeSendingMS bs =
     (if length bs < 4 then None
      else Some (or (or (or (push_bit 24 (uint (bs ! 0))) (push_bit 16 (uint (bs ! 1))))
                    (push_bit 8 (uint (bs ! 2)))) (uint (bs ! 3))))"

text \<open>The time since a message was sent, and the end of the document it shows.\<close>

definition ping :: "gotime \<Rightarrow> appendMessageV2 \<Rightarrow> stress_stats \<Rightarrow> stress_stats outcome" where
  "ping now m s =
     (case decodeSendingMS (ap2_Data m) of
        None \<Rightarrow> Panic
      | Some sent \<Rightarrow> Ok (recordPingTime (and (getUnixMilli now) 0xffffffff - sent)
          (wrap_int (int_of_u64 (ap2_Offset m) + int (length (ap2_Data m)))) s))"

section \<open>Messages\<close>

definition must_decode :: "'a outcome \<Rightarrow> 'a outcome" where
  "must_decode x = (case x of Err _ \<Rightarrow> Panic | _ \<Rightarrow> x)"

definition connect_message :: "string \<Rightarrow> bytes" where
  "connect_message docID = encode [] (initMessageV2_refl
     \<lparr>im2_MessageType = initMessageType, im2_More = 0, im2_ProtocolVersion = 2, im2_MaxMessageSize = 0,
      im2_CreationMode = 0, im2_Offset = 0, im2_DocIDLength = word_of_nat (length docID),
      im2_DocID = docID, im2_Data = []\<rparr>)"

definition readAppendMessage :: "bytes \<Rightarrow> appendMessageV2 outcome" where
  "readAppendMessage bs =
     (case bs of
        [] \<Rightarrow> Panic
      | t # _ \<Rightarrow> if t = appendV2MessageType then must_decode (decode_appendMessageV2 bs) else Panic)"

section \<open>Students\<close>

text \<open>One round of the loop, with its local \<open>first\<close>.\<close>

definition student_read :: "gotime \<Rightarrow> bytes \<Rightarrow> bool \<times> stress_stats \<Rightarrow> (bool \<times> stress_stats) outcome" where
  "student_read now bs = (\<lambda>(first_one, s).
     bindo (readAppendMessage bs) (\<lambda>m.
       if \<not> first_one \<and> length (ap2_Data m) \<ge> 4
       then bindo (ping now m s) (\<lambda>s'. Ok (False, s')) else Ok (False, s)))"

section \<open>Teachers\<close>

text \<open>The variables that the reader and the writer of a teacher share, and the reader's \<open>first\<close>.\<close>

record teacher =
  te_offset :: u64
  te_nextChar :: int
  te_gotAck :: bool
  te_first :: bool

definition wrap_char :: "int \<Rightarrow> int" where
  "wrap_char c = (if c > 90 then 65 else c)"

definition char_after :: "bytes \<Rightarrow> int \<Rightarrow> int" where
  "char_after data c = (if data = [] then c else wrap_char (uint (last data) + 1))"

definition teacher_start :: "bytes \<Rightarrow> teacher outcome" where
  "teacher_start bs = bindo (readAppendMessage bs) (\<lambda>m.
     Ok \<lparr>te_offset = ap2_Offset m + u64_len (ap2_Data m), te_nextChar = char_after (ap2_Data m) 65,
         te_gotAck = True, te_first = True\<rparr>)"

text \<open>The writer after a delay: the message it sends, if it may.\<close>

definition teacher_write :: "gotime \<Rightarrow> int \<Rightarrow> teacher \<Rightarrow> (bytes option \<times> teacher) outcome" where
  "teacher_write now changeLength te =
     (if \<not> te_gotAck te then Ok (None, te)
      else if changeLength < 0 then Panic
      else case encodeSendingMS now (replicate (nat changeLength) (word_of_int (te_nextChar te))) of
             None \<Rightarrow> Panic
           | Some data \<Rightarrow> Ok (Some (encode [] (appendMessage_refl
               \<lparr>ap_MessageType = appendMessageType, ap_More = 0, ap_Generation = 0,
                ap_Offset = te_offset te, ap_Data = data\<rparr>)), te\<lparr>te_gotAck := False\<rparr>))"

definition teacher_read :: "gotime \<Rightarrow> bytes \<Rightarrow> teacher \<times> stress_stats \<Rightarrow> (teacher \<times> stress_stats) outcome" where
  "teacher_read now bs = (\<lambda>(te, s).
     case bs of
       [] \<Rightarrow> Panic
     | t # _ \<Rightarrow>
         if t = appendV2MessageType then
           bindo (must_decode (decode_appendMessageV2 bs)) (\<lambda>m.
             let te' = te\<lparr>te_offset := ap2_Offset m + u64_len (ap2_Data m), te_gotAck := True,
                          te_nextChar := char_after (ap2_Data m) (te_nextChar te), te_first := False\<rparr>
             in if ap2_Data m \<noteq> [] \<and> \<not> te_first te
                then bindo (ping now m s) (\<lambda>s'. Ok (te', s')) else Ok (te', s))
         else if t = ackNackMessageType then
           bindo (must_decode (decode_ackNackMessage bs)) (\<lambda>m.
             if an_Ack m = 1
             then Ok (te\<lparr>te_offset := an_Offset m, te_gotAck := True,
                         te_nextChar := wrap_char (te_nextChar te + 1)\<rparr>, s)
             else Ok (te, s))
         else Panic)"

section \<open>The statistics\<close>

lemma recordPingTime_fields:
  "st_numSamples (recordPingTime t l s) = st_numSamples s + 1"
  "st_docLength (recordPingTime t l s) = max l (st_docLength s)"
  "st_numSamples s > 0 \<Longrightarrow> st_minTime (recordPingTime t l s) = min t (st_minTime s)"
  "st_numSamples s > 0 \<Longrightarrow> st_maxTime (recordPingTime t l s) = max t (st_maxTime s)"
  by (auto simp: recordPingTime_def Let_def min.commute max.commute max_def)

lemma recordPingTime_average:
  assumes "0 < st_numSamples s" and "st_pingTime s = x / rat_of_int (st_numSamples s)"
  shows "st_pingTime (recordPingTime t l s) = (rat_of_int t + x) / rat_of_int (st_numSamples s + 1)"
  using assms by (simp add: recordPingTime_def Let_def add_divide_distrib add.commute)

text \<open>After any number of samples: the mean of the times, the least, the greatest.\<close>

definition statistics_of :: "(int \<times> int) list \<Rightarrow> stress_stats \<Rightarrow> bool" where
  "statistics_of samples s \<longleftrightarrow> st_numSamples s = int (length samples)
     \<and> st_pingTime s = rat_of_int (sum_list (map fst samples)) / rat_of_int (int (length samples))
     \<and> st_minTime s = Min (set (map fst samples)) \<and> st_maxTime s = Max (set (map fst samples))
     \<and> st_docLength s = Max (insert 0 (set (map snd samples)))"

lemma statistics_step:
  assumes "statistics_of xs s" and "xs \<noteq> []"
  shows "statistics_of (xs @ [(t, l)]) (recordPingTime t l s)"
proof -
  have n: "0 < st_numSamples s" using assms by (simp add: statistics_of_def)
  have "st_pingTime s = rat_of_int (sum_list (map fst xs)) / rat_of_int (st_numSamples s)"
    using assms(1) by (simp add: statistics_of_def)
  from recordPingTime_average [OF n this, of t l] recordPingTime_fields(1,2) [of t l s]
    recordPingTime_fields(3,4) [OF n, of t l] assms
  show ?thesis
    by (simp add: statistics_of_def add.commute insert_commute)
qed

lemma recorded_statistics:
  "samples \<noteq> [] \<Longrightarrow>
   statistics_of samples (foldl (\<lambda>s (t, l). recordPingTime t l s) no_stats samples)"
proof (induction samples rule: rev_induct)
  case (snoc x xs)
  then show ?case
    by (cases "xs = []"; cases x)
      (simp_all add: statistics_step, simp add: statistics_of_def recordPingTime_def no_stats_def)
qed simp

section \<open>The time stamps are read back\<close>

lemma stamp_bytes: "or (or (or (push_bit 24 (take_bit 8 (drop_bit 24 ts))) (push_bit 16 (take_bit 8 (drop_bit 16 ts))))
    (push_bit 8 (take_bit 8 (drop_bit 8 ts)))) (take_bit 8 ts) = take_bit 32 (ts :: int)"
proof (rule bit_eqI)
  fix n :: nat
  consider "n < 8" | "8 \<le> n" "n < 16" | "16 \<le> n" "n < 24" | "24 \<le> n" by linarith
  then show "bit (or (or (or (push_bit 24 (take_bit 8 (drop_bit 24 ts))) (push_bit 16 (take_bit 8 (drop_bit 16 ts))))
      (push_bit 8 (take_bit 8 (drop_bit 8 ts)))) (take_bit 8 ts)) n \<longleftrightarrow> bit (take_bit 32 ts) n"
    by cases (auto simp: bit_simps)
qed

lemma uint_low_byte: "uint (word_of_int (and x 0xff) :: u8) = take_bit 8 (x :: int)"
proof -
  have "and x 0xff = take_bit 8 x" by (simp add: take_bit_eq_mask mask_eq_exp_minus_1)
  then show ?thesis by (simp add: uint_word_of_int_eq)
qed

lemma decode_encodeSendingMS:
  assumes "encodeSendingMS now bs = Some bs'"
  shows "decodeSendingMS bs' = Some (take_bit 32 (getUnixMilli now))" and "length bs' = length bs"
proof -
  have l: "4 \<le> length bs" using assms by (simp add: encodeSendingMS_def Let_def split: if_splits)
  with assms show "length bs' = length bs" by (auto simp: encodeSendingMS_def Let_def)
  show "decodeSendingMS bs' = Some (take_bit 32 (getUnixMilli now))"
  proof -
    obtain a b c d rest where "bs = a # b # c # d # rest"
      using l by (auto simp: numeral_eq_Suc Suc_le_length_iff)
    then show ?thesis
      using assms stamp_bytes [of "getUnixMilli now"]
      by (auto simp: encodeSendingMS_def decodeSendingMS_def Let_def uint_low_byte numeral_eq_Suc)
  qed
qed

section \<open>Server and load generator understand each other\<close>

lemma connect_message_decode:
  assumes "length docID < 256"
  shows "decodeInitMessage (connect_message docID) = Ok
    \<lparr>im_MessageType = initMessageType, im_More = 0, im_ProtocolVersion = 2, im_MaxMessageSize = 0,
     im_CreationMode = 0, im_Generation = 0, im_Offset = 0, im_DocIDLength = word_of_nat (length docID),
     im_DocID = docID, im_Data = []\<rparr>"
  unfolding connect_message_def
  by (subst decodeInitMessage_V2)
    (use assms in \<open>simp_all add: init_of_V2_def encode_enc initMessageV2_refl_def unsigned_of_nat
       take_bit_nat_eq_self\<close>)

text \<open>An append queued for a client of version 2 is one that students and teachers read.\<close>

lemma readAppendMessage_queued:
  assumes "version < 3" and "length data < 2 ^ 62"
  shows "readAppendMessage (append_bytes version data offset) = Ok
    \<lparr>ap2_MessageType = appendV2MessageType, ap2_More = 0, ap2_Offset = offset, ap2_Data = data\<rparr>"
proof -
  let ?m = "\<lparr>ap2_MessageType = appendV2MessageType, ap2_More = 0, ap2_Offset = offset, ap2_Data = data\<rparr>"
  have a: "append_bytes version data offset = encode [] (appendMessageV2_refl ?m)"
    using assms(1) by (simp add: append_bytes_def)
  have "decode_appendMessageV2 (encode [] (appendMessageV2_refl ?m)) = Ok ?m"
    by (rule appendMessageV2_roundtrip) (use assms(2) in \<open>simp add: encode_enc appendMessageV2_refl_def\<close>)
  moreover have "\<exists>rest. encode [] (appendMessageV2_refl ?m) = appendV2MessageType # rest"
    by (simp add: encode_enc appendMessageV2_refl_def go_defs)
  ultimately show ?thesis
    by (auto simp: a readAppendMessage_def must_decode_def)
qed

text \<open>
  A student records the time, modulo the \<open>2^32\<close> milliseconds that fit a stamp, between the
  stamping of a message and its arrival.
\<close>

lemma student_measures:
  assumes "encodeSendingMS sent bs = Some data" and "version < 3" and "length data < 2 ^ 62"
  shows "student_read now (append_bytes version data offset) (False, s) = Ok (False,
    recordPingTime (take_bit 32 (getUnixMilli now) - take_bit 32 (getUnixMilli sent))
      (wrap_int (int_of_u64 offset + int (length data))) s)"
proof -
  have "4 \<le> length data"
    using assms(1) decode_encodeSendingMS(2) [OF assms(1)]
    by (simp add: encodeSendingMS_def Let_def split: if_splits)
  moreover have "and x 0xffffffff = take_bit 32 x" for x :: int
    by (simp add: take_bit_eq_mask mask_eq_exp_minus_1)
  ultimately show ?thesis
    using decode_encodeSendingMS(1) [OF assms(1)]
    by (simp add: student_read_def readAppendMessage_queued [OF assms(2,3)] ping_def)
qed

lemma encodeSendingMS_defined: "4 \<le> length bs \<Longrightarrow> \<exists>data. encodeSendingMS now bs = Some data"
  by (simp add: encodeSendingMS_def Let_def)

lemma teacher_write_message:
  assumes "te_gotAck te" and "4 \<le> n" and "n < 2 ^ 61"
  shows "\<exists>data message. teacher_write now n te = Ok (Some message, te\<lparr>te_gotAck := False\<rparr>)
    \<and> int (length data) = n \<and> decodeSendingMS data = Some (take_bit 32 (getUnixMilli now))
    \<and> (\<exists>rest. message = appendMessageType # rest)
    \<and> decodeAppendMessage message = Ok \<lparr>ap_MessageType = appendMessageType, ap_More = 0,
        ap_Generation = 0, ap_Offset = te_offset te, ap_Data = data\<rparr>"
proof -
  let ?bs = "replicate (nat n) (word_of_int (te_nextChar te)) :: bytes"
  have "4 \<le> length ?bs" using assms(2) by simp
  from encodeSendingMS_defined [OF this] obtain data where data: "encodeSendingMS now ?bs = Some data" ..
  have l: "int (length data) = n" using decode_encodeSendingMS(2) [OF data] assms(2) by simp
  let ?m = "\<lparr>ap_MessageType = appendMessageType, ap_More = 0, ap_Generation = 0,
    ap_Offset = te_offset te, ap_Data = data\<rparr>"
  have "decodeAppendMessage (encode [] (appendMessage_refl ?m)) = Ok ?m"
    by (rule decodeAppendMessage_V3) (use l assms(3) in \<open>simp_all add: encode_enc appendMessage_refl_def\<close>)
  moreover have "\<exists>rest. encode [] (appendMessage_refl ?m) = appendMessageType # rest"
    by (simp add: encode_enc appendMessage_refl_def go_defs)
  moreover have "teacher_write now n te
      = Ok (Some (encode [] (appendMessage_refl ?m)), te\<lparr>te_gotAck := False\<rparr>)"
    using assms(1,2) data by (simp add: teacher_write_def)
  ultimately show ?thesis
    using l decode_encodeSendingMS(1) [OF data] by blast
qed

lemma teacher_reads_ack:
  "teacher_read now (encode [] (ackNackMessage_refl
     \<lparr>an_MessageType = 0x81, an_More = 0, an_Ack = 1, an_Offset = n\<rparr>)) (te, s)
   = Ok (te\<lparr>te_offset := n, te_gotAck := True, te_nextChar := wrap_char (te_nextChar te + 1)\<rparr>, s)"
proof -
  let ?m = "\<lparr>an_MessageType = 0x81, an_More = 0, an_Ack = 1, an_Offset = n\<rparr>"
  have "decode_ackNackMessage (encode [] (ackNackMessage_refl ?m)) = Ok ?m"
    by (rule ackNackMessage_roundtrip)
  moreover have "\<exists>rest. encode [] (ackNackMessage_refl ?m) = 0x81 # rest"
    by (simp add: encode_enc ackNackMessage_refl_def)
  ultimately show ?thesis
    by (auto simp: teacher_read_def must_decode_def go_defs)
qed

text \<open>
  C32: A teacher that knows the end of its document and may write never gets stuck. The
  message its writer sends is accepted by the server: the document grows by the stamped
  data, and the reply that is queued makes the teacher's reader learn the new end and let the
  writer send again.
\<close>

theorem teacher_served:
  assumes "world_ok w" and "w_clients w r = Some c" and "cl_writePermission c"
    and "mem_live now (w_db w) (cl_docID c) = Some doc"
    and "te_offset te = u64_len doc" and "te_gotAck te" and "4 \<le> n" and "n < 2 ^ 61"
  shows "\<exists>message te' data w' reply te''.
      teacher_write sent n te = Ok (Some message, te') \<and> \<not> te_gotAck te'
    \<and> handle_message (memory_ops now) r message w = (w', Go_on)
    \<and> int (length data) = n \<and> decodeSendingMS data = Some (take_bit 32 (getUnixMilli sent))
    \<and> mem_live now (w_db w') = (mem_live now (w_db w))(cl_docID c \<mapsto> doc @ data)
    \<and> map_option cl_queued (w_clients w' r) = Some (cl_queued c @ [reply])
    \<and> teacher_read later reply (te', s) = Ok (te'', s)
    \<and> te_offset te'' = u64_len (doc @ data) \<and> te_gotAck te''"
proof -
  obtain data message where m: "teacher_write sent n te = Ok (Some message, te\<lparr>te_gotAck := False\<rparr>)"
    "int (length data) = n" "decodeSendingMS data = Some (take_bit 32 (getUnixMilli sent))"
    "\<exists>rest. message = appendMessageType # rest"
    and d: "decodeAppendMessage message = Ok \<lparr>ap_MessageType = appendMessageType, ap_More = 0,
        ap_Generation = 0, ap_Offset = te_offset te, ap_Data = data\<rparr>"
    using teacher_write_message [OF assms(6-8), of sent] by blast
  let ?n = "u64_len (doc @ data)"
  let ?reply = "encode [] (ackNackMessage_refl
    \<lparr>an_MessageType = 0x81, an_More = 0, an_Ack = 1, an_Offset = ?n\<rparr>)"
  have h: "handle_message (memory_ops now) r message w = processAppend (memory_ops now) r c message w"
    using m(4) assms(2) by (auto simp: handle_message_def go_defs)
  obtain w' where w': "processAppend (memory_ops now) r c message w = (w', Go_on)"
    "mem_live now (w_db w') = (mem_live now (w_db w))(cl_docID c \<mapsto> doc @ data)"
    "map_option cl_queued (w_clients w' r) = Some (cl_queued c @ [?reply])"
    by (rule mem.processAppend_cases [OF assms(1) _ assms(2) d, of now])
      (use assms(2-5) in \<open>auto simp: others_get_def set_lastEnd_def enqueueAckNack_def enqueue_def\<close>)
  show ?thesis
    by (rule exI [of _ message], rule exI [of _ "te\<lparr>te_gotAck := False\<rparr>"], rule exI [of _ data],
        rule exI [of _ w'], rule exI [of _ ?reply])
      (simp add: m(1-3) h w' teacher_reads_ack)
qed

definition demo_teacher :: teacher where
  "demo_teacher = \<lparr>te_offset = 2, te_nextChar = 65, te_gotAck = True, te_first = True\<rparr>"

theorem teacher_served_witness:
  "\<exists>message te' data w'. teacher_write (Time 0) 10 demo_teacher = Ok (Some message, te')
     \<and> handle_message (memory_ops (Time 1)) 5 message demo_world = (w', Go_on)
     \<and> length data = 10 \<and> mem_live (Time 1) (w_db w') ''d'' = Some ([1, 2] @ data)"
proof -
  have "u64_len [1, 2 :: u8] = 2" by (simp add: u64_len_def)
  with teacher_served [OF demo_world_ok demo_world_clients(1), of "Time 1" "[1, 2]" demo_teacher 10 "Time 0"]
  show ?thesis
    by (fastforce simp: demo_world_doc demo_teacher_def)
qed

text \<open>
  A student ignores the stamp of an append with fewer than four bytes; a teacher that reads
  one from another client of the document panics.
\<close>

lemma teacher_short_append:
  assumes "version < 3" and "data \<noteq> []" and "length data < 4" and "\<not> te_first te"
  shows "teacher_read now (append_bytes version data offset) (te, s) = Panic"
    and "student_read now (append_bytes version data offset) (f, s) = Ok (False, s)"
proof -
  let ?m = "\<lparr>ap2_MessageType = appendV2MessageType, ap2_More = 0, ap2_Offset = offset, ap2_Data = data\<rparr>"
  have r: "readAppendMessage (append_bytes version data offset) = Ok ?m"
    by (rule readAppendMessage_queued) (use assms in auto)
  then show "student_read now (append_bytes version data offset) (f, s) = Ok (False, s)"
    using assms(3) by (simp add: student_read_def)
  from r obtain rest where "append_bytes version data offset = appendV2MessageType # rest"
    "must_decode (decode_appendMessageV2 (append_bytes version data offset)) = Ok ?m"
    by (auto simp: readAppendMessage_def split: list.splits if_splits)
  then show "teacher_read now (append_bytes version data offset) (te, s) = Panic"
    using assms by (auto simp: teacher_read_def ping_def decodeSendingMS_def Let_def)
qed

end
