(* ===== verification/StressRun.thy ===== *)
theory StressRun
  imports StressTest Http
begin

text \<open>
  \<open>RunStressTest\<close> as a whole: one goroutine for each student and each reading teacher, one for
  each writing teacher, and the flag \<open>abort\<close>, the wait group and the statistics they share. A
  step is what one goroutine does up to its next blocking call or its next deferred function:
  a dial, the write of the first message, a read, closing the connection, leaving the wait
  group, and setting the flag are steps of their own, and so are a writer's wake-up, at which it
  looks at the flag, and its write. A panic of a student or a reader is recovered by
  \<open>abortOnError\<close>, which sets the flag; a panic of a writer is recovered by nobody and ends the
  process, as when it writes to a connection its reader has closed.

  The lemmas: after an error of one client the test ends, unless a writer ends the process;
  how a writer does so; and that nothing but a writer's write does.
\<close>

section \<open>Statistics on the screen\<close>

definition int_text :: "int \<Rightarrow> string" where
  "int_text n = (if n < 0 then ''-'' else []) @ decimal (nat \<bar>n\<bar>)"

text \<open>Go's conversion of a float to an \<open>int\<close> cuts off the fraction.\<close>

definition truncate :: "rat \<Rightarrow> int" where
  "truncate x = (if x < 0 then - \<lfloor>- x\<rfloor> else \<lfloor>x\<rfloor>)"

definition stats_line :: "stress_stats \<Rightarrow> string" where
  "stats_line s = ''Connections='' @ int_text (st_numConnected s) @ '' docLength='' @ int_text (st_docLength s)
     @ '' Screen-to-screen time avg='' @ int_text (truncate (st_pingTime s)) @ ''ms min='' @ int_text (st_minTime s)
     @ ''ms max='' @ int_text (st_maxTime s) @ ''ms      ''"

section \<open>State\<close>

text \<open>
  Where the goroutine of a client is: dialling or writing the first message, as a teacher or
  not; reading; or unwinding, with a panic or without, before one of the deferred functions
  (\<open>conn.Close\<close>, \<open>wg.Done\<close>, and that of \<open>abortOnError\<close>).
\<close>

datatype goroutine = Connecting bool | Greeting bool | Student bool | Teacher_waiting | Teacher
  | Closing bool | Leaving bool | Recovering | Ended

text \<open>A writer is not started or has returned, sleeps, or is past its checks with a message to write.\<close>

datatype writer_thread = Stopped | Sleeping | Writing bytes

record stress_run =
  sr_args :: StressTestArgs
  sr_stats :: stress_stats
  sr_lastShowTime :: gotime
  sr_shown :: "string list"
  sr_maxPingTimes :: int
  sr_abort :: bool
  sr_wg :: int
  sr_clients :: "int \<Rightarrow> goroutine option"
  sr_teachers :: "int \<Rightarrow> teacher option"
  sr_writers :: "int \<Rightarrow> writer_thread"
  sr_sent :: "(int \<times> bytes) list"
  sr_crashed :: bool

definition RunStressTest :: "StressTestArgs \<Rightarrow> stress_run" where
  "RunStressTest argsIn =
     (let args = stress_defaults argsIn; clients = stress_clients args in
      \<lparr>sr_args = args, sr_stats = no_stats, sr_lastShowTime = zero_time, sr_shown = [],
       sr_maxPingTimes = (sa_NumTeachers args + sa_NumStudents args) * 5, sr_abort = False,
       sr_wg = int (length clients),
       sr_clients = map_of (map (\<lambda>(clientID, t). (clientID, Connecting t)) clients),
       sr_teachers = Map.empty, sr_writers = (\<lambda>_. Stopped), sr_sent = [], sr_crashed = False\<rparr>)"

section \<open>Steps\<close>

definition showStats :: "gotime \<Rightarrow> stress_run \<Rightarrow> stress_run" where
  "showStats now s =
     (if time_sub now (sr_lastShowTime s) < 100 * 1000000 then s
      else s\<lparr>sr_lastShowTime := now, sr_shown := sr_shown s @ [stats_line (sr_stats s)]\<rparr>)"

text \<open>New statistics are shown when they have a new sample.\<close>

definition recorded :: "gotime \<Rightarrow> stress_stats \<Rightarrow> stress_run \<Rightarrow> stress_run" where
  "recorded now stats s =
     (if st_numSamples stats \<noteq> st_numSamples (sr_stats s) then showStats now (s\<lparr>sr_stats := stats\<rparr>) else s)"

definition goes_to :: "int \<Rightarrow> goroutine \<Rightarrow> stress_run \<Rightarrow> stress_run" where
  "goes_to clientID g s = s\<lparr>sr_clients := (sr_clients s)(clientID \<mapsto> g)\<rparr>"

text \<open>The head of the loops \<open>for !args.abort\<close>; the function returns when the flag is set.\<close>

definition loop_head :: "int \<Rightarrow> goroutine \<Rightarrow> stress_run \<Rightarrow> stress_run" where
  "loop_head clientID g s = goes_to clientID (if sr_abort s then Closing False else g) s"

definition sends :: "int \<Rightarrow> bytes \<Rightarrow> stress_run \<Rightarrow> stress_run" where
  "sends clientID message s = s\<lparr>sr_sent := sr_sent s @ [(clientID, message)]\<rparr>"

text \<open>After the dial, and after the first message.\<close>

definition dialled :: "int \<Rightarrow> bool \<Rightarrow> gotime \<Rightarrow> stress_run \<Rightarrow> stress_run" where
  "dialled clientID is_teacher now s =
     goes_to clientID (Greeting is_teacher) (showStats now (s\<lparr>sr_stats := recordConnection (sr_stats s)\<rparr>))"

definition greeted :: "int \<Rightarrow> bool \<Rightarrow> stress_run \<Rightarrow> stress_run" where
  "greeted clientID is_teacher s =
     (let s1 = sends clientID (connect_message (sa_DocumentID (sr_args s))) s in
      if is_teacher then goes_to clientID Teacher_waiting s1 else loop_head clientID (Student True) s1)"

text \<open>After a read.\<close>

definition student_returns :: "int \<Rightarrow> bool \<Rightarrow> gotime \<Rightarrow> bytes \<Rightarrow> stress_run \<Rightarrow> stress_run" where
  "student_returns clientID first_one now message s =
     (case student_read now message (first_one, sr_stats s) of
        Ok (first_one', stats) \<Rightarrow> loop_head clientID (Student first_one') (recorded now stats s)
      | _ \<Rightarrow> goes_to clientID (Closing True) s)"

text \<open>A teacher starts its writer after the first message.\<close>

definition teacher_begins :: "int \<Rightarrow> bytes \<Rightarrow> stress_run \<Rightarrow> stress_run" where
  "teacher_begins clientID message s =
     (case teacher_start message of
        Ok te \<Rightarrow> loop_head clientID Teacher (s\<lparr>sr_teachers := (sr_teachers s)(clientID \<mapsto> te),
                                                sr_writers := (sr_writers s)(clientID := Sleeping)\<rparr>)
      | _ \<Rightarrow> goes_to clientID (Closing True) s)"

definition teacher_returns :: "int \<Rightarrow> gotime \<Rightarrow> bytes \<Rightarrow> stress_run \<Rightarrow> stress_run" where
  "teacher_returns clientID now message s =
     (case sr_teachers s clientID of
        None \<Rightarrow> goes_to clientID (Closing True) s
      | Some te \<Rightarrow>
          (case teacher_read now message (te, sr_stats s) of
             Ok (te', stats) \<Rightarrow>
               loop_head clientID Teacher (recorded now stats (s\<lparr>sr_teachers := (sr_teachers s)(clientID \<mapsto> te')\<rparr>))
           | _ \<Rightarrow> goes_to clientID (Closing True) s))"

text \<open>
  The deferred functions of a client, and that of \<open>abortOnError\<close>, which sees a panic only if
  there is one.
\<close>

definition leaves :: "int \<Rightarrow> bool \<Rightarrow> stress_run \<Rightarrow> stress_run" where
  "leaves clientID panicking s =
     goes_to clientID (if panicking then Recovering else Ended) (s\<lparr>sr_wg := sr_wg s - 1\<rparr>)"

definition abortOnError :: "int \<Rightarrow> stress_run \<Rightarrow> stress_run" where
  "abortOnError clientID s = goes_to clientID Ended (s\<lparr>sr_abort := True\<rparr>)"

text \<open>
  A client goes on: its blocking call returns, with the message it has read if it was a read,
  or with an error (\<open>None\<close>), which panics; or it runs its next deferred function. There is no
  connection to close if the dial failed.
\<close>

definition client_runs :: "int \<Rightarrow> gotime \<Rightarrow> bytes option \<Rightarrow> stress_run \<Rightarrow> stress_run" where
  "client_runs clientID now result s =
     (case (sr_clients s clientID, result) of
        (None, _) \<Rightarrow> s
      | (Some Ended, _) \<Rightarrow> s
      | (Some (Closing panicking), _) \<Rightarrow> goes_to clientID (Leaving panicking) s
      | (Some (Leaving panicking), _) \<Rightarrow> leaves clientID panicking s
      | (Some Recovering, _) \<Rightarrow> abortOnError clientID s
      | (Some (Connecting _), None) \<Rightarrow> goes_to clientID (Leaving True) s
      | (Some _, None) \<Rightarrow> goes_to clientID (Closing True) s
      | (Some (Connecting is_teacher), Some _) \<Rightarrow> dialled clientID is_teacher now s
      | (Some (Greeting is_teacher), Some _) \<Rightarrow> greeted clientID is_teacher s
      | (Some (Student first_one), Some message) \<Rightarrow> student_returns clientID first_one now message s
      | (Some Teacher_waiting, Some message) \<Rightarrow> teacher_begins clientID message s
      | (Some Teacher, Some message) \<Rightarrow> teacher_returns clientID now message s)"

lemmas runs_defs = client_runs_def dialled_def greeted_def student_returns_def teacher_begins_def
  teacher_returns_def leaves_def abortOnError_def

text \<open>A writer wakes up, looks at the flag and at \<open>gotAck\<close>, and prepares a message.\<close>

definition set_writer :: "int \<Rightarrow> writer_thread \<Rightarrow> stress_run \<Rightarrow> stress_run" where
  "set_writer clientID wt s = s\<lparr>sr_writers := (sr_writers s)(clientID := wt)\<rparr>"

definition writer_wakes :: "int \<Rightarrow> gotime \<Rightarrow> stress_run \<Rightarrow> stress_run" where
  "writer_wakes clientID now s =
     (case (sr_writers s clientID, sr_teachers s clientID) of
        (Sleeping, Some te) \<Rightarrow>
          if sr_abort s then set_writer clientID Stopped s
          else (case teacher_write now (sa_ChangeLength (sr_args s)) te of
                  Ok (None, te') \<Rightarrow> s
                | Ok (Some message, te') \<Rightarrow>
                    set_writer clientID (Writing message) (s\<lparr>sr_teachers := (sr_teachers s)(clientID \<mapsto> te')\<rparr>)
                | _ \<Rightarrow> s\<lparr>sr_crashed := True\<rparr>)
      | _ \<Rightarrow> s)"

definition conn_open :: "goroutine option \<Rightarrow> bool" where
  "conn_open g = (case g of
     Some (Greeting _) \<Rightarrow> True | Some (Student _) \<Rightarrow> True | Some Teacher_waiting \<Rightarrow> True
   | Some Teacher \<Rightarrow> True | Some (Closing _) \<Rightarrow> True | _ \<Rightarrow> False)"

text \<open>It writes the message, which fails if the connection is closed or \<open>writes\<close> says so.\<close>

definition writer_writes :: "int \<Rightarrow> bool \<Rightarrow> stress_run \<Rightarrow> stress_run" where
  "writer_writes clientID writes s =
     (case sr_writers s clientID of
        Writing message \<Rightarrow>
          if writes \<and> conn_open (sr_clients s clientID)
          then set_writer clientID Sleeping (sends clientID message s)
          else s\<lparr>sr_crashed := True\<rparr>
      | _ \<Rightarrow> s)"

datatype stress_event = Runs int gotime "bytes option" | Wakes int gotime | Writes int bool | Settled gotime

definition stress_step :: "stress_event \<Rightarrow> stress_run \<Rightarrow> stress_run" where
  "stress_step e s =
     (if sr_crashed s then s
      else case e of
        Runs clientID now result \<Rightarrow> client_runs clientID now result s
      | Wakes clientID now \<Rightarrow> writer_wakes clientID now s
      | Writes clientID writes \<Rightarrow> writer_writes clientID writes s
      | Settled now \<Rightarrow> showStats now s)"

lemma run_frame [simp]:
  "sr_abort (showStats now s) = sr_abort s" "sr_crashed (showStats now s) = sr_crashed s"
  "sr_clients (showStats now s) = sr_clients s" "sr_wg (showStats now s) = sr_wg s"
  "sr_args (showStats now s) = sr_args s" "sr_writers (showStats now s) = sr_writers s"
  "sr_abort (recorded now st s) = sr_abort s" "sr_crashed (recorded now st s) = sr_crashed s"
  "sr_clients (recorded now st s) = sr_clients s" "sr_wg (recorded now st s) = sr_wg s"
  "sr_args (recorded now st s) = sr_args s" "sr_writers (recorded now st s) = sr_writers s"
  by (simp_all add: showStats_def recorded_def)

lemmas run_frames = goes_to_def loop_head_def sends_def set_writer_def

section \<open>Where a client goes\<close>

text \<open>How many steps a client has left when the flag is set.\<close>

fun steps_left :: "goroutine \<Rightarrow> nat" where
  "steps_left (Connecting t) = 6"
| "steps_left (Greeting t) = 5"
| "steps_left (Closing p) = 3"
| "steps_left (Leaving p) = 2"
| "steps_left Recovering = 1"
| "steps_left Ended = 0"
| "steps_left g = 4"

text \<open>A client that is over its last read with a panic; the flag is set at the end.\<close>

fun panicking :: "goroutine \<Rightarrow> bool" where
  "panicking (Closing p) = p"
| "panicking (Leaving p) = p"
| "panicking Recovering = True"
| "panicking g = False"

text \<open>Whether it still counts in the wait group.\<close>

fun counted :: "goroutine \<Rightarrow> bool" where
  "counted Recovering = False"
| "counted Ended = False"
| "counted g = True"

text \<open>One step of a client: what it does to itself, to the wait group and to the flag.\<close>

lemma client_runs_goes:
  assumes "sr_clients s clientID = Some g"
  obtains g' where "sr_clients (client_runs clientID now result s) = (sr_clients s)(clientID \<mapsto> g')"
    and "sr_crashed (client_runs clientID now result s) = sr_crashed s"
    and "sr_abort (client_runs clientID now result s) \<longleftrightarrow> sr_abort s \<or> g = Recovering"
    and "sr_abort s \<Longrightarrow> steps_left g' \<le> steps_left g - 1"
    and "panicking g \<Longrightarrow> steps_left g' = steps_left g - 1 \<and> (g \<noteq> Recovering \<longrightarrow> panicking g')"
    and "sr_wg (client_runs clientID now result s) = sr_wg s - (if counted g \<and> \<not> counted g' then 1 else 0)"
    and "counted g' \<Longrightarrow> counted g"
proof -
  let ?s = "client_runs clientID now result s"
  define g' where "g' = (case sr_clients ?s clientID of Some g' \<Rightarrow> g' | None \<Rightarrow> Ended)"
  have "sr_clients ?s = (sr_clients s)(clientID \<mapsto> g') \<and> sr_crashed ?s = sr_crashed s
      \<and> (sr_abort ?s \<longleftrightarrow> sr_abort s \<or> g = Recovering)
      \<and> (sr_abort s \<longrightarrow> steps_left g' \<le> steps_left g - 1)
      \<and> (panicking g \<longrightarrow> steps_left g' = steps_left g - 1 \<and> (g \<noteq> Recovering \<longrightarrow> panicking g'))
      \<and> sr_wg ?s = sr_wg s - (if counted g \<and> \<not> counted g' then 1 else 0) \<and> (counted g' \<longrightarrow> counted g)"
    using assms
    by (cases g; cases result)
      (auto simp: runs_defs run_frames g'_def Let_def fun_eq_iff split: outcome.splits option.splits)
  then show thesis by (intro that [of g']) simp_all
qed

lemma client_runs_none: "sr_clients s clientID = None \<Longrightarrow> client_runs clientID now result s = s"
  by (simp add: client_runs_def)

lemma writer_frame:
  "sr_clients (writer_wakes clientID now s) = sr_clients s" "sr_abort (writer_wakes clientID now s) = sr_abort s"
  "sr_wg (writer_wakes clientID now s) = sr_wg s"
  "sr_clients (writer_writes clientID ok s) = sr_clients s" "sr_abort (writer_writes clientID ok s) = sr_abort s"
  "sr_wg (writer_writes clientID ok s) = sr_wg s"
  by (auto simp: writer_wakes_def writer_writes_def run_frames split: option.splits outcome.splits writer_thread.splits)

text \<open>The steps of client \<open>k\<close> among the events.\<close>

definition runs :: "int \<Rightarrow> stress_event \<Rightarrow> bool" where
  "runs k e \<longleftrightarrow> (case e of Runs clientID now result \<Rightarrow> clientID = k | _ \<Rightarrow> False)"

definition runs_of :: "int \<Rightarrow> stress_event list \<Rightarrow> nat" where
  "runs_of k es = length (filter (runs k) es)"

lemma step_other:
  assumes "\<not> runs k e"
  shows "sr_clients (stress_step e s) k = sr_clients s k"
proof (cases e)
  case (Runs clientID now result)
  with assms have "clientID \<noteq> k" by (simp add: runs_def)
  then show ?thesis
    by (cases "sr_clients s clientID"; cases "sr_crashed s")
      (simp_all add: Runs stress_step_def client_runs_none, metis client_runs_goes fun_upd_other)
qed (simp_all add: stress_step_def writer_frame)

lemma step_self:
  assumes "runs k e" and "\<not> sr_crashed s"
  obtains now result where "stress_step e s = client_runs k now result s"
  using assms by (cases e) (auto simp: runs_def stress_step_def)

lemma step_abort: "sr_abort s \<Longrightarrow> sr_abort (stress_step e s)"
proof (cases e)
  case (Runs clientID now result)
  then show "sr_abort s \<Longrightarrow> ?thesis"
    by (cases "sr_clients s clientID")
      (auto simp: stress_step_def client_runs_none elim: client_runs_goes [of s clientID _ now result])
qed (simp_all add: stress_step_def writer_frame)

lemma step_crashed: "sr_crashed s \<Longrightarrow> stress_step e s = s"
  by (simp add: stress_step_def)

section \<open>An error ends the test\<close>

text \<open>A client that is in a blocking call.\<close>

fun blocked :: "goroutine \<Rightarrow> bool" where
  "blocked (Connecting t) = True"
| "blocked (Greeting t) = True"
| "blocked (Student b) = True"
| "blocked Teacher_waiting = True"
| "blocked Teacher = True"
| "blocked g = False"

text \<open>Client \<open>k\<close> sets the flag within \<open>n\<close> of its steps.\<close>

definition will_abort :: "int \<Rightarrow> nat \<Rightarrow> stress_run \<Rightarrow> bool" where
  "will_abort k n s \<longleftrightarrow> sr_crashed s \<or> sr_abort s
     \<or> (\<exists>g. sr_clients s k = Some g \<and> panicking g \<and> steps_left g \<le> n)"

text \<open>The flag is set, and client \<open>k\<close> ends within \<open>n\<close> of its steps.\<close>

definition will_end :: "int \<Rightarrow> nat \<Rightarrow> stress_run \<Rightarrow> bool" where
  "will_end k n s \<longleftrightarrow> sr_crashed s \<or> sr_abort s \<and> (\<exists>g. sr_clients s k = Some g \<and> steps_left g \<le> n)"

lemma blocked_fails:
  assumes "sr_clients s k = Some g" and "blocked g"
  shows "will_abort k 3 (stress_step (Runs k now None) s)"
  using assms by (cases g) (auto simp: will_abort_def stress_step_def client_runs_def goes_to_def)

lemma steps_left_most: "steps_left g \<le> 6"
  by (cases g) simp_all

lemma steps_left_none: "steps_left g = 0 \<longleftrightarrow> g = Ended"
  by (cases g) simp_all

lemma panicking_steps: "panicking g \<Longrightarrow> steps_left g \<noteq> 0"
  by (cases g) simp_all

lemma will_abort_step:
  assumes "will_abort k n s"
  shows "will_abort k (if runs k e then n - 1 else n) (stress_step e s)"
proof (cases "sr_crashed s \<or> sr_abort s \<or> \<not> runs k e")
  case True
  with assms show ?thesis
    by (auto simp: will_abort_def step_crashed step_abort step_other)
next
  case False
  then obtain g where g: "sr_clients s k = Some g" "panicking g" "steps_left g \<le> n"
    using assms by (auto simp: will_abort_def)
  obtain now result where "stress_step e s = client_runs k now result s"
    using step_self False by blast
  then show ?thesis
    using g False by (cases rule: client_runs_goes [OF g(1), of now result]) (auto simp: will_abort_def)
qed

lemma will_end_step:
  assumes "will_end k n s"
  shows "will_end k (if runs k e then n - 1 else n) (stress_step e s)"
proof (cases "sr_crashed s \<or> \<not> runs k e")
  case True
  with assms show ?thesis by (auto simp: will_end_def step_crashed step_abort step_other)
next
  case False
  then obtain g where g: "sr_clients s k = Some g" "sr_abort s" "steps_left g \<le> n"
    using assms by (auto simp: will_end_def)
  obtain now result where "stress_step e s = client_runs k now result s"
    using step_self False by blast
  then show ?thesis
    using g False by (cases rule: client_runs_goes [OF g(1), of now result]) (auto simp: will_end_def)
qed

lemma counts_down:
  assumes step: "\<And>n s e. P n s \<Longrightarrow> P (if runs k e then n - 1 else n) (stress_step e s)"
  shows "P n s \<Longrightarrow> P (n - runs_of k es) (fold stress_step es s)"
proof (induction es arbitrary: n s)
  case (Cons e es)
  show ?case
    using Cons.IH [OF step [OF Cons.prems, of e]] by (cases "runs k e") (simp_all add: runs_of_def)
qed (simp add: runs_of_def)

lemma will_abort_run: "will_abort k n s \<Longrightarrow> will_abort k (n - runs_of k es) (fold stress_step es s)"
  by (rule counts_down [where P = "will_abort k"]) (rule will_abort_step)

lemma will_end_run: "will_end k n s \<Longrightarrow> will_end k (n - runs_of k es) (fold stress_step es s)"
  by (rule counts_down [where P = "will_end k"]) (rule will_end_step)

lemma step_dom: "sr_clients (stress_step e s) k = None \<longleftrightarrow> sr_clients s k = None"
proof (cases "runs k e \<and> \<not> sr_crashed s")
  case True
  obtain now result where e: "stress_step e s = client_runs k now result s"
    using step_self True by blast
  show ?thesis
  proof (cases "sr_clients s k")
    case (Some g)
    then show ?thesis using e by (cases rule: client_runs_goes [OF Some, of now result]) simp
  qed (simp add: e client_runs_none)
qed (auto simp: step_other step_crashed)

lemma run_dom: "sr_clients (fold stress_step es s) k = None \<longleftrightarrow> sr_clients s k = None"
  by (induction es arbitrary: s) (simp_all add: step_dom)

text \<open>The wait group counts the clients that have not left it.\<close>

definition wg_ok :: "stress_run \<Rightarrow> bool" where
  "wg_ok s \<longleftrightarrow> finite (dom (sr_clients s))
     \<and> sr_wg s = int (card {k. \<exists>g. sr_clients s k = Some g \<and> counted g})"

lemma wg_ok_step: "wg_ok s \<Longrightarrow> wg_ok (stress_step e s)"
proof (cases "\<exists>clientID now result g. e = Runs clientID now result \<and> sr_clients s clientID = Some g \<and> \<not> sr_crashed s")
  case True
  then obtain k now result g where e: "e = Runs k now result" "sr_clients s k = Some g" "\<not> sr_crashed s" by blast
  assume wg: "wg_ok s"
  define A where "A = {k. \<exists>g. sr_clients s k = Some g \<and> counted g}"
  have fin: "finite A" by (rule finite_subset [of _ "dom (sr_clients s)"]) (use wg in \<open>auto simp: A_def wg_ok_def\<close>)
  let ?s = "client_runs k now result s"
  have "wg_ok ?s"
  proof (rule client_runs_goes [OF e(2), of now result])
    fix g'
    assume c: "sr_clients ?s = (sr_clients s)(k \<mapsto> g')" and mono: "counted g' \<Longrightarrow> counted g"
      and n: "sr_wg ?s = sr_wg s - (if counted g \<and> \<not> counted g' then 1 else 0)"
    have "{k. \<exists>g. sr_clients ?s k = Some g \<and> counted g} = (if counted g \<and> \<not> counted g' then A - {k} else A)"
      using mono e(2) by (auto simp: c A_def)
    moreover have "counted g \<Longrightarrow> k \<in> A" using e(2) by (simp add: A_def)
    moreover have "0 < card A" if "k \<in> A" using fin that card_gt_0_iff by blast
    ultimately show ?thesis
      using wg by (simp add: wg_ok_def c n flip: A_def) linarith
  qed
  then show ?thesis by (simp add: e stress_step_def)
next
  case False
  assume "wg_ok s"
  with False show ?thesis
    by (cases e) (auto simp: stress_step_def writer_frame wg_ok_def client_runs_none)
qed

lemma wg_ok_run: "wg_ok s \<Longrightarrow> wg_ok (fold stress_step es s)"
  by (induction es arbitrary: s) (simp_all add: wg_ok_step)

lemma stress_clients_distinct: "distinct (map fst (stress_clients args))"
  by (auto simp: stress_clients_def distinct_map inj_on_def)

lemma wg_ok_start: "wg_ok (RunStressTest args)"
proof -
  let ?cs = "stress_clients (stress_defaults args)"
  let ?m = "map_of (map (\<lambda>(clientID, t). (clientID, Connecting t)) ?cs)"
  have m: "?m = map_option Connecting \<circ> map_of ?cs" by (rule map_of_map)
  have "{k. \<exists>g. ?m k = Some g \<and> counted g} = dom (map_of ?cs)"
    by (auto simp: m)
  then have "{k. \<exists>g. ?m k = Some g \<and> counted g} = fst ` set ?cs"
    by (simp add: dom_map_of_conv_image_fst)
  moreover have "card (fst ` set ?cs) = length ?cs"
    using distinct_card [of "map fst ?cs"] stress_clients_distinct [of "stress_defaults args"] by simp
  ultimately show ?thesis
    by (simp add: wg_ok_def RunStressTest_def Let_def finite_dom_map_of)
qed

text \<open>
  C34: An error of one client ends the whole test, unless a writer ends the process. Let a
  running test have any client whose blocking call fails; once that client has run its deferred
  functions, of which the last sets the flag, and then every client has made six steps more,
  which takes each out of its loop and through its deferred functions, either the process has
  crashed, or the flag is set, every client has ended, and the wait group is empty, so that
  \<open>RunStressTest\<close> returns.
\<close>

theorem stress_error_ends_test:
  fixes now :: gotime
  assumes s: "s = fold stress_step es0 (RunStressTest args)"
    and "sr_clients s clientID = Some g" and "blocked g"
    and "3 \<le> runs_of clientID es1" and "\<And>k. sr_clients s k \<noteq> None \<Longrightarrow> 6 \<le> runs_of k es2"
  defines "s' \<equiv> fold stress_step (es1 @ es2) (stress_step (Runs clientID now None) s)"
  shows "sr_crashed s'
    \<or> sr_abort s' \<and> sr_wg s' = 0 \<and> (\<forall>k. sr_clients s k \<noteq> None \<longrightarrow> sr_clients s' k = Some Ended)"
proof -
  let ?s1 = "stress_step (Runs clientID now None) s"
  let ?s2 = "fold stress_step es1 ?s1"
  have "will_abort clientID 3 ?s1" using assms(2,3) by (rule blocked_fails)
  from will_abort_run [OF this, of es1] assms(4) have flag: "sr_crashed ?s2 \<or> sr_abort ?s2"
    by (auto simp: will_abort_def dest: panicking_steps)
  have ended: "sr_crashed s' \<or> sr_abort s' \<and> sr_clients s' k = Some Ended" if k: "sr_clients s k \<noteq> None" for k
  proof -
    have "sr_clients ?s2 k \<noteq> None" using k by (simp add: run_dom step_dom)
    with flag have "will_end k 6 ?s2" by (auto simp: will_end_def intro: steps_left_most)
    from will_end_run [OF this, of es2] assms(5) [OF k] show ?thesis
      by (auto simp: will_end_def s'_def steps_left_none)
  qed
  have all: "sr_clients s' k \<noteq> None \<Longrightarrow> sr_clients s k \<noteq> None" for k
    by (simp add: s'_def run_dom step_dom)
  have "sr_wg s' = 0" if "\<not> sr_crashed s'"
  proof -
    have "{k. \<exists>g. sr_clients s' k = Some g \<and> counted g} = {}"
      using ended all that by fastforce
    moreover have "wg_ok s'" unfolding s'_def s by (intro wg_ok_run wg_ok_step wg_ok_start)
    ultimately show ?thesis by (simp only: wg_ok_def card.empty of_nat_0)
  qed
  with ended [of clientID] ended assms(2) show ?thesis by blast
qed

text \<open>One student, client 1, and one teacher, client 2.\<close>

definition demo_run :: stress_run where
  "demo_run = RunStressTest \<lparr>sa_Address = ''ws://localhost'', sa_DocumentID = ''d'', sa_NumTeachers = 1,
     sa_NumStudents = 1, sa_DelayMS = 0, sa_ChangeLength = 0\<rparr>"

lemma demo_run_clients: "sr_clients demo_run = [1 \<mapsto> Connecting False, 2 \<mapsto> Connecting True]"
  by (simp add: demo_run_def RunStressTest_def Let_def stress_clients_def stress_defaults_def fun_eq_iff)

text \<open>The student connects, sends its first message and reads an error; the teacher is dialling.\<close>

theorem stress_error_ends_test_witness:
  "let s = fold stress_step [Runs 1 (Time 0) (Some []), Runs 1 (Time 1) (Some [])] demo_run;
       s' = fold stress_step (replicate 3 (Runs 1 (Time 5) None) @ replicate 6 (Runs 1 (Time 6) None) @ replicate 6 (Runs 2 (Time 7) (Some [])))
         (stress_step (Runs 1 (Time 4) None) s)
   in sr_crashed s' \<or> sr_abort s' \<and> sr_wg s' = 0"
proof -
  let ?es0 = "[Runs 1 (Time 0) (Some []), Runs 1 (Time 1) (Some [])]"
  let ?s = "fold stress_step ?es0 demo_run"
  let ?es1 = "replicate 3 (Runs 1 (Time 5) None)"
  let ?es2 = "replicate 6 (Runs 1 (Time 6) None) @ replicate 6 (Runs 2 (Time 7) (Some []))"
  have r: "\<not> sr_crashed demo_run" "\<not> sr_abort demo_run" by (simp_all add: demo_run_def RunStressTest_def Let_def)
  have c: "sr_clients ?s = [1 \<mapsto> Student True, 2 \<mapsto> Connecting True]"
    by (simp add: stress_step_def runs_defs demo_run_clients run_frames r Let_def fun_eq_iff)
  have "6 \<le> runs_of k ?es2" if "sr_clients ?s k \<noteq> None" for k
  proof -
    have "k = 1 \<or> k = 2" using that unfolding c by (simp split: if_splits)
    then show ?thesis by (auto simp: runs_of_def runs_def)
  qed
  moreover have "3 \<le> runs_of 1 ?es1" by (simp add: runs_of_def runs_def)
  moreover have "?s = fold stress_step ?es0 (RunStressTest \<lparr>sa_Address = ''ws://localhost'', sa_DocumentID = ''d'',
      sa_NumTeachers = 1, sa_NumStudents = 1, sa_DelayMS = 0, sa_ChangeLength = 0\<rparr>)"
    by (simp add: demo_run_def)
  moreover have "sr_clients ?s 1 = Some (Student True)" unfolding c by simp
  ultimately have "sr_crashed (fold stress_step (?es1 @ ?es2) (stress_step (Runs 1 (Time 4) None) ?s))
      \<or> sr_abort (fold stress_step (?es1 @ ?es2) (stress_step (Runs 1 (Time 4) None) ?s))
        \<and> sr_wg (fold stress_step (?es1 @ ?es2) (stress_step (Runs 1 (Time 4) None) ?s)) = 0"
    using stress_error_ends_test [of ?s ?es0 _ 1 "Student True" ?es1 ?es2 "Time 4"] by (metis blocked.simps(3))
  then show ?thesis by (simp only: Let_def append_assoc)
qed

section \<open>How the process crashes\<close>

text \<open>
  A writer that is past its check of the flag when its reader fails ends the process, although
  the failure has set the flag by then: the reader's deferred \<open>conn.Close\<close> runs first, and the
  panic of the writer's \<open>sendStressMessage\<close> is not recovered.
\<close>

theorem stress_writer_crashes:
  assumes "\<not> sr_crashed s" and "sr_clients s clientID = Some Teacher" and "sr_writers s clientID = Writing message"
    and "s1 = fold stress_step [Runs clientID t1 None, Runs clientID t2 r2, Runs clientID t3 r3, Runs clientID t4 r4] s"
  shows "sr_abort s1 \<and> \<not> sr_crashed s1 \<and> sr_crashed (stress_step (Writes clientID True) s1)"
  using assms
  by (simp add: stress_step_def runs_defs run_frames writer_writes_def conn_open_def)

text \<open>Teacher 2 alone has read an empty document, and its writer has a message.\<close>

definition writing_run :: stress_run where
  "writing_run = fold stress_step [Runs 2 (Time 0) (Some []), Runs 2 (Time 1) (Some []),
     Runs 2 (Time 2) (Some [2, 0, 0, 0, 0, 0, 0, 0, 0, 0]), Wakes 2 (Time 3)] demo_run"

lemma writing_run_state:
  "\<not> sr_crashed writing_run \<and> sr_clients writing_run 2 = Some Teacher
   \<and> (\<exists>message. sr_writers writing_run 2 = Writing message)"
proof -
  have "\<not> sr_crashed writing_run \<and> sr_clients writing_run 2 = Some Teacher
      \<and> (case sr_writers writing_run 2 of Writing m \<Rightarrow> True | _ \<Rightarrow> False)"
    by code_simp
  then show ?thesis by (auto split: writer_thread.splits)
qed

theorem stress_writer_crashes_witness:
  "\<exists>s1. sr_abort s1 \<and> \<not> sr_crashed s1 \<and> sr_crashed (stress_step (Writes 2 True) s1)"
  using stress_writer_crashes [OF _ _ _ refl] writing_run_state by blast

text \<open>
  Nothing else ends the process: whatever the server sends, the change length that
  \<open>RunStressTest\<close> enforces has room for the time stamp, and the panics that a message can bring
  about are recovered. So if the process crashes, then at the write of a writer, which fails or
  whose connection is closed.
\<close>

lemma client_runs_args: "sr_args (client_runs clientID now result s) = sr_args s
    \<and> sr_crashed (client_runs clientID now result s) = sr_crashed s"
  by (auto simp: runs_defs run_frames Let_def split: option.splits goroutine.splits outcome.splits)

lemma teacher_writes: "4 \<le> n \<Longrightarrow> \<exists>m te'. teacher_write now n te = Ok (m, te')"
proof -
  assume n: "4 \<le> n"
  then have "4 \<le> nat n" by linarith
  then obtain data where "encodeSendingMS now (replicate (nat n) (word_of_int (te_nextChar te))) = Some data"
    using encodeSendingMS_defined [of "replicate (nat n) (word_of_int (te_nextChar te))" now] by auto
  with n show ?thesis by (simp add: teacher_write_def)
qed

definition bad_write :: "stress_run \<Rightarrow> stress_event \<Rightarrow> bool" where
  "bad_write s e \<longleftrightarrow> (\<exists>clientID writes. e = Writes clientID writes
     \<and> (\<not> writes \<or> \<not> conn_open (sr_clients s clientID)))"

lemma stress_step_args:
  assumes "4 \<le> sa_ChangeLength (sr_args s)"
  shows "sr_args (stress_step e s) = sr_args s
    \<and> (sr_crashed (stress_step e s) \<longrightarrow> sr_crashed s \<or> bad_write s e)"
proof (cases e)
  case (Wakes clientID now)
  show ?thesis
  proof (cases "sr_teachers s clientID")
    case (Some te)
    obtain m te' where "teacher_write now (sa_ChangeLength (sr_args s)) te = Ok (m, te')"
      using teacher_writes [OF assms] by blast
    with Some Wakes show ?thesis
      by (auto simp: stress_step_def writer_wakes_def run_frames split: option.splits writer_thread.splits)
  qed (auto simp: Wakes stress_step_def writer_wakes_def split: writer_thread.splits)
qed (use client_runs_args in \<open>auto simp: stress_step_def writer_writes_def bad_write_def run_frames
      split: writer_thread.splits\<close>)

theorem stress_crashes_at_a_write:
  assumes "sr_crashed (fold stress_step es (RunStressTest args))"
  shows "\<exists>es1 e es2. es = es1 @ e # es2 \<and> bad_write (fold stress_step es1 (RunStressTest args)) e"
proof -
  have "\<exists>es1 e es2. es = es1 @ e # es2 \<and> bad_write (fold stress_step es1 s) e"
    if "4 \<le> sa_ChangeLength (sr_args s)" "\<not> sr_crashed s" "sr_crashed (fold stress_step es s)" for s
    using that
  proof (induction es arbitrary: s)
    case (Cons e es)
    show ?case
    proof (cases "bad_write s e")
      case False
      with stress_step_args [of s e] Cons.prems Cons.IH [of "stress_step e s"] obtain es1 e' es2 where
        "es = es1 @ e' # es2" "bad_write (fold stress_step es1 (stress_step e s)) e'" by auto
      then show ?thesis by (intro exI [of _ "e # es1"]) auto
    next
      case True
      then show ?thesis by (intro exI [of _ "[]"]) auto
    qed
  qed simp
  moreover have "4 \<le> sa_ChangeLength (sr_args (RunStressTest args))"
    using stress_defaults_length [of args] by (simp add: RunStressTest_def Let_def)
  ultimately show ?thesis using assms by (simp add: RunStressTest_def Let_def)
qed

end
