(* ===== verification/Spec2Isabelle.thy ===== *)
theory Spec2Isabelle
  imports Collaboration SqlSchemas Server StressRun
begin

text \<open>
  A model of zwibserve, a collaboration server written in Go. Clients connect by websocket to
  a document, send appends to it, keys and broadcasts, and are sent those of the others. The
  server keeps documents in a database, and the sessions of connected clients in a hub.

  The parts of the program and their theories, each importing those it uses:

  \<^item> \<open>Prelude\<close>: Go's integers, strings, errors, panics and clock, and lemmas shared by all.
  \<^item> \<open>Encoder\<close> (\<open>encoder.go\<close>): \<open>encode\<close> and \<open>_decode\<close>, which work by reflection, over
    descriptions of the message structs; integers have the width of their field and every
    slice that is out of range panics. \<open>Messages\<close>: the message structs, their descriptions,
    and \<open>decodeInitMessage\<close> and \<open>decodeAppendMessage\<close> of \<open>client.go\<close>, which convert the
    older versions. \<open>Protocol\<close>: the properties of the bytes on the wire.
  \<^item> \<open>Framing\<close> (\<open>client.go\<close>): \<open>sendMessage\<close>, which splits long messages, and \<open>readMessage\<close>,
    which joins them.
  \<^item> \<open>DocumentDB\<close> (\<open>socket.go\<close>): the interface of the databases as a record of operations, its
    comments as a specification \<open>doc_spec\<close>, and as the locales \<open>document_reads\<close>,
    \<open>document_appends\<close>, \<open>document_contents\<close> and \<open>document_store\<close>. \<open>MemoryDB\<close> (\<open>memorydb.go\<close>), \<open>SqlxDB\<close>
    (\<open>sqlxdb.go\<close>) and \<open>RedisDB\<close> (\<open>redisdb.go\<close>) model the implementations and interpret the
    locales as far as they satisfy them; \<open>Databases\<close> compares them. \<open>SqlSchemas\<close>
    (\<open>sqlitedb.go\<close>, \<open>mariadb.go\<close>, \<open>mysql.go\<close>, \<open>postgresql.go\<close>): schemas and connections.
  \<^item> \<open>Webhooks\<close> (\<open>webhooks.go\<close>): the queue of events and the goroutine that sends them.
  \<^item> \<open>ClientQueue\<close> (\<open>client.go\<close>): a client's queue and the methods other goroutines call on
    it. \<open>WriteThread\<close>: the goroutine that empties the queue, with the mutex and the
    condition variable as steps. \<open>Replica\<close>: what the protocol promises a client, as a replay
    of messages on a copy of the document. \<open>Delivery\<close>: from the queue through writer and
    frames to that copy.
  \<^item> \<open>Hub\<close> (\<open>hub.go\<close>, \<open>haeStubs.go\<close>): sessions, their clients and keys, each operation one step, as the hub's
    goroutine runs one call at a time. Clients are references into a store. \<open>Sessions\<close>: the
    invariant \<open>hub_ok\<close>, and what each operation does to an abstract hub of members and
    shared keys; the locale \<open>fan_out\<close> is the contract of the three that pass something on.
  \<^item> \<open>Client\<close> (\<open>client.go\<close>): the goroutine of a connection, from the init message (tokens,
    permissions, creation modes) to the handlers of each message and the end. \<open>Handlers\<close>
    and \<open>Connection\<close>: lemmas on them for every database that satisfies \<open>document_store\<close>, at
    all times (\<open>served_store\<close>), or without expiration (\<open>lasting_store\<close>). \<open>Service\<close>,
    \<open>SqlService\<close> and \<open>RedisService\<close>: their properties with the memory, the SQL and the Redis
    database, the last as long as no other server writes to it. \<open>System\<close>: many clients, one handler at a time (\<open>serial\<close>) and interleaved.
  \<^item> \<open>Collaboration\<close>: all of this together, from the frames of one client to the copies of the
    others.
  \<^item> \<open>Http\<close> (\<open>http.go\<close>): the wrappers of HTTP handlers and outgoing requests. \<open>Server\<close>
    (\<open>socket.go\<close>, \<open>management.go\<close>): configuration, \<open>ServeHTTP\<close> and the management API.
  \<^item> \<open>StressTest\<close> (\<open>stresstest.go\<close>): the clients of the load generator, a second implementation
    of the protocol, and that the server serves them. \<open>StressRun\<close>: all its goroutines, as steps
    from one blocking call or deferred function to the next.

  How they interact: \<open>ServeHTTP\<close> answers requests of the management API, which call the
  database and the hub, and hands websockets to \<open>runClient\<close>. That reads from the connection,
  calls the database and the hub, and the hub calls the methods of \<open>ClientQueue\<close> on the other
  clients, whose writers send what is queued. The state of all this is the record \<open>world\<close>: a
  database, the hub and the store of clients. Definitions have the names of the Go functions,
  with a prefix where several types have a method of that name (\<open>mem_\<close>, \<open>sql_\<close>, \<open>redis_\<close>)
  or HOL has a constant of that name. An operation of a database that panics returns an
  \<open>outcome\<close>, or the text of its panic as \<open>Panicked\<close> where it has an error to return, and the panic
  goes through the handler that called it to the end of its connection or request.

  What the groups of lemmas show. Wire format: decoding never panics, messages and frames
  are read back as they were sent. Databases: the laws of the interface for memory and SQL
  and, but for the append to an absent document, for Redis; the equivalence of memory and SQL
  without expiration; atomicity of Redis transactions; the kinds of values in Redis; when a
  statement of SQL panics; life of tokens. Hub: the invariant of sessions in every reachable state, refinement of the
  abstract hub, delivery to exactly the other clients. Connections: no input makes a
  connection panic except the ones named, documents only grow, access needs permission.
  Collaboration: as long as handlers do not interleave, the frames sent to a client rebuild
  exactly the document, with each of the three databases; two interleavings that lose an append
  are shown.
  Writer: order, and termination after a close. API: nothing without the secret. Where the
  code does not do what its comments or its interface say, a theorem states what it does.

  Bounds and loops. Go's \<open>int\<close> has 64 bits (\<open>wrap_int\<close>); lengths of documents and messages are
  \<open>u64\<close> as in the code, and theorems that need lengths to be representable say so. Loops are
  structural recursions or functions with a termination proof, but for two. \<open>send_rest\<close> can
  run for ever and is a partial function whose value is then \<open>None\<close>. The decoder's loop over
  the structs at the end of a message has as fuel one more step than the message has bytes, or
  than the struct says it has elements, and is \<open>Diverge\<close> when that is used up; that it never
  is for a message of a client is part of the first property of \<open>Protocol\<close>. \<open>client_loop\<close> runs
  over the messages that are read, and \<open>executeWatch\<close> over the attempts that are made, of which
  an undisturbed one ends it. The clock is an argument of every operation that reads it.

  What is a parameter: the websocket, JWT, JSON and Redis client libraries, SQL drivers, the
  HTTP exchange, the parser of RFC 1123 dates, and the orders in which Go visits maps. SQL
  statements and Redis commands have the meaning their documentation gives them. Which texts an
  SQL engine takes and which fit a column is a parameter too (\<open>takes_text\<close>, \<open>text_fits\<close>); the
  locale \<open>blob_driver\<close>, of an engine that takes and stores any, holds of SQLite, and not of
  MariaDB and PostgreSQL, for which \<open>SqlxDB\<close> and \<open>SqlService\<close> say when a key panics.

  Left out: errors of the connection to a database; the limits of SQL columns for documents, of
  which the least is a gigabyte; and collations, by which MariaDB can take texts for equal that
  are not.

  Not modelled: the high-availability extension itself, which is not part of this repository
  (its stubs are, and every call of it is recorded in the hub); the lengths of the random delays
  of the load generator, its debug output, and the rounding of its averages; the meaning of connection strings
  to third-party drivers; logging; the timeouts of reads, which are errors of the read.
\<close>

end
